(* ===== verification/Base.thy ===== *)
theory Base
  imports Main
begin

text \<open>
  The prelude of the development: results with an error (\<open>'e + 'a\<close>, the Go pair
  \<open>(value, err)\<close> of which callers use the value only when \<open>err == nil\<close>), 64-bit
  wrap-around for Go's \<^verbatim>\<open>int64\<close>, \<^verbatim>\<open>int\<close> and \<^verbatim>\<open>time.Duration\<close> arithmetic, and the collections of
  facts that the component theories extend: \<open>wallet_defs\<close> for definitions unfolded together and
  \<open>frame_simps\<close> for what an operation leaves unchanged.
\<close>

named_theorems wallet_defs \<open>definitions of operations unfolded together\<close>
named_theorems frame_simps \<open>what an operation leaves unchanged\<close>

section \<open>Results with an error\<close>

definition is_err :: "'e + 'a \<Rightarrow> bool" where
  "is_err r = (case r of Inl _ \<Rightarrow> True | Inr _ \<Rightarrow> False)"

lemma is_err_simps [simp]: "is_err (Inl e)" "\<not> is_err (Inr a)"
  by (simp_all add: is_err_def)

lemma is_err_iff: "is_err r \<longleftrightarrow> (\<exists>e. r = Inl e)"
  by (cases r) simp_all

text \<open>What a call that may panic gives.\<close>

datatype 'a go_result = Done 'a | Panic

section \<open>Go's signed 64-bit arithmetic\<close>

text \<open>Go integers wrap around in two's complement; the value is kept as an \<open>int\<close>.\<close>

definition wrap64 :: "int \<Rightarrow> int" where
  "wrap64 x = (x + 2 ^ 63) mod 2 ^ 64 - 2 ^ 63"

definition wrap32u :: "int \<Rightarrow> int" where
  "wrap32u x = x mod 2 ^ 32"

definition in_int64 :: "int \<Rightarrow> bool" where
  "in_int64 x \<longleftrightarrow> - (2 ^ 63) \<le> x \<and> x < 2 ^ 63"

lemma wrap64_id [simp]: "in_int64 x \<Longrightarrow> wrap64 x = x"
  by (simp add: wrap64_def in_int64_def)

lemma wrap64_range [simp]: "in_int64 (wrap64 x)"
proof -
  have "0 \<le> (x + 2 ^ 63) mod (2 ^ 64 :: int)" "(x + 2 ^ 63) mod 2 ^ 64 < (2 ^ 64 :: int)"
    by simp_all
  then show ?thesis by (simp add: wrap64_def in_int64_def)
qed

lemma wrap64_wrap_mult: "wrap64 (wrap64 x * y) = wrap64 (x * y)"
proof -
  have "(((x + 2 ^ 63) mod 2 ^ 64 - 2 ^ 63) * y + 2 ^ 63) mod 2 ^ 64
      = (x * y + 2 ^ 63) mod (2 ^ 64 :: int)"
    by (metis (no_types, lifting) add_diff_cancel_right' mod_add_left_eq mod_diff_left_eq mod_mult_left_eq)
  then show ?thesis by (simp add: wrap64_def)
qed

lemma wrap64_wrap_add: "wrap64 (wrap64 x + y) = wrap64 (x + y)"
proof -
  have "wrap64 x + y + 2 ^ 63 = (x + 2 ^ 63) mod 2 ^ 64 + y" by (simp add: wrap64_def)
  then have "(wrap64 x + y + 2 ^ 63) mod 2 ^ 64 = (x + 2 ^ 63 + y) mod 2 ^ 64" by (simp only: mod_add_left_eq)
  moreover have "x + 2 ^ 63 + y = x + y + 2 ^ 63" by simp
  ultimately have "(wrap64 x + y + 2 ^ 63) mod 2 ^ 64 = (x + y + 2 ^ 63) mod 2 ^ 64" by (simp only:)
  then show ?thesis unfolding wrap64_def [of "wrap64 x + y"] wrap64_def [of "x + y"] by (simp only:)
qed

lemma wrap32u_id: "0 \<le> x \<Longrightarrow> x < 2 ^ 32 \<Longrightarrow> wrap32u x = x"
  by (simp add: wrap32u_def)

section \<open>Lists\<close>

lemma foldl_invariant:
  assumes "I a" and "\<And>a x. x \<in> set xs \<Longrightarrow> I a \<Longrightarrow> I (f a x)"
  shows "I (foldl f a xs)"
  using assms by (induction xs arbitrary: a) auto

text \<open>A left fold whose steps commute ignores the order of its list.\<close>

lemma foldl_step_front:
  assumes "\<And>a x y. f (f a x) y = f (f a y) x"
  shows "foldl f (f a x) xs = f (foldl f a xs) x"
  using assms by (induction xs arbitrary: a) auto

text \<open>Rows with distinct keys: looking a key up, and filling a map from them.\<close>

lemma find_distinct_key: "distinct (map k rs) \<Longrightarrow> r \<in> set rs \<Longrightarrow> find (\<lambda>x. k x = k r) rs = Some r"
  by (induction rs) auto

lemma foldl_upd_find:
  assumes "distinct (map k rs)"
  shows "foldl (\<lambda>m r. m(k r \<mapsto> v r)) m rs c =
    (case find (\<lambda>r. k r = c) rs of None \<Rightarrow> m c | Some r \<Rightarrow> Some (v r))"
  using assms
proof (induction rs arbitrary: m)
  case (Cons r rs)
  then have "k r = c \<Longrightarrow> find (\<lambda>r. k r = c) rs = None"
    by (metis (mono_tags, lifting) distinct.simps(2) find_None_iff image_eqI list.simps(9) set_map)
  with Cons show ?case by auto
qed simp

lemma find_filter: "find P (filter Q xs) = find (\<lambda>x. Q x \<and> P x) xs"
  by (induction xs) auto

lemma find_append: "find P (xs @ ys) = (case find P xs of None \<Rightarrow> find P ys | Some x \<Rightarrow> Some x)"
  by (induction xs) auto

end
