(* ===== verification/Go_Float.thy ===== *)
theory Go_Float
  imports Base "HOL-Library.Log_Nat"
begin

text \<open>
  Go's \<^verbatim>\<open>float64\<close>: not-a-number, the two infinities and the finite values, which carry the
  rational they stand for. Every result of an operation goes through \<open>round64\<close>, IEEE-754
  round-to-nearest, ties-to-even, with 53 significant bits, the smallest exponent -1074 and
  overflow to infinity, so the finite values that occur are the representable ones. The two
  zeros are one value: the code compares, multiplies and divides by 100, and none of that
  tells them apart. Comparisons with not-a-number are false.
\<close>

section \<open>Values and rounding\<close>

datatype float64 = FNaN | FInf bool | Fin rat

definition pow2 :: "int \<Rightarrow> rat" where
  "pow2 e = (if 0 \<le> e then 2 ^ nat e else 1 / 2 ^ nat (- e))"

definition round_even :: "rat \<Rightarrow> int" where
  "round_even x = (let f = \<lfloor>x\<rfloor>; d = x - of_int f in
     if d < 1 / 2 then f else if 1 / 2 < d then f + 1 else if even f then f else f + 1)"

text \<open>
  The exponent of a positive rational: the \<open>e\<close> with \<open>2^e \<le> x < 2^(e+1)\<close> (\<open>expo_bounds\<close>).
\<close>

definition expo :: "rat \<Rightarrow> int" where
  "expo x = (if 1 \<le> x then bitlen \<lfloor>x\<rfloor> - 1 else - bitlen (\<lceil>1 / x\<rceil> - 1))"

definition ulp_exp :: "rat \<Rightarrow> int" where
  "ulp_exp x = max (expo x - 52) (- 1074)"

definition round_pos :: "rat \<Rightarrow> rat" where
  "round_pos x = of_int (round_even (x / pow2 (ulp_exp x))) * pow2 (ulp_exp x)"

definition round64 :: "rat \<Rightarrow> float64" where
  "round64 x = (if x = 0 then Fin 0 else
     let r = round_pos \<bar>x\<bar> in
     if 2 ^ 1024 \<le> r then FInf (x < 0) else Fin (if x < 0 then - r else r))"

section \<open>The operations the services use\<close>

fun f_neg :: "float64 \<Rightarrow> bool" where
  "f_neg FNaN = False"
| "f_neg (FInf s) = s"
| "f_neg (Fin x) = (x < 0)"

fun f_mul :: "float64 \<Rightarrow> float64 \<Rightarrow> float64" where
  "f_mul FNaN _ = FNaN"
| "f_mul _ FNaN = FNaN"
| "f_mul (Fin x) (Fin y) = round64 (x * y)"
| "f_mul (Fin x) (FInf s) = (if x = 0 then FNaN else FInf (s \<noteq> (x < 0)))"
| "f_mul (FInf s) (Fin y) = (if y = 0 then FNaN else FInf (s \<noteq> (y < 0)))"
| "f_mul (FInf s) (FInf t) = FInf (s \<noteq> t)"

text \<open>Division by the literal \<open>100\<close>, the only divisor in the code.\<close>

fun f_div100 :: "float64 \<Rightarrow> float64" where
  "f_div100 (Fin x) = round64 (x / 100)"
| "f_div100 y = y"

definition round_half_away :: "rat \<Rightarrow> int" where
  "round_half_away x = (if x < 0 then - \<lfloor>- x + 1 / 2\<rfloor> else \<lfloor>x + 1 / 2\<rfloor>)"

text \<open>\<^verbatim>\<open>math.Round\<close>: to the nearest integer, half away from zero; exact on finite values.\<close>

fun f_round :: "float64 \<Rightarrow> float64" where
  "f_round (Fin x) = Fin (of_int (round_half_away x))"
| "f_round y = y"

fun f_le :: "float64 \<Rightarrow> float64 \<Rightarrow> bool" where
  "f_le FNaN _ = False"
| "f_le _ FNaN = False"
| "f_le (FInf s) (FInf t) = (s \<or> \<not> t)"
| "f_le (FInf s) (Fin _) = s"
| "f_le (Fin _) (FInf t) = (\<not> t)"
| "f_le (Fin x) (Fin y) = (x \<le> y)"

fun f_lt :: "float64 \<Rightarrow> float64 \<Rightarrow> bool" where
  "f_lt FNaN _ = False"
| "f_lt _ FNaN = False"
| "f_lt (FInf s) (FInf t) = (s \<and> \<not> t)"
| "f_lt (FInf s) (Fin _) = s"
| "f_lt (Fin _) (FInf t) = (\<not> t)"
| "f_lt (Fin x) (Fin y) = (x < y)"

section \<open>Rounding keeps the sign and the order of magnitude\<close>

lemma pow2_pos [simp]: "0 < pow2 e"
  by (simp add: pow2_def)

lemma pow2_neq_0 [simp]: "pow2 e \<noteq> 0"
  using pow2_pos [of e] by (metis less_irrefl)

lemma pow2_abs [simp]: "\<bar>pow2 e\<bar> = pow2 e"
  by (simp add: less_imp_le)

lemma pow2_le_1: "e \<le> 0 \<Longrightarrow> pow2 e = 1 / 2 ^ nat (- e)"
  by (cases "e = 0") (auto simp: pow2_def)

lemma pow2_add1: "pow2 (e + 1) = 2 * pow2 e"
proof (cases "0 \<le> e")
  case True
  then show ?thesis by (simp add: pow2_def nat_add_distrib)
next
  case False
  then have "nat (- e) = Suc (nat (- (e + 1)))" by simp
  with False show ?thesis by (simp add: pow2_le_1)
qed

lemma bitlen_rat_bounds:
  assumes "1 \<le> n"
  shows "(2 :: rat) ^ nat (bitlen n - 1) \<le> of_int n" "of_int n + 1 \<le> (2 :: rat) ^ nat (bitlen n)"
    and "1 \<le> bitlen n"
proof -
  have b: "2 ^ nat (bitlen n - 1) \<le> n" "n + 1 \<le> 2 ^ nat (bitlen n)"
    using bitlen_bounds [of n] assms by auto
  show "(2 :: rat) ^ nat (bitlen n - 1) \<le> of_int n"
    using b(1) of_int_le_iff [of "2 ^ nat (bitlen n - 1)" n, where ?'a = rat] by simp
  show "of_int n + 1 \<le> (2 :: rat) ^ nat (bitlen n)"
    using b(2) of_int_le_iff [of "n + 1" "2 ^ nat (bitlen n)", where ?'a = rat] by simp
  show "1 \<le> bitlen n" using assms by (simp add: bitlen_alt_def)
qed

lemma expo_bounds:
  assumes "0 < x"
  shows "pow2 (expo x) \<le> x \<and> x < pow2 (expo x + 1)"
proof (cases "1 \<le> x")
  case True
  define n where "n = \<lfloor>x\<rfloor>"
  have n: "1 \<le> n" "of_int n \<le> x" "x < of_int n + 1"
    using True unfolding n_def by (simp_all add: le_floor_iff) linarith
  note b = bitlen_rat_bounds [OF n(1)]
  from b(1) n(2) have "2 ^ nat (bitlen n - 1) \<le> x" by (rule order_trans)
  moreover from n(3) b(2) have "x < 2 ^ nat (bitlen n)" by (rule less_le_trans)
  moreover have "expo x = bitlen n - 1" using True by (simp add: expo_def n_def)
  ultimately show ?thesis using b(3) by (simp add: pow2_def)
next
  case False
  define n where "n = \<lceil>1 / x\<rceil> - 1"
  have "1 < 1 / x" using False assms by simp
  then have "1 < \<lceil>1 / x\<rceil>" by (simp add: less_ceiling_iff)
  then have n1: "1 \<le> n" by (simp add: n_def)
  have n: "of_int n < 1 / x" "1 / x \<le> of_int n + 1"
    unfolding n_def using ceiling_correct [of "1 / x"] by simp_all
  note b = bitlen_rat_bounds [OF n1]
  from b(1) n(1) have "2 ^ nat (bitlen n - 1) < 1 / x" by (rule le_less_trans)
  moreover from n(2) b(2) have "1 / x \<le> 2 ^ nat (bitlen n)" by (rule order_trans)
  ultimately have "1 / 2 ^ nat (bitlen n) \<le> x" "x < 1 / 2 ^ nat (bitlen n - 1)"
    using assms by (simp_all add: field_simps)
  moreover have "expo x = - bitlen n" using False by (simp add: expo_def n_def)
  ultimately show ?thesis using b(3) by (simp add: pow2_le_1)
qed

lemma round_even_close: "\<bar>of_int (round_even x) - x\<bar> \<le> 1 / 2"
proof -
  have "of_int \<lfloor>x\<rfloor> \<le> x" "x < of_int \<lfloor>x\<rfloor> + 1" by linarith+
  then show ?thesis
    by (auto simp: round_even_def Let_def abs_le_iff)
qed

lemma round_even_nonneg: "0 \<le> x \<Longrightarrow> 0 \<le> round_even x"
  by (auto simp: round_even_def Let_def)

lemma round_even_of_int [simp]: "round_even (of_int k) = k"
  by (simp add: round_even_def)

lemma round_pos_nonneg: "0 \<le> x \<Longrightarrow> 0 \<le> round_pos x"
  by (simp add: round_pos_def round_even_nonneg less_imp_le)

lemma round64_0 [simp]: "round64 0 = Fin 0"
  by (simp add: round64_def)

lemma round64_nonneg: "0 \<le> x \<Longrightarrow> \<not> f_neg (round64 x)"
  using round_pos_nonneg [of x] by (simp add: round64_def Let_def)

lemma round64_not_nan [simp]: "round64 x \<noteq> FNaN"
  by (simp add: round64_def Let_def)

lemma round_half_away_nonneg: "0 \<le> x \<Longrightarrow> 0 \<le> round_half_away x"
  by (simp add: round_half_away_def)

lemma round_half_away_of_int [simp]: "round_half_away (of_int k) = k"
proof (cases "k < 0")
  case True
  have "\<lfloor>of_int (- k) + (1 / 2 :: rat)\<rfloor> = - k" by linarith
  with True show ?thesis by (simp add: round_half_away_def)
next
  case False
  have "\<lfloor>of_int k + (1 / 2 :: rat)\<rfloor> = k" by linarith
  with False show ?thesis by (simp add: round_half_away_def)
qed

lemma round_half_away_close: "\<bar>of_int (round_half_away x) - x\<bar> \<le> 1 / 2"
proof (cases "x < 0")
  case True
  then have eq: "round_half_away x = - \<lfloor>1 / 2 - x\<rfloor>" by (simp add: round_half_away_def)
  have "of_int \<lfloor>1 / 2 - x\<rfloor> \<le> 1 / 2 - x" "1 / 2 - x < of_int \<lfloor>1 / 2 - x\<rfloor> + 1"
    by linarith+
  then show ?thesis unfolding eq of_int_minus abs_le_iff by linarith
next
  case False
  then have eq: "round_half_away x = \<lfloor>x + 1 / 2\<rfloor>" by (simp add: round_half_away_def)
  have "of_int \<lfloor>x + 1 / 2\<rfloor> \<le> x + 1 / 2" "x + 1 / 2 < of_int \<lfloor>x + 1 / 2\<rfloor> + 1"
    by linarith+
  then show ?thesis unfolding eq abs_le_iff by linarith
qed

lemma round_half_away_mono: "x \<le> y \<Longrightarrow> round_half_away x \<le> round_half_away y"
proof -
  assume le: "x \<le> y"
  consider "x < 0" "y < 0" | "x < 0" "0 \<le> y" | "0 \<le> x" "0 \<le> y"
    using le by linarith
  then show ?thesis
  proof cases
    case 1
    with le have "\<lfloor>- y + 1 / 2\<rfloor> \<le> \<lfloor>- x + 1 / 2\<rfloor>" by (intro floor_mono) simp
    with 1 show ?thesis by (simp add: round_half_away_def)
  next
    case 2
    then have "0 \<le> round_half_away y" by (intro round_half_away_nonneg)
    moreover have "0 \<le> \<lfloor>1 / 2 - x\<rfloor>" using 2 by simp
    then have "round_half_away x \<le> 0" using 2 by (simp add: round_half_away_def)
    ultimately show ?thesis by linarith
  next
    case 3
    with le have "\<lfloor>x + 1 / 2\<rfloor> \<le> \<lfloor>y + 1 / 2\<rfloor>" by (intro floor_mono) simp
    with 3 show ?thesis by (simp add: round_half_away_def)
  qed
qed

lemma f_round_nonneg: "\<not> f_neg x \<Longrightarrow> \<not> f_neg (f_round x)"
  by (cases x) (auto simp: round_half_away_nonneg not_less)

lemma f_mul_nonneg: "\<not> f_neg x \<Longrightarrow> \<not> f_neg y \<Longrightarrow> \<not> f_neg (f_mul x y)"
  by (cases x; cases y) (auto simp: round64_nonneg not_less)

lemma f_div100_nonneg: "\<not> f_neg x \<Longrightarrow> \<not> f_neg (f_div100 x)"
  by (cases x) (auto simp: round64_nonneg not_less)

section \<open>How far rounding moves a value\<close>

lemma round_pos_ulp: "\<bar>round_pos x - x\<bar> \<le> pow2 (ulp_exp x) / 2"
proof -
  let ?u = "pow2 (ulp_exp x)"
  have "round_pos x - x = (of_int (round_even (x / ?u)) - x / ?u) * ?u"
    using pow2_pos [of "ulp_exp x"] by (simp add: round_pos_def left_diff_distrib)
  then have "\<bar>round_pos x - x\<bar> = \<bar>of_int (round_even (x / ?u)) - x / ?u\<bar> * ?u"
    using pow2_pos [of "ulp_exp x"] by (simp add: abs_mult)
  also have "\<dots> \<le> 1 / 2 * ?u"
    by (intro mult_right_mono round_even_close) (simp add: less_imp_le)
  finally show ?thesis by simp
qed

text \<open>A value on the grid of its own exponent is representable, so rounding leaves it.\<close>

lemma round_pos_exact: "x = of_int k * pow2 (ulp_exp x) \<Longrightarrow> round_pos x = x"
  by (metis nonzero_mult_div_cancel_right pow2_neq_0 round_even_of_int round_pos_def)

section \<open>Evaluating rounding on literals\<close>

lemma floorlog2_step: "floorlog 2 n = (if 0 < n then Suc (floorlog 2 (n div 2)) else 0)"
  using compute_floorlog [of 2 n] by simp

lemma floor_numeral_div:
  "\<lfloor>numeral a / numeral b :: rat\<rfloor> = numeral a div numeral b"
  "\<lfloor>1 / numeral b :: rat\<rfloor> = 1 div numeral b"
  "\<lfloor>- (numeral a / numeral b) :: rat\<rfloor> = (- numeral a) div numeral b"
  using floor_divide_of_int_eq [of "numeral a" "numeral b", where ?'a = rat]
    floor_divide_of_int_eq [of 1 "numeral b", where ?'a = rat]
    floor_divide_of_int_eq [of "- numeral a" "numeral b", where ?'a = rat]
  by simp_all

lemmas float_eval = round64_def round_pos_def ulp_exp_def expo_def bitlen_def floorlog2_step
  pow2_def round_even_def round_half_away_def Let_def floor_numeral_div ceiling_def

end
