(* ===== verification/Go_Json.thy ===== *)
theory Go_Json
  imports Go_Float Go_Text
begin

text \<open>
  Request bodies and \<^verbatim>\<open>encoding/json\<close>. A body is the JSON value its first bytes parse to, or
  \<open>None\<close> where they do not parse; \<^verbatim>\<open>Decoder.Decode\<close> reads that one value only. What the
  handlers rely on is the mapping of a JSON value to a Go struct, modelled here: members are
  stored in their order (so a repeated member wins), a member name matches a field exactly or
  else up to (ASCII) case, a \<open>null\<close> leaves its field, a value of another kind is an error, and a
  member without a field is an error exactly where \<^verbatim>\<open>DisallowUnknownFields\<close> was called. A number
  literal keeps whether it has a fraction or an exponent: integer fields refuse those.
\<close>

datatype json =
    JNull
  | JBool bool
  | JInt int
  | JDec rat
  | JStr string
  | JArr "json list"
  | JObj "(string \<times> json) list"

section \<open>Scalars\<close>

text \<open>The decoders return \<open>None\<close> for the error; the field's old value is their first argument.\<close>

fun dec_float :: "float64 \<Rightarrow> json \<Rightarrow> float64 option" where
  "dec_float old JNull = Some old"
| "dec_float old (JInt i) = (case round64 (of_int i) of Fin x \<Rightarrow> Some (Fin x) | _ \<Rightarrow> None)"
| "dec_float old (JDec r) = (case round64 r of Fin x \<Rightarrow> Some (Fin x) | _ \<Rightarrow> None)"
| "dec_float old _ = None"

fun dec_string :: "string \<Rightarrow> json \<Rightarrow> string option" where
  "dec_string old JNull = Some old"
| "dec_string old (JStr s) = Some s"
| "dec_string old _ = None"

fun dec_int64 :: "int \<Rightarrow> json \<Rightarrow> int option" where
  "dec_int64 old JNull = Some old"
| "dec_int64 old (JInt i) = (if in_int64 i then Some i else None)"
| "dec_int64 old _ = None"

fun dec_bool :: "bool \<Rightarrow> json \<Rightarrow> bool option" where
  "dec_bool old JNull = Some old"
| "dec_bool old (JBool b) = Some b"
| "dec_bool old _ = None"

section \<open>Structs\<close>

type_synonym 'r field = "string \<times> ('r \<Rightarrow> json \<Rightarrow> 'r option)"

definition to_lower :: "char \<Rightarrow> char" where
  "to_lower c = (let n = of_char c :: nat in if 65 \<le> n \<and> n \<le> 90 then char_of (n + 32) else c)"

fun find_exact :: "'r field list \<Rightarrow> string \<Rightarrow> 'r field option" where
  "find_exact [] k = None"
| "find_exact (f # fs) k = (if fst f = k then Some f else find_exact fs k)"

fun find_fold :: "'r field list \<Rightarrow> string \<Rightarrow> 'r field option" where
  "find_fold [] k = None"
| "find_fold (f # fs) k =
     (if map to_lower (fst f) = map to_lower k then Some f else find_fold fs k)"

definition find_field :: "'r field list \<Rightarrow> string \<Rightarrow> 'r field option" where
  "find_field fs k = (case find_exact fs k of Some f \<Rightarrow> Some f | None \<Rightarrow> find_fold fs k)"

fun dec_members :: "bool \<Rightarrow> 'r field list \<Rightarrow> 'r \<Rightarrow> (string \<times> json) list \<Rightarrow> 'r option" where
  "dec_members strict fs r [] = Some r"
| "dec_members strict fs r ((k, v) # ms) =
     (case find_field fs k of
        None \<Rightarrow> if strict then None else dec_members strict fs r ms
      | Some (_, put) \<Rightarrow>
          (case put r v of None \<Rightarrow> None | Some r' \<Rightarrow> dec_members strict fs r' ms))"

text \<open>Decoding into a struct whose fields hold their zero values \<open>z\<close>.\<close>

fun dec_struct :: "bool \<Rightarrow> 'r field list \<Rightarrow> 'r \<Rightarrow> json \<Rightarrow> 'r option" where
  "dec_struct strict fs z JNull = Some z"
| "dec_struct strict fs z (JObj ms) = dec_members strict fs z ms"
| "dec_struct strict fs z _ = None"

definition decode_body :: "bool \<Rightarrow> 'r field list \<Rightarrow> 'r \<Rightarrow> json option \<Rightarrow> 'r option" where
  "decode_body strict fs z body = (case body of None \<Rightarrow> None | Some j \<Rightarrow> dec_struct strict fs z j)"

lemma dec_float_Fin: "dec_float (Fin y) j = Some v \<Longrightarrow> \<exists>x. v = Fin x"
  by (cases j) (auto split: float64.splits, metis+)

text \<open>What holds of the zero value and is kept by every field's decoder holds of the result.\<close>

lemma find_field_in: "find_field fs k = Some f \<Longrightarrow> f \<in> set fs"
proof -
  have "find_exact fs k = Some f \<Longrightarrow> f \<in> set fs" by (induction fs) (auto split: if_splits)
  moreover have "find_fold fs k = Some f \<Longrightarrow> f \<in> set fs" by (induction fs) (auto split: if_splits)
  ultimately show "find_field fs k = Some f \<Longrightarrow> f \<in> set fs"
    by (auto simp: find_field_def split: option.splits)
qed

lemma dec_members_invariant:
  assumes "I r" and "\<And>n put r v r'. (n, put) \<in> List.set fs \<Longrightarrow> I r \<Longrightarrow> put r v = Some r' \<Longrightarrow> I r'"
    and "dec_members strict fs r ms = Some r'"
  shows "I r'"
  using assms(1,3)
proof (induction ms arbitrary: r)
  case (Cons m ms)
  obtain k v where m: "m = (k, v)" by fastforce
  show ?case
  proof (cases "find_field fs k")
    case None
    with Cons m show ?thesis by (auto split: if_splits)
  next
    case (Some f)
    obtain n put where f: "f = (n, put)" by fastforce
    with Cons.prems m Some obtain r1 where r1: "put r v = Some r1" "dec_members strict fs r1 ms = Some r'"
      by (auto split: option.splits)
    have "I r1" using assms(2) find_field_in [OF Some] f Cons.prems(1) r1(1) by blast
    then show ?thesis using Cons.IH r1(2) by blast
  qed
qed simp

lemma decode_body_invariant:
  assumes "I z" and "\<And>n put r v r'. (n, put) \<in> List.set fs \<Longrightarrow> I r \<Longrightarrow> put r v = Some r' \<Longrightarrow> I r'"
    and "decode_body strict fs z body = Some r"
  shows "I r"
proof -
  obtain j where j: "dec_struct strict fs z j = Some r"
    using assms(3) by (auto simp: decode_body_def split: option.splits)
  show ?thesis
  proof (cases j)
    case (JObj ms)
    with j have "dec_members strict fs z ms = Some r" by simp
    with assms(1,2) show ?thesis by (rule dec_members_invariant [where I = I])
  qed (use j assms(1) in simp_all)
qed

end
