(* ===== verification/Http.thy ===== *)
theory Http
  imports Go_Json
begin

text \<open>
  Requests and responses of \<^verbatim>\<open>net/http\<close> as the handlers see them: the method, the path, the
  \<open>Authorization\<close> header (empty when absent), the body as JSON, and the request context's value
  under \<open>user_id\<close>. A response is its status and its JSON body.
\<close>

datatype ctx_value = CtxInt64 int | CtxOther

record http_request =
  req_method :: string
  req_path :: string
  req_auth :: string
  req_body :: "json option"
  req_ctx_user :: "ctx_value option"

datatype resp_body =
    NoBody
  | ErrorBody string
  | MessageBody string
  | TokenBody string
  | LegacyBalanceBody string int
  | BalancesBody "string \<rightharpoonup> float64"
  | AmountBody string float64
  | RatesBody "string \<rightharpoonup> float64" string
  | ExchangeBody string float64 float64 "string \<rightharpoonup> float64" string
  | HealthBody string string string string

record http_response =
  status :: nat
  body :: resp_body

abbreviation status_only :: "nat \<Rightarrow> http_response" where
  "status_only n \<equiv> \<lparr>status = n, body = NoBody\<rparr>"

definition write_json :: "nat \<Rightarrow> resp_body \<Rightarrow> http_response" where
  "write_json n b = \<lparr>status = n, body = b\<rparr>"

definition write_error :: "nat \<Rightarrow> string \<Rightarrow> http_response" where
  "write_error n msg = write_json n (ErrorBody msg)"

lemma write_error_sel [simp]:
  "status (write_json n b) = n" "body (write_json n b) = b"
  "status (write_error n m) = n" "body (write_error n m) = ErrorBody m"
  by (simp_all add: write_json_def write_error_def)

end
