(* ===== verification/Auth.thy ===== *)
theory Auth
  imports Http
begin

text \<open>
  \<^verbatim>\<open>internal/auth\<close> and \<^verbatim>\<open>internal/http/middleware\<close>: password hashing, tokens and the middleware.
  The bcrypt and JWT packages are parameters: \<open>bcrypt\<close> holds \<^verbatim>\<open>GenerateFromPassword\<close> (hash of a
  password at a cost, or its error) and \<^verbatim>\<open>CompareHashAndPassword\<close>; \<open>jwt_lib\<close> holds \<^verbatim>\<open>SignedString\<close>
  and \<^verbatim>\<open>ParseWithClaims\<close>, which receives the key function as the code passes it and the time.
  What the code relies on is stated by \<open>bcrypt_ok\<close> and \<open>jwt_ok\<close>.
\<close>

section \<open>auth/hash.go\<close>

record bcrypt =
  gen_password :: "string \<Rightarrow> nat \<Rightarrow> string option"
  compare_password :: "string \<Rightarrow> string \<Rightarrow> bool"

definition bcryptCost :: nat where "bcryptCost = 12"

definition HashPassword :: "bcrypt \<Rightarrow> string \<Rightarrow> string option" where
  "HashPassword bc password = gen_password bc password bcryptCost"

definition CheckPassword :: "bcrypt \<Rightarrow> string \<Rightarrow> string \<Rightarrow> bool" where
  "CheckPassword bc password hash = compare_password bc hash password"

text \<open>A generated hash matches its own password (documented behaviour of bcrypt).\<close>

definition bcrypt_ok :: "bcrypt \<Rightarrow> bool" where
  "bcrypt_ok bc \<longleftrightarrow> (\<forall>p c h. gen_password bc p c = Some h \<longrightarrow> compare_password bc h p)"

section \<open>auth/jwt.go\<close>

definition defaultExpire :: int where "defaultExpire = 24 * 3600 * ns_per_s"

record claims =
  expires_at :: int
  issued_at :: int
  claim_user :: int

datatype jwt_method = HS256 | OtherHMAC | OtherMethod string

record jwt_token =
  tok_method :: jwt_method
  tok_claims :: claims
  tok_valid :: bool

datatype jwt_error = UnexpectedMethod | InvalidToken | ParseError string

record jwt_lib =
  signed_string :: "jwt_method \<Rightarrow> claims \<Rightarrow> string \<Rightarrow> string option"
  parse_with_claims :: "int \<Rightarrow> string \<Rightarrow> (jwt_token \<Rightarrow> jwt_error + string) \<Rightarrow> jwt_error + jwt_token"

text \<open>\<^verbatim>\<open>jwt.NewNumericDate\<close> truncates to whole seconds.\<close>

definition numeric_date :: "int \<Rightarrow> int" where
  "numeric_date t = t div ns_per_s * ns_per_s"

text \<open>The clock is read twice: for the expiry and for the time of issue.\<close>

definition NewToken :: "jwt_lib \<Rightarrow> int \<Rightarrow> int \<Rightarrow> string \<Rightarrow> int \<Rightarrow> int \<Rightarrow> string option" where
  "NewToken jl now now' secret uid expire =
    (let expire' = (if expire = 0 then defaultExpire else expire)
     in signed_string jl HS256
          \<lparr>expires_at = numeric_date (now + expire'), issued_at = numeric_date now', claim_user = uid\<rparr> secret)"

definition is_hmac :: "jwt_method \<Rightarrow> bool" where
  "is_hmac m \<longleftrightarrow> (case m of OtherMethod _ \<Rightarrow> False | _ \<Rightarrow> True)"

definition key_func :: "string \<Rightarrow> jwt_token \<Rightarrow> jwt_error + string" where
  "key_func secret t = (if \<not> is_hmac (tok_method t) then Inl UnexpectedMethod else Inr secret)"

definition ValidateToken :: "jwt_lib \<Rightarrow> int \<Rightarrow> string \<Rightarrow> string \<Rightarrow> jwt_error + claims" where
  "ValidateToken jl now secret tok = (case parse_with_claims jl now tok (key_func secret) of
      Inl e \<Rightarrow> Inl e
    | Inr t \<Rightarrow> if \<not> tok_valid t then Inl InvalidToken else Inr (tok_claims t))"

text \<open>
  What the code relies on. A token signed with HS256 under a key parses, with its claims and
  valid, as long as the key function returns that key for it and it has not expired. A token
  that parses was accepted by the key function. A token that parses under a key carries claims
  that somebody signed under that key with the method of the token.
\<close>

definition jwt_roundtrip :: "jwt_lib \<Rightarrow> bool" where
  "jwt_roundtrip jl \<longleftrightarrow> (\<forall>c key s now kf.
     signed_string jl HS256 c key = Some s \<longrightarrow> now < expires_at c \<longrightarrow>
     kf \<lparr>tok_method = HS256, tok_claims = c, tok_valid = False\<rparr> = Inr key \<longrightarrow>
     parse_with_claims jl now s kf = Inr \<lparr>tok_method = HS256, tok_claims = c, tok_valid = True\<rparr>)"

definition jwt_sound :: "jwt_lib \<Rightarrow> bool" where
  "jwt_sound jl \<longleftrightarrow> (\<forall>now s kf t. parse_with_claims jl now s kf = Inr t \<longrightarrow>
     (\<exists>key. kf (t\<lparr>tok_valid := False\<rparr>) = Inr key \<and>
        signed_string jl (tok_method t) (tok_claims t) key = Some s) \<and> now < expires_at (tok_claims t))"

section \<open>http/middleware/auth.go\<close>

definition bearer :: string where "bearer = ''Bearer ''"

definition AuthMiddleware ::
  "jwt_lib \<Rightarrow> int \<Rightarrow> string \<Rightarrow> (http_request \<Rightarrow> 's \<Rightarrow> http_response \<times> 's) \<Rightarrow>
     http_request \<Rightarrow> 's \<Rightarrow> http_response \<times> 's" where
  "AuthMiddleware jl now secret next r s =
    (let ah = req_auth r in
     if ah = [] then (status_only 401, s)
     else if \<not> has_prefix ah bearer then (status_only 401, s)
     else (case ValidateToken jl now secret (trim_prefix ah bearer) of
        Inl _ \<Rightarrow> (status_only 401, s)
      | Inr c \<Rightarrow> next (r\<lparr>req_ctx_user := Some (CtxInt64 (claim_user c))\<rparr>) s))"

definition UserIDFromContext :: "http_request \<Rightarrow> int option" where
  "UserIDFromContext r = (case req_ctx_user r of
      None \<Rightarrow> None | Some (CtxInt64 i) \<Rightarrow> Some i | Some CtxOther \<Rightarrow> None)"

section \<open>What tokens guarantee\<close>

lemma NewToken_validates:
  assumes "jwt_roundtrip jl" and "NewToken jl t0 t1 secret uid 0 = Some tok"
    and "now < numeric_date (t0 + defaultExpire)"
  shows "ValidateToken jl now secret tok =
    Inr \<lparr>expires_at = numeric_date (t0 + defaultExpire), issued_at = numeric_date t1, claim_user = uid\<rparr>"
proof -
  let ?c = "\<lparr>expires_at = numeric_date (t0 + defaultExpire), issued_at = numeric_date t1, claim_user = uid\<rparr>"
  let ?t = "\<lparr>tok_method = HS256, tok_claims = ?c, tok_valid = False\<rparr>"
  have "signed_string jl HS256 ?c secret = Some tok"
    using assms(2) by (simp add: NewToken_def)
  moreover have "key_func secret ?t = Inr secret" by (simp add: key_func_def is_hmac_def)
  ultimately have "parse_with_claims jl now tok (key_func secret) = Inr (?t\<lparr>tok_valid := True\<rparr>)"
    using assms(1,3) unfolding jwt_roundtrip_def by simp
  then show ?thesis by (simp add: ValidateToken_def)
qed

lemma ValidateToken_sound:
  assumes "jwt_sound jl" and "ValidateToken jl now secret tok = Inr c"
  shows "\<exists>m. is_hmac m \<and> signed_string jl m c secret = Some tok \<and> now < expires_at c"
proof -
  obtain t where t: "parse_with_claims jl now tok (key_func secret) = Inr t" "c = tok_claims t"
    using assms(2) by (auto simp: ValidateToken_def split: sum.splits if_splits)
  then obtain key where "key_func secret (t\<lparr>tok_valid := False\<rparr>) = Inr key"
    "signed_string jl (tok_method t) (tok_claims t) key = Some tok" "now < expires_at (tok_claims t)"
    using assms(1) unfolding jwt_sound_def by blast
  then show ?thesis using t(2) by (auto simp: key_func_def split: if_splits)
qed

lemma bearer_neq_Nil [simp]: "bearer \<noteq> []"
  by (simp add: bearer_def)

lemma AuthMiddleware_cases:
  assumes "AuthMiddleware jl now secret next r s = out"
  obtains "out = (status_only 401, s)"
  | tok c where "req_auth r = bearer @ tok" "ValidateToken jl now secret tok = Inr c"
      "out = next (r\<lparr>req_ctx_user := Some (CtxInt64 (claim_user c))\<rparr>) s"
  using assms
  by (auto simp: AuthMiddleware_def Let_def has_prefix_iff split: if_splits sum.splits)

lemma AuthMiddleware_pass:
  assumes "req_auth r = bearer @ tok" and "ValidateToken jl now secret tok = Inr c"
  shows "AuthMiddleware jl now secret next r s =
    next (r\<lparr>req_ctx_user := Some (CtxInt64 (claim_user c))\<rparr>) s"
  using assms by (simp add: AuthMiddleware_def Let_def has_prefix_iff)

end
