(* ===== verification/Wallet_Db.thy ===== *)
theory Wallet_Db
  imports Base Go_Float
begin

text \<open>
  The wallet's PostgreSQL database: the tables that \<^verbatim>\<open>gw-currency-wallet/migrations\<close> creates, with
  their keys, checks and sequences, and one operation per SQL statement that the repositories
  send. A table is the list of its rows. \<open>numeric\<close> is the SQL type with its not-a-number and
  infinities; a value stored in a \<^verbatim>\<open>NUMERIC(18,2)\<close> column is rounded half away from zero to two
  decimals and refused (code 22003) at \<open>10^16\<close> and beyond. A statement runs against the database
  unless the next entry of \<open>faults\<close> makes it fail: \<open>FailBefore\<close> when the server never executed
  it, \<open>FailAfter\<close> when it did but the answer was lost. With \<open>faults = []\<close> nothing fails.
\<close>

section \<open>SQL numerics\<close>

datatype numeric = NumNaN | NumInf bool | Num rat

fun num_neg :: "numeric \<Rightarrow> numeric" where
  "num_neg NumNaN = NumNaN"
| "num_neg (NumInf s) = NumInf (\<not> s)"
| "num_neg (Num x) = Num (- x)"

fun num_add :: "numeric \<Rightarrow> numeric \<Rightarrow> numeric" where
  "num_add NumNaN _ = NumNaN"
| "num_add _ NumNaN = NumNaN"
| "num_add (NumInf s) (NumInf t) = (if s = t then NumInf s else NumNaN)"
| "num_add (NumInf s) (Num _) = NumInf s"
| "num_add (Num _) (NumInf t) = NumInf t"
| "num_add (Num x) (Num y) = Num (x + y)"

definition num_sub :: "numeric \<Rightarrow> numeric \<Rightarrow> numeric" where
  "num_sub x y = num_add x (num_neg y)"

text \<open>The total order of the server: not-a-number is above everything else.\<close>

fun num_le :: "numeric \<Rightarrow> numeric \<Rightarrow> bool" where
  "num_le _ NumNaN = True"
| "num_le NumNaN _ = False"
| "num_le (NumInf s) (NumInf t) = (s \<or> \<not> t)"
| "num_le (NumInf s) (Num _) = s"
| "num_le (Num _) (NumInf t) = (\<not> t)"
| "num_le (Num x) (Num y) = (x \<le> y)"

abbreviation num_nonneg :: "numeric \<Rightarrow> bool" where
  "num_nonneg x \<equiv> num_le (Num 0) x"

datatype pg_error = PgNoRows | PgCode string | PgConn

definition round2 :: "rat \<Rightarrow> rat" where
  "round2 x = of_int (round_half_away (x * 100)) / 100"

text \<open>Assignment to a \<^verbatim>\<open>NUMERIC(18,2)\<close> column.\<close>

fun cast_18_2 :: "numeric \<Rightarrow> pg_error + numeric" where
  "cast_18_2 NumNaN = Inr NumNaN"
| "cast_18_2 (NumInf _) = Inl (PgCode ''22003'')"
| "cast_18_2 (Num x) = (if \<bar>round2 x\<bar> < 10 ^ 16 then Inr (Num (round2 x)) else Inl (PgCode ''22003''))"

section \<open>Tables\<close>

record user_row =
  user_id :: int
  username :: string
  email :: string
  password_hash :: string

record wallet_row =
  wallet_id :: int
  wallet_user :: int

record balance_row =
  bal_wallet :: int
  bal_currency :: string
  bal_amount :: numeric

record legacy_row =
  legacy_id :: int
  legacy_balance :: int

datatype fault = NoFault | FailBefore | FailAfter

record db =
  users :: "user_row list"
  user_seq :: int
  wallets :: "wallet_row list"
  wallet_seq :: int
  balances :: "balance_row list"
  legacy :: "legacy_row list"
  faults :: "fault list"

definition empty_db :: db where
  "empty_db = \<lparr>users = [], user_seq = 1, wallets = [], wallet_seq = 1, balances = [],
     legacy = [], faults = []\<rparr>"

type_synonym 'a sql = "db \<Rightarrow> (pg_error + 'a) \<times> db"

definition run_stmt :: "'a sql \<Rightarrow> 'a sql" where
  "run_stmt st d = (case faults d of
      [] \<Rightarrow> st d
    | NoFault # fs \<Rightarrow> st (d\<lparr>faults := fs\<rparr>)
    | FailBefore # fs \<Rightarrow> (Inl PgConn, d\<lparr>faults := fs\<rparr>)
    | FailAfter # fs \<Rightarrow> (Inl PgConn, snd (st (d\<lparr>faults := fs\<rparr>))))"

section \<open>Statements\<close>

text \<open>The largest value of a \<^verbatim>\<open>BIGSERIAL\<close> sequence; taking a value is never rolled back.\<close>

definition max_bigint :: int where "max_bigint = 2 ^ 63 - 1"

definition insert_user :: "string \<Rightarrow> string \<Rightarrow> string \<Rightarrow> int sql" where
  "insert_user name mail hash d =
    (if max_bigint < user_seq d then (Inl (PgCode ''2200H''), d)
     else let i = user_seq d; d' = d\<lparr>user_seq := i + 1\<rparr>
       in if list_ex (\<lambda>u. username u = name \<or> email u = mail) (users d)
          then (Inl (PgCode ''23505''), d')
          else (Inr i, d'\<lparr>users := users d @
                 [\<lparr>user_id = i, username = name, email = mail, password_hash = hash\<rparr>]\<rparr>))"

definition select_user :: "string \<Rightarrow> user_row sql" where
  "select_user name d = (case find (\<lambda>u. username u = name) (users d) of
      None \<Rightarrow> (Inl PgNoRows, d) | Some u \<Rightarrow> (Inr u, d))"

definition insert_wallet :: "int \<Rightarrow> int sql" where
  "insert_wallet uid d =
    (if max_bigint < wallet_seq d then (Inl (PgCode ''2200H''), d)
     else let i = wallet_seq d; d' = d\<lparr>wallet_seq := i + 1\<rparr>
       in if list_ex (\<lambda>w. wallet_user w = uid) (wallets d) then (Inl (PgCode ''23505''), d')
          else if \<not> list_ex (\<lambda>u. user_id u = uid) (users d) then (Inl (PgCode ''23503''), d')
          else (Inr i, d'\<lparr>wallets := wallets d @ [\<lparr>wallet_id = i, wallet_user = uid\<rparr>]\<rparr>))"

definition select_wallet :: "int \<Rightarrow> int sql" where
  "select_wallet uid d = (case find (\<lambda>w. wallet_user w = uid) (wallets d) of
      None \<Rightarrow> (Inl PgNoRows, d) | Some w \<Rightarrow> (Inr (wallet_id w), d))"

text \<open>\<^verbatim>\<open>CONSTRAINT chk_currency\<close> of the table \<^verbatim>\<open>balances\<close>.\<close>

definition chk_currency :: "string \<Rightarrow> bool" where
  "chk_currency c \<longleftrightarrow> c \<in> {''USD'', ''RUB'', ''EUR''}"

definition bal_key :: "int \<Rightarrow> string \<Rightarrow> balance_row \<Rightarrow> bool" where
  "bal_key w c r \<longleftrightarrow> bal_wallet r = w \<and> bal_currency r = c"

definition insert_balance :: "int \<Rightarrow> string \<Rightarrow> unit sql" where
  "insert_balance wid c d =
    (if \<not> chk_currency c then (Inl (PgCode ''23514''), d)
     else if list_ex (bal_key wid c) (balances d) then (Inl (PgCode ''23505''), d)
     else if \<not> list_ex (\<lambda>w. wallet_id w = wid) (wallets d) then (Inl (PgCode ''23503''), d)
     else (Inr (), d\<lparr>balances := balances d @
            [\<lparr>bal_wallet = wid, bal_currency = c, bal_amount = Num 0\<rparr>]\<rparr>))"

definition select_balances :: "int \<Rightarrow> balance_row list sql" where
  "select_balances wid d = (Inr (filter (\<lambda>r. bal_wallet r = wid) (balances d)), d)"

text \<open>
  \<^verbatim>\<open>UPDATE balances SET amount = f(amount) WHERE \<dots> RETURNING amount\<close>: the new rows and the new
  amounts of the rows that matched; the first error undoes the whole statement.
\<close>

fun update_rows ::
  "(balance_row \<Rightarrow> bool) \<Rightarrow> (numeric \<Rightarrow> numeric) \<Rightarrow> balance_row list
    \<Rightarrow> pg_error + (balance_row list \<times> numeric list)" where
  "update_rows P f [] = Inr ([], [])"
| "update_rows P f (r # rs) = (case update_rows P f rs of
      Inl e \<Rightarrow> Inl e
    | Inr (rs', us) \<Rightarrow>
        if P r then (case cast_18_2 (f (bal_amount r)) of
            Inl e \<Rightarrow> Inl e
          | Inr a \<Rightarrow> Inr (r\<lparr>bal_amount := a\<rparr> # rs', a # us))
        else Inr (r # rs', us))"

definition update_balances ::
  "(balance_row \<Rightarrow> bool) \<Rightarrow> (numeric \<Rightarrow> numeric) \<Rightarrow> numeric list sql" where
  "update_balances P f d = (case update_rows P f (balances d) of
      Inl e \<Rightarrow> (Inl e, d)
    | Inr (rs, us) \<Rightarrow> (Inr us, d\<lparr>balances := rs\<rparr>))"

text \<open>The two guarded forms the repository uses.\<close>

definition credit_stmt :: "int \<Rightarrow> string \<Rightarrow> numeric \<Rightarrow> numeric list sql" where
  "credit_stmt w c x = update_balances (bal_key w c) (\<lambda>a. num_add a x)"

definition debit_stmt :: "int \<Rightarrow> string \<Rightarrow> numeric \<Rightarrow> numeric list sql" where
  "debit_stmt w c x =
     update_balances (\<lambda>r. bal_key w c r \<and> num_le x (bal_amount r)) (\<lambda>a. num_sub a x)"

text \<open>\<^verbatim>\<open>QueryRow(\<dots>).Scan\<close> of an \<^verbatim>\<open>UPDATE \<dots> RETURNING\<close>: the first row, or no rows.\<close>

definition first_row :: "'a list sql \<Rightarrow> 'a sql" where
  "first_row st d = (case st d of
      (Inl e, d') \<Rightarrow> (Inl e, d')
    | (Inr [], d') \<Rightarrow> (Inl PgNoRows, d')
    | (Inr (x # _), d') \<Rightarrow> (Inr x, d'))"

section \<open>Facts about numerics\<close>

lemma num_le_refl [simp]: "num_le x x"
  by (cases x) auto

lemma num_le_trans: "num_le x y \<Longrightarrow> num_le y z \<Longrightarrow> num_le x z"
  by (cases x; cases y; cases z) auto

lemma num_le_total: "num_le x y \<or> num_le y x"
  by (cases x; cases y) auto

lemma num_sub_nonneg: "num_le x a \<Longrightarrow> num_nonneg (num_sub a x)"
  by (cases x; cases a) (auto simp: num_sub_def)

lemma num_add_nonneg: "num_nonneg a \<Longrightarrow> num_nonneg x \<Longrightarrow> num_nonneg (num_add a x)"
  by (cases x; cases a) auto

lemma round2_nonneg: "0 \<le> x \<Longrightarrow> 0 \<le> round2 x"
  by (simp add: round2_def round_half_away_nonneg)

lemma round2_cents [simp]: "round2 (of_int k / 100) = of_int k / 100"
  by (simp add: round2_def)

lemma round2_0 [simp]: "round2 0 = 0"
  using round2_cents [of 0] by simp

lemma round2_idem [simp]: "round2 (round2 x) = round2 x"
  by (simp add: round2_def)

lemma round2_close: "\<bar>round2 x - x\<bar> \<le> 1 / 200"
proof -
  have "\<bar>round2 x - x\<bar> = \<bar>of_int (round_half_away (x * 100)) - x * 100\<bar> / 100"
    by (simp add: round2_def field_simps)
  also have "\<dots> \<le> (1 / 2) / 100"
    using round_half_away_close [of "x * 100"] by (rule divide_right_mono) simp
  finally show ?thesis by simp
qed

lemma cast_nonneg: "cast_18_2 x = Inr y \<Longrightarrow> num_nonneg x \<Longrightarrow> num_nonneg y"
  by (cases x) (auto simp: round2_nonneg split: if_splits)

text \<open>What the column can hold.\<close>

fun is_18_2 :: "numeric \<Rightarrow> bool" where
  "is_18_2 NumNaN = True"
| "is_18_2 (NumInf _) = False"
| "is_18_2 (Num x) = (round2 x = x \<and> \<bar>x\<bar> < 10 ^ 16)"

lemma cast_is_18_2: "cast_18_2 x = Inr y \<Longrightarrow> is_18_2 y"
  by (cases x) (auto split: if_splits)

lemma cast_id: "is_18_2 x \<Longrightarrow> cast_18_2 x = Inr x"
  by (cases x) auto

section \<open>Facts about updates\<close>

lemma update_rows_keys:
  "update_rows P f rs = Inr (rs', us) \<Longrightarrow>
     map bal_wallet rs' = map bal_wallet rs \<and> map bal_currency rs' = map bal_currency rs"
  by (induction rs arbitrary: rs' us) (auto split: sum.splits if_splits)

lemma update_rows_all:
  assumes step: "\<And>r a. P r \<Longrightarrow> Q (bal_amount r) \<Longrightarrow> cast_18_2 (f (bal_amount r)) = Inr a \<Longrightarrow> Q a"
    and upd: "update_rows P f rs = Inr (rs', us)" and all: "\<forall>r \<in> set rs. Q (bal_amount r)"
  shows "\<forall>r \<in> set rs'. Q (bal_amount r)"
  using upd all
proof (induction rs arbitrary: rs' us)
  case (Cons r rs)
  then show ?case
    using step [of r] by (auto split: sum.splits if_splits)
qed simp

lemma update_rows_none: "list_all (\<lambda>r. \<not> P r) rs \<Longrightarrow> update_rows P f rs = Inr (rs, [])"
  by (induction rs) auto

lemma update_rows_empty_iff:
  "update_rows P f rs = Inr (rs', us) \<Longrightarrow> us = [] \<longleftrightarrow> list_all (\<lambda>r. \<not> P r) rs"
  by (induction rs arbitrary: rs' us) (auto split: sum.splits if_splits)

lemma update_rows_nothing: "update_rows P f rs = Inr (rs', []) \<Longrightarrow> rs' = rs"
  by (induction rs arbitrary: rs') (auto split: sum.splits if_splits)

lemma update_rows_append:
  "update_rows P f (xs @ ys) = (case update_rows P f ys of Inl e \<Rightarrow> Inl e
     | Inr (ys', vs) \<Rightarrow> (case update_rows P f xs of Inl e \<Rightarrow> Inl e
         | Inr (xs', us) \<Rightarrow> Inr (xs' @ ys', us @ vs)))"
  by (induction xs) (auto split: sum.splits prod.splits)

lemma run_stmt_ok [simp]: "faults d = [] \<Longrightarrow> run_stmt st d = st d"
  by (simp add: run_stmt_def)

text \<open>
  A property of databases that does not look at \<open>faults\<close> and is kept by a statement is kept by
  its execution, whether it fails or not.
\<close>

lemma run_stmt_keeps:
  assumes "I d" and "\<And>d fs. I d \<Longrightarrow> I (d\<lparr>faults := fs\<rparr>)" and "\<And>d. I d \<Longrightarrow> I (snd (st d))"
  shows "I (snd (run_stmt st d))"
  using assms by (auto simp: run_stmt_def split: list.splits fault.splits)

lemma run_stmt_result:
  "run_stmt st d = (Inr x, d') \<Longrightarrow> \<exists>fs. st (d\<lparr>faults := fs\<rparr>) = (Inr x, d') \<and> set fs \<subseteq> set (faults d)"
  by (cases "faults d"; cases d) (auto simp: run_stmt_def split: fault.splits)

lemma first_row_snd [simp]: "snd (first_row st d) = snd (st d)"
  by (auto simp: first_row_def split: prod.splits sum.splits list.splits)

end
