(* ===== verification/Wallet_Repo.thy ===== *)
theory Wallet_Repo
  imports Wallet_Db
begin

text \<open>
  \<^verbatim>\<open>gw-currency-wallet/internal/repo_auth.go\<close>: the repository of users, wallets and
  multi-currency balances, one definition per method. The driver's conversions between
  \<^verbatim>\<open>float64\<close> and \<^verbatim>\<open>NUMERIC\<close> are a parameter (\<open>codec\<close>): \<open>enc\<close> for arguments, \<open>dec\<close> for scanned
  columns. The second half states what the methods promise: every method keeps the schema's
  invariant and, where credits are not negative, the sign of the balances (one locale,
  two interpretations), and the money operations are the operations of an abstract ledger.
\<close>

section \<open>Errors\<close>

text \<open>\<^verbatim>\<open>internal/errors.go\<close>; \<open>Wrapped\<close> is \<^verbatim>\<open>fmt.Errorf("\<dots>: %w", err)\<close>.\<close>

datatype repo_error =
    ErrNotFound
  | ErrInsufficientFunds
  | ErrInvalidOperation
  | ErrInvalidAmount
  | ErrUserExists
  | ErrAuthFailed
  | ErrInvalidCurrency
  | Wrapped string pg_error

fun err_text :: "repo_error \<Rightarrow> string" where
  "err_text ErrNotFound = ''wallet not found''"
| "err_text ErrInsufficientFunds = ''insufficient funds''"
| "err_text ErrInvalidOperation = ''invalid operation type''"
| "err_text ErrInvalidAmount = ''invalid amount''"
| "err_text ErrUserExists = ''username or email already taken''"
| "err_text ErrAuthFailed = ''invalid username or password''"
| "err_text ErrInvalidCurrency = ''invalid currency''"
| "err_text (Wrapped s e) = s"

type_synonym 'a repo = "db \<Rightarrow> (repo_error + 'a) \<times> db"

record codec =
  enc :: "float64 \<Rightarrow> numeric"
  dec :: "numeric \<Rightarrow> float64"

definition isUniqueViolation :: "pg_error \<Rightarrow> bool" where
  "isUniqueViolation e \<longleftrightarrow> (case e of PgCode c \<Rightarrow> c = ''23505'' | _ \<Rightarrow> False)"

section \<open>The methods of AuthRepo\<close>

definition supportedCurrencies :: "string list" where
  "supportedCurrencies = [''USD'', ''RUB'', ''EUR'']"

definition CreateUser :: "string \<Rightarrow> string \<Rightarrow> string \<Rightarrow> int repo" where
  "CreateUser name mail hash d = (case run_stmt (insert_user name mail hash) d of
      (Inl e, d') \<Rightarrow>
        (Inl (if isUniqueViolation e then ErrUserExists else Wrapped ''create user'' e), d')
    | (Inr i, d') \<Rightarrow> (Inr i, d'))"

definition GetUserByUsername :: "string \<Rightarrow> (int \<times> string \<times> string) repo" where
  "GetUserByUsername name d = (case run_stmt (select_user name) d of
      (Inl e, d') \<Rightarrow> (Inl (if e = PgNoRows then ErrAuthFailed else Wrapped ''get user'' e), d')
    | (Inr u, d') \<Rightarrow> (Inr (user_id u, email u, password_hash u), d'))"

definition CreateWalletForUser :: "int \<Rightarrow> int repo" where
  "CreateWalletForUser uid d = (case run_stmt (insert_wallet uid) d of
      (Inl e, d') \<Rightarrow> (Inl (Wrapped ''create wallet'' e), d')
    | (Inr i, d') \<Rightarrow> (Inr i, d'))"

fun create_balances :: "int \<Rightarrow> string list \<Rightarrow> unit repo" where
  "create_balances wid [] d = (Inr (), d)"
| "create_balances wid (c # cs) d = (case run_stmt (insert_balance wid c) d of
      (Inl e, d') \<Rightarrow> (Inl (Wrapped (''create balance '' @ c) e), d')
    | (Inr _, d') \<Rightarrow> create_balances wid cs d')"

definition CreateBalancesForWallet :: "int \<Rightarrow> unit repo" where
  "CreateBalancesForWallet wid d = create_balances wid supportedCurrencies d"

definition GetWalletIDByUserID :: "int \<Rightarrow> int repo" where
  "GetWalletIDByUserID uid d = (case run_stmt (select_wallet uid) d of
      (Inl e, d') \<Rightarrow> (Inl (if e = PgNoRows then ErrNotFound else Wrapped ''get wallet'' e), d')
    | (Inr w, d') \<Rightarrow> (Inr w, d'))"

definition zero_balances :: "string \<rightharpoonup> float64" where
  "zero_balances = foldl (\<lambda>m c. m(c \<mapsto> Fin 0)) Map.empty supportedCurrencies"

definition scan_balances :: "codec \<Rightarrow> balance_row list \<Rightarrow> (string \<rightharpoonup> float64)" where
  "scan_balances px rs =
     foldl (\<lambda>m r. m(bal_currency r \<mapsto> dec px (bal_amount r))) zero_balances rs"

definition GetBalances :: "codec \<Rightarrow> int \<Rightarrow> (string \<rightharpoonup> float64) repo" where
  "GetBalances px wid d = (case run_stmt (select_balances wid) d of
      (Inl e, d') \<Rightarrow> (Inl (Wrapped ''get balances'' e), d')
    | (Inr rs, d') \<Rightarrow> (Inr (scan_balances px rs), d'))"

definition Deposit :: "codec \<Rightarrow> int \<Rightarrow> string \<Rightarrow> float64 \<Rightarrow> float64 repo" where
  "Deposit px wid c amount d = (case run_stmt (first_row (credit_stmt wid c (enc px amount))) d of
      (Inl e, d') \<Rightarrow> (Inl (if e = PgNoRows then ErrNotFound else Wrapped ''deposit'' e), d')
    | (Inr a, d') \<Rightarrow> (Inr (dec px a), d'))"

definition Withdraw :: "codec \<Rightarrow> int \<Rightarrow> string \<Rightarrow> float64 \<Rightarrow> float64 repo" where
  "Withdraw px wid c amount d = (case run_stmt (first_row (debit_stmt wid c (enc px amount))) d of
      (Inl e, d') \<Rightarrow> (Inl (if e = PgNoRows then ErrInsufficientFunds else Wrapped ''withdraw'' e), d')
    | (Inr a, d') \<Rightarrow> (Inr (dec px a), d'))"

text \<open>
  Transactions: \<^verbatim>\<open>Begin\<close> and \<^verbatim>\<open>Commit\<close> are round trips that may fail; \<^verbatim>\<open>Rollback\<close>, deferred, undoes
  every table but neither the sequences nor the faults already met. It does nothing after a
  commit. The server undoes a transaction whose connection is lost, so only a commit whose
  answer is lost leaves the change behind an error.
\<close>

definition rollback :: "db \<Rightarrow> db \<Rightarrow> db" where
  "rollback d0 d = d0\<lparr>faults := faults d, user_seq := user_seq d, wallet_seq := wallet_seq d\<rparr>"

definition tx_begin :: "unit sql" where "tx_begin d = (Inr (), d)"

definition Exchange ::
  "codec \<Rightarrow> int \<Rightarrow> string \<Rightarrow> string \<Rightarrow> float64 \<Rightarrow> float64 \<Rightarrow> (string \<rightharpoonup> float64) repo" where
  "Exchange px wid cfrom cto debit credit d = (case run_stmt tx_begin d of
      (Inl e, d0) \<Rightarrow> (Inl (Wrapped ''begin tx'' e), d0)
    | (Inr _, d0) \<Rightarrow>
       (case run_stmt (debit_stmt wid cfrom (enc px debit)) d0 of
          (Inl e, d1) \<Rightarrow> (Inl (Wrapped ''exchange debit'' e), rollback d0 d1)
        | (Inr us, d1) \<Rightarrow>
           if us = [] then (Inl ErrInsufficientFunds, rollback d0 d1)
           else (case run_stmt (credit_stmt wid cto (enc px credit)) d1 of
              (Inl e, d2) \<Rightarrow> (Inl (Wrapped ''exchange credit'' e), rollback d0 d2)
            | (Inr _, d2) \<Rightarrow>
               (case faults d2 of
                  FailBefore # fs \<Rightarrow> (Inl (Wrapped ''commit'' PgConn), rollback d0 (d2\<lparr>faults := fs\<rparr>))
                | FailAfter # fs \<Rightarrow> (Inl (Wrapped ''commit'' PgConn), d2\<lparr>faults := fs\<rparr>)
                | NoFault # fs \<Rightarrow> GetBalances px wid (d2\<lparr>faults := fs\<rparr>)
                | [] \<Rightarrow> GetBalances px wid d2))))"

section \<open>Invariants, once for every statement\<close>

text \<open>
  The contract between the statements and the repository: a property \<open>I\<close> of databases that no
  statement breaks, where credits are restricted to \<open>creditable\<close> numbers.
\<close>

locale stmt_invariant =
  fixes I :: "db \<Rightarrow> bool" and creditable :: "numeric \<Rightarrow> bool"
  assumes faults_irrelevant: "I d \<Longrightarrow> I (d\<lparr>faults := fs\<rparr>)"
    and rollback_keeps: "I d0 \<Longrightarrow> user_seq d0 \<le> user_seq d \<Longrightarrow> wallet_seq d0 \<le> wallet_seq d \<Longrightarrow>
      I (rollback d0 d)"
    and insert_user_keeps: "I d \<Longrightarrow> I (snd (insert_user n m h d))"
    and insert_wallet_keeps: "I d \<Longrightarrow> I (snd (insert_wallet u d))"
    and insert_balance_keeps: "I d \<Longrightarrow> I (snd (insert_balance w c d))"
    and credit_keeps: "I d \<Longrightarrow> creditable x \<Longrightarrow> I (snd (credit_stmt w c x d))"
    and debit_keeps: "I d \<Longrightarrow> I (snd (debit_stmt w c x d))"
begin

lemma run_keeps: "I d \<Longrightarrow> (\<And>d. I d \<Longrightarrow> I (snd (st d))) \<Longrightarrow> I (snd (run_stmt st d))"
  by (rule run_stmt_keeps) (auto intro: faults_irrelevant)

lemma CreateUser_keeps: "I d \<Longrightarrow> I (snd (CreateUser n m h d))"
  using run_keeps [of d "insert_user n m h"] insert_user_keeps
  by (auto simp: CreateUser_def split: prod.splits sum.splits)

lemma GetUserByUsername_keeps: "I d \<Longrightarrow> I (snd (GetUserByUsername n d))"
  using run_keeps [of d "select_user n"]
  by (auto simp: GetUserByUsername_def select_user_def split: prod.splits sum.splits option.splits)

lemma CreateWalletForUser_keeps: "I d \<Longrightarrow> I (snd (CreateWalletForUser u d))"
  using run_keeps [of d "insert_wallet u"] insert_wallet_keeps
  by (auto simp: CreateWalletForUser_def split: prod.splits sum.splits)

lemma create_balances_keeps: "I d \<Longrightarrow> I (snd (create_balances w cs d))"
proof (induction cs arbitrary: d)
  case (Cons c cs)
  have "I (snd (run_stmt (insert_balance w c) d))"
    using run_keeps [OF Cons.prems insert_balance_keeps] .
  then show ?case using Cons.IH by (auto split: prod.splits sum.splits)
qed simp

lemma CreateBalances_keeps: "I d \<Longrightarrow> I (snd (CreateBalancesForWallet w d))"
  by (simp add: CreateBalancesForWallet_def create_balances_keeps)

lemma GetWalletID_keeps: "I d \<Longrightarrow> I (snd (GetWalletIDByUserID u d))"
  using run_keeps [of d "select_wallet u"]
  by (auto simp: GetWalletIDByUserID_def select_wallet_def split: prod.splits sum.splits option.splits)

lemma GetBalances_keeps: "I d \<Longrightarrow> I (snd (GetBalances px w d))"
  using run_keeps [of d "select_balances w"]
  by (auto simp: GetBalances_def select_balances_def split: prod.splits sum.splits)

lemma Deposit_keeps: "I d \<Longrightarrow> creditable (enc px x) \<Longrightarrow> I (snd (Deposit px w c x d))"
  using run_keeps [of d "first_row (credit_stmt w c (enc px x))"] credit_keeps
  by (auto simp: Deposit_def split: prod.splits sum.splits)

lemma Withdraw_keeps: "I d \<Longrightarrow> I (snd (Withdraw px w c x d))"
  using run_keeps [of d "first_row (debit_stmt w c (enc px x))"] debit_keeps
  by (auto simp: Withdraw_def split: prod.splits sum.splits)

end

lemma update_balances_seqs [simp]:
  "user_seq (snd (update_balances P f d)) = user_seq d"
  "wallet_seq (snd (update_balances P f d)) = wallet_seq d"
  by (auto simp: update_balances_def split: sum.splits)

lemma run_stmt_seqs:
  assumes "\<And>d. user_seq (snd (st d)) = user_seq d \<and> wallet_seq (snd (st d)) = wallet_seq d"
    and "run_stmt st d = (r, d')"
  shows "user_seq d' = user_seq d \<and> wallet_seq d' = wallet_seq d"
proof -
  have "user_seq (snd (run_stmt st d)) = user_seq d \<and> wallet_seq (snd (run_stmt st d)) = wallet_seq d"
    by (rule run_stmt_keeps [where I = "\<lambda>d'. user_seq d' = user_seq d \<and> wallet_seq d' = wallet_seq d"])
      (use assms(1) in simp_all)
  then show ?thesis using assms(2) by simp
qed

lemma update_stmt_seqs:
  "run_stmt (debit_stmt w c x) d = (r, d') \<Longrightarrow> user_seq d' = user_seq d \<and> wallet_seq d' = wallet_seq d"
  "run_stmt (credit_stmt w c x) d = (r, d') \<Longrightarrow> user_seq d' = user_seq d \<and> wallet_seq d' = wallet_seq d"
  by (rule run_stmt_seqs; simp add: debit_stmt_def credit_stmt_def)+

context stmt_invariant begin

lemma Exchange_keeps:
  assumes d: "I d" and x: "creditable (enc px credit)"
  shows "I (snd (Exchange px w cf ct debit credit d))"
proof -
  obtain r0 d0 where s0: "run_stmt tx_begin d = (r0, d0)" by fastforce
  have i0: "I d0"
    using run_keeps [OF d, of tx_begin] s0 by (simp add: tx_begin_def)
  obtain r1 d1 where s1: "run_stmt (debit_stmt w cf (enc px debit)) d0 = (r1, d1)" by fastforce
  have i1: "I d1" using run_keeps [OF i0, of "debit_stmt w cf (enc px debit)"] debit_keeps s1 by simp
  note q1 = update_stmt_seqs(1) [OF s1]
  obtain r2 d2 where s2: "run_stmt (credit_stmt w ct (enc px credit)) d1 = (r2, d2)" by fastforce
  have i2: "I d2" using run_keeps [OF i1, of "credit_stmt w ct (enc px credit)"] credit_keeps [OF _ x] s2 by simp
  note q2 = update_stmt_seqs(2) [OF s2]
  show ?thesis
    using i0 i1 i2 q1 q2
    by (auto simp: Exchange_def s0 s1 s2 intro!: rollback_keeps GetBalances_keeps faults_irrelevant
        split: sum.splits list.splits fault.splits)
qed

end

section \<open>The schema's invariant\<close>

definition users_ok :: "db \<Rightarrow> bool" where
  "users_ok d \<longleftrightarrow> distinct (map user_id (users d)) \<and> distinct (map username (users d)) \<and>
     distinct (map email (users d)) \<and> (\<forall>u \<in> set (users d). user_id u < user_seq d)"

definition wallets_ok :: "db \<Rightarrow> bool" where
  "wallets_ok d \<longleftrightarrow> distinct (map wallet_id (wallets d)) \<and> distinct (map wallet_user (wallets d)) \<and>
     (\<forall>w \<in> set (wallets d). wallet_id w < wallet_seq d \<and> wallet_user w \<in> user_id ` set (users d))"

definition balances_ok :: "db \<Rightarrow> bool" where
  "balances_ok d \<longleftrightarrow> distinct (map (\<lambda>r. (bal_wallet r, bal_currency r)) (balances d)) \<and>
     (\<forall>r \<in> set (balances d). chk_currency (bal_currency r) \<and> is_18_2 (bal_amount r) \<and>
        bal_wallet r \<in> wallet_id ` set (wallets d))"

definition db_ok :: "db \<Rightarrow> bool" where
  "db_ok d \<longleftrightarrow> users_ok d \<and> wallets_ok d \<and> balances_ok d"

definition bal_nonneg :: "db \<Rightarrow> bool" where
  "bal_nonneg d \<longleftrightarrow> (\<forall>r \<in> set (balances d). num_nonneg (bal_amount r))"

lemmas ok_defs = db_ok_def users_ok_def wallets_ok_def balances_ok_def

lemma insert_user_ok: "db_ok d \<Longrightarrow> db_ok (snd (insert_user n m h d))"
  by (auto simp: insert_user_def ok_defs Let_def list_ex_iff image_iff)

lemma insert_wallet_ok: "db_ok d \<Longrightarrow> db_ok (snd (insert_wallet u d))"
  by (auto simp: insert_wallet_def ok_defs Let_def list_ex_iff image_iff)

lemma insert_balance_ok: "db_ok d \<Longrightarrow> db_ok (snd (insert_balance w c d))"
  by (auto simp: insert_balance_def ok_defs list_ex_iff bal_key_def)

lemma update_rows_pairs:
  "update_rows P f rs = Inr (rs', us) \<Longrightarrow>
    map (\<lambda>r. (bal_wallet r, bal_currency r)) rs' = map (\<lambda>r. (bal_wallet r, bal_currency r)) rs"
  by (induction rs arbitrary: rs' us) (auto split: sum.splits if_splits)

lemma update_balances_ok: "db_ok d \<Longrightarrow> db_ok (snd (update_balances P f d))"
proof (cases "update_rows P f (balances d)")
  case (Inr p)
  assume ok: "db_ok d"
  obtain rs us where upd: "update_rows P f (balances d) = Inr (rs, us)" using Inr by (cases p) auto
  note pairs = update_rows_pairs [OF upd]
  have amounts: "\<forall>r \<in> set rs. is_18_2 (bal_amount r)"
    by (rule update_rows_all [OF _ upd]) (use ok in \<open>auto simp: ok_defs dest: cast_is_18_2\<close>)
  let ?key = "\<lambda>r. (bal_wallet r, bal_currency r)" and ?ids = "wallet_id ` set (wallets d)"
  have keys: "?key ` set rs = ?key ` set (balances d)"
    using arg_cong [OF pairs, of set] by simp
  have "\<forall>k \<in> ?key ` set (balances d). chk_currency (snd k) \<and> fst k \<in> ?ids"
    using ok by (simp add: db_ok_def balances_ok_def)
  then have "\<forall>r \<in> set rs. chk_currency (bal_currency r) \<and> bal_wallet r \<in> ?ids"
    unfolding keys [symmetric] by simp
  then show ?thesis using ok amounts pairs by (simp add: update_balances_def upd ok_defs)
qed (simp add: update_balances_def)

interpretation schema: stmt_invariant db_ok "\<lambda>_. True"
proof
  show "db_ok (d\<lparr>faults := fs\<rparr>)" if "db_ok d" for d fs
    using that by (simp add: ok_defs)
  show "db_ok (rollback d0 d)"
    if "db_ok d0" "user_seq d0 \<le> user_seq d" "wallet_seq d0 \<le> wallet_seq d" for d0 d
    using that by (force simp: ok_defs rollback_def)
qed (simp_all add: insert_user_ok insert_wallet_ok insert_balance_ok credit_stmt_def debit_stmt_def
    update_balances_ok)

lemma update_balances_nonneg:
  assumes "bal_nonneg d" and "\<And>r. P r \<Longrightarrow> num_nonneg (bal_amount r) \<Longrightarrow> num_nonneg (f (bal_amount r))"
  shows "bal_nonneg (snd (update_balances P f d))"
proof (cases "update_rows P f (balances d)")
  case (Inr p)
  obtain rs us where upd: "update_rows P f (balances d) = Inr (rs, us)" using Inr by (cases p) auto
  have "\<forall>r \<in> set rs. num_nonneg (bal_amount r)"
    by (rule update_rows_all [OF _ upd]) (use assms in \<open>auto simp: bal_nonneg_def dest: cast_nonneg\<close>)
  then show ?thesis by (simp add: update_balances_def upd bal_nonneg_def)
qed (simp add: update_balances_def assms(1))

interpretation solvent: stmt_invariant bal_nonneg num_nonneg
proof
  show "bal_nonneg (snd (credit_stmt w c x d))" if "bal_nonneg d" "num_nonneg x" for w c x d
    unfolding credit_stmt_def by (rule update_balances_nonneg) (simp_all add: that num_add_nonneg)
  show "bal_nonneg (snd (debit_stmt w c x d))" if "bal_nonneg d" for w c x d
    unfolding debit_stmt_def by (rule update_balances_nonneg) (simp_all add: that num_sub_nonneg)
qed (auto simp: bal_nonneg_def rollback_def insert_user_def insert_wallet_def insert_balance_def Let_def)

lemma db_ok_empty: "db_ok empty_db"
  by (simp add: ok_defs empty_db_def)

end
