(* ===== verification/Wallet_Ledger.thy ===== *)
theory Wallet_Ledger
  imports Wallet_Repo
begin

text \<open>
  What the money operations of \<^verbatim>\<open>repo_auth.go\<close> promise: an abstract ledger (account and currency
  to amount) with a credit, a guarded debit and an atomic exchange, and the lemmas that the
  repository's methods compute exactly these on the database (\<open>Deposit_refines\<close>,
  \<open>Withdraw_refines\<close>, \<open>Exchange_refines\<close>), errors included.
\<close>

section \<open>The abstract ledger\<close>

type_synonym ledger = "int \<Rightarrow> string \<Rightarrow> numeric option"

datatype ledger_error = NoAccount | Insufficient | OutOfRange pg_error

definition ledger_set :: "ledger \<Rightarrow> int \<Rightarrow> string \<Rightarrow> numeric \<Rightarrow> ledger" where
  "ledger_set l w c a = l(w := (l w)(c := Some a))"

definition ledger_credit ::
  "ledger \<Rightarrow> int \<Rightarrow> string \<Rightarrow> numeric \<Rightarrow> ledger_error + (ledger \<times> numeric)" where
  "ledger_credit l w c x = (case l w c of
      None \<Rightarrow> Inl NoAccount
    | Some a \<Rightarrow> (case cast_18_2 (num_add a x) of
        Inl e \<Rightarrow> Inl (OutOfRange e)
      | Inr a' \<Rightarrow> Inr (ledger_set l w c a', a')))"

definition ledger_debit ::
  "ledger \<Rightarrow> int \<Rightarrow> string \<Rightarrow> numeric \<Rightarrow> ledger_error + (ledger \<times> numeric)" where
  "ledger_debit l w c x = (case l w c of
      None \<Rightarrow> Inl NoAccount
    | Some a \<Rightarrow> if \<not> num_le x a then Inl Insufficient
        else (case cast_18_2 (num_sub a x) of
          Inl e \<Rightarrow> Inl (OutOfRange e)
        | Inr a' \<Rightarrow> Inr (ledger_set l w c a', a')))"

definition ledger_exchange ::
  "ledger \<Rightarrow> int \<Rightarrow> string \<Rightarrow> string \<Rightarrow> numeric \<Rightarrow> numeric \<Rightarrow> ledger_error + ledger" where
  "ledger_exchange l w cf ct x y = (case ledger_debit l w cf x of
      Inl e \<Rightarrow> Inl e
    | Inr (l1, _) \<Rightarrow> (case ledger_credit l1 w ct y of Inl e \<Rightarrow> Inl e | Inr (l2, _) \<Rightarrow> Inr l2))"

section \<open>The database as a ledger\<close>

definition balance_of :: "db \<Rightarrow> ledger" where
  "balance_of d w c = map_option bal_amount (find (bal_key w c) (balances d))"

definition set_amount :: "int \<Rightarrow> string \<Rightarrow> numeric \<Rightarrow> balance_row list \<Rightarrow> balance_row list" where
  "set_amount w c a rs = map (\<lambda>r. if bal_key w c r then r\<lparr>bal_amount := a\<rparr> else r) rs"

definition set_balance :: "int \<Rightarrow> string \<Rightarrow> numeric \<Rightarrow> db \<Rightarrow> db" where
  "set_balance w c a d = d\<lparr>balances := set_amount w c a (balances d)\<rparr>"

abbreviation row_key :: "balance_row \<Rightarrow> int \<times> string" where
  "row_key \<equiv> \<lambda>r. (bal_wallet r, bal_currency r)"

lemma bal_key_row: "bal_key w c r \<longleftrightarrow> row_key r = (w, c)"
  by (auto simp: bal_key_def)

lemma find_set_amount:
  "find (bal_key w' c') (set_amount w c a rs) =
    (case find (bal_key w' c') rs of None \<Rightarrow> None
     | Some r \<Rightarrow> Some (if w' = w \<and> c' = c then r\<lparr>bal_amount := a\<rparr> else r))"
  by (induction rs) (auto simp: set_amount_def bal_key_def)

lemma balance_of_set [simp]:
  "balance_of d w c \<noteq> None \<Longrightarrow> balance_of (set_balance w c a d) = ledger_set (balance_of d) w c a"
  by (auto simp: balance_of_def set_balance_def find_set_amount ledger_set_def fun_eq_iff split: option.splits)

lemma set_amount_absent:
  "(w, c) \<notin> row_key ` set rs \<Longrightarrow> set_amount w c a rs = rs"
  by (induction rs) (auto simp: set_amount_def bal_key_def)

text \<open>An update that matches rows of one key only changes that row, because keys are unique.\<close>

lemma update_rows_key:
  assumes "distinct (map row_key rs)" and "\<And>r. P r \<Longrightarrow> bal_key w c r"
    and "find (bal_key w c) rs = Some r0" and "P r0"
  shows "update_rows P f rs = (case cast_18_2 (f (bal_amount r0)) of
     Inl e \<Rightarrow> Inl e | Inr a \<Rightarrow> Inr (set_amount w c a rs, [a]))"
  using assms(1,3)
proof (induction rs)
  case (Cons r rs)
  show ?case
  proof (cases "bal_key w c r")
    case True
    then have r0: "r0 = r" and abs: "(w, c) \<notin> row_key ` set rs"
      using Cons.prems by (auto simp: bal_key_row)
    have "list_all (\<lambda>r. \<not> P r) rs"
      using abs assms(2) by (force simp: list_all_iff bal_key_row)
    then show ?thesis
      using True assms(4) r0 set_amount_absent [OF abs]
      by (auto simp: update_rows_none set_amount_def split: sum.splits)
  next
    case False
    then show ?thesis
      using Cons assms(2) [of r] by (auto simp: set_amount_def split: sum.splits)
  qed
qed simp

lemma update_rows_no_match:
  assumes "\<And>r. r \<in> set rs \<Longrightarrow> \<not> P r"
  shows "update_rows P f rs = Inr (rs, [])"
  using assms by (simp add: update_rows_none list_all_iff)

lemma credit_stmt_ledger:
  assumes "db_ok d"
  shows "credit_stmt w c x d = (case ledger_credit (balance_of d) w c x of
      Inl (OutOfRange e) \<Rightarrow> (Inl e, d)
    | Inl _ \<Rightarrow> (Inr [], d)
    | Inr (_, a) \<Rightarrow> (Inr [a], set_balance w c a d))"
proof (cases "find (bal_key w c) (balances d)")
  case None
  then have "\<And>r. r \<in> set (balances d) \<Longrightarrow> \<not> bal_key w c r" by (simp add: find_None_iff)
  with None show ?thesis
    by (simp add: credit_stmt_def update_balances_def update_rows_no_match ledger_credit_def balance_of_def)
next
  case (Some r)
  have "update_rows (bal_key w c) (\<lambda>a. num_add a x) (balances d) =
    (case cast_18_2 (num_add (bal_amount r) x) of Inl e \<Rightarrow> Inl e
     | Inr a \<Rightarrow> Inr (set_amount w c a (balances d), [a]))"
    by (rule update_rows_key [OF _ _ Some])
      (use assms Some in \<open>auto simp: ok_defs find_Some_iff\<close>)
  with Some show ?thesis
    by (auto simp: credit_stmt_def update_balances_def ledger_credit_def balance_of_def set_balance_def
        split: sum.splits)
qed

lemma debit_stmt_ledger:
  assumes "db_ok d"
  shows "debit_stmt w c x d = (case ledger_debit (balance_of d) w c x of
      Inl (OutOfRange e) \<Rightarrow> (Inl e, d)
    | Inl _ \<Rightarrow> (Inr [], d)
    | Inr (_, a) \<Rightarrow> (Inr [a], set_balance w c a d))"
proof -
  let ?P = "\<lambda>r. bal_key w c r \<and> num_le x (bal_amount r)"
  have dist: "distinct (map row_key (balances d))" using assms by (simp add: ok_defs)
  show ?thesis
  proof (cases "find (bal_key w c) (balances d)")
    case None
    then have "\<And>r. r \<in> set (balances d) \<Longrightarrow> \<not> bal_key w c r" by (simp add: find_None_iff)
    with None show ?thesis
      by (simp add: debit_stmt_def update_balances_def update_rows_no_match ledger_debit_def balance_of_def)
  next
    case (Some r)
    then have r: "bal_key w c r" "r \<in> set (balances d)" by (auto simp: find_Some_iff)
    show ?thesis
    proof (cases "num_le x (bal_amount r)")
      case True
      have "update_rows ?P (\<lambda>a. num_sub a x) (balances d) =
        (case cast_18_2 (num_sub (bal_amount r) x) of Inl e \<Rightarrow> Inl e
         | Inr a \<Rightarrow> Inr (set_amount w c a (balances d), [a]))"
        by (rule update_rows_key [OF dist, where w = w and c = c]) (use r Some True in auto)
      with Some True show ?thesis
        by (auto simp: debit_stmt_def update_balances_def ledger_debit_def balance_of_def set_balance_def
            split: sum.splits)
    next
      case False
      have "\<not> ?P r'" if "r' \<in> set (balances d)" for r'
        using that r False dist by (auto simp: bal_key_row distinct_map inj_on_def)
      then have "update_rows ?P (\<lambda>a. num_sub a x) (balances d) = Inr (balances d, [])"
        by (rule update_rows_no_match)
      with Some False show ?thesis
        by (simp add: debit_stmt_def update_balances_def ledger_debit_def balance_of_def)
    qed
  qed
qed

section \<open>Refinement\<close>

lemma ledger_credit_cases:
  "ledger_credit l w c x = r \<Longrightarrow>
    (l w c = None \<and> r = Inl NoAccount) \<or>
    (\<exists>a. l w c = Some a \<and> ((\<exists>e. cast_18_2 (num_add a x) = Inl e \<and> r = Inl (OutOfRange e)) \<or>
      (\<exists>a'. cast_18_2 (num_add a x) = Inr a' \<and> r = Inr (ledger_set l w c a', a'))))"
  by (auto simp: ledger_credit_def split: option.splits sum.splits)

lemma cast_not_no_rows: "cast_18_2 x \<noteq> Inl PgNoRows"
  by (cases x) auto

lemma credit_error_not_no_rows: "ledger_credit l w c x \<noteq> Inl (OutOfRange PgNoRows)"
  using cast_not_no_rows by (auto simp: ledger_credit_def split: option.splits sum.splits)

lemma debit_error_not_no_rows: "ledger_debit l w c x \<noteq> Inl (OutOfRange PgNoRows)"
  using cast_not_no_rows by (auto simp: ledger_debit_def split: option.splits sum.splits)

lemma Deposit_refines:
  assumes "db_ok d" and "faults d = []"
  shows "Deposit px w c x d = (case ledger_credit (balance_of d) w c (enc px x) of
      Inl NoAccount \<Rightarrow> (Inl ErrNotFound, d)
    | Inl Insufficient \<Rightarrow> (Inl ErrNotFound, d)
    | Inl (OutOfRange e) \<Rightarrow> (Inl (Wrapped ''deposit'' e), d)
    | Inr (l, a) \<Rightarrow> (Inr (dec px a), set_balance w c a d))"
  using assms credit_error_not_no_rows [of "balance_of d" w c "enc px x"]
  by (auto simp: Deposit_def first_row_def credit_stmt_ledger split: sum.splits ledger_error.splits)

lemma Withdraw_refines:
  assumes "db_ok d" and "faults d = []"
  shows "Withdraw px w c x d = (case ledger_debit (balance_of d) w c (enc px x) of
      Inl NoAccount \<Rightarrow> (Inl ErrInsufficientFunds, d)
    | Inl Insufficient \<Rightarrow> (Inl ErrInsufficientFunds, d)
    | Inl (OutOfRange e) \<Rightarrow> (Inl (Wrapped ''withdraw'' e), d)
    | Inr (l, a) \<Rightarrow> (Inr (dec px a), set_balance w c a d))"
  using assms debit_error_not_no_rows [of "balance_of d" w c "enc px x"]
  by (auto simp: Withdraw_def first_row_def debit_stmt_ledger split: sum.splits ledger_error.splits)

text \<open>The new ledger is the abstract one.\<close>

lemma credit_balance_of:
  "ledger_credit (balance_of d) w c x = Inr (l, a) \<Longrightarrow> balance_of (set_balance w c a d) = l"
  by (auto simp: ledger_credit_def split: option.splits sum.splits)

lemma debit_balance_of:
  "ledger_debit (balance_of d) w c x = Inr (l, a) \<Longrightarrow> balance_of (set_balance w c a d) = l"
  by (auto simp: ledger_debit_def split: option.splits sum.splits if_splits)

lemma set_balance_sel [simp]:
  "faults (set_balance w c a d) = faults d" "users (set_balance w c a d) = users d"
  "wallets (set_balance w c a d) = wallets d" "user_seq (set_balance w c a d) = user_seq d"
  "wallet_seq (set_balance w c a d) = wallet_seq d"
  by (simp_all add: set_balance_def)

lemma rollback_self:
  "rollback d d = d" "rollback d (set_balance w c a d) = d"
  by (cases d, simp add: rollback_def set_balance_def)+

lemma db_ok_debit:
  assumes "db_ok d" and "ledger_debit (balance_of d) w c x = Inr (l, a)"
  shows "db_ok (set_balance w c a d)"
  using schema.debit_keeps [OF assms(1), of w c x] assms by (simp add: debit_stmt_ledger)

text \<open>
  The exchange: where both accounts exist it is the atomic ledger exchange; every error leaves
  the database as it was.
\<close>

lemma Exchange_refines:
  assumes ok: "db_ok d" and nf: "faults d = []" and acc: "balance_of d w ct \<noteq> None"
  shows "case ledger_exchange (balance_of d) w cf ct (enc px x) (enc px y) of
      Inl NoAccount \<Rightarrow> Exchange px w cf ct x y d = (Inl ErrInsufficientFunds, d)
    | Inl Insufficient \<Rightarrow> Exchange px w cf ct x y d = (Inl ErrInsufficientFunds, d)
    | Inl (OutOfRange e) \<Rightarrow> \<exists>s. Exchange px w cf ct x y d = (Inl (Wrapped s e), d)
    | Inr l \<Rightarrow> \<exists>d'. Exchange px w cf ct x y d = GetBalances px w d' \<and> balance_of d' = l \<and>
        faults d' = [] \<and> users d' = users d \<and> wallets d' = wallets d"
proof (cases "ledger_debit (balance_of d) w cf (enc px x)")
  case (Inl e)
  then show ?thesis
    by (auto simp: Exchange_def ledger_exchange_def tx_begin_def nf debit_stmt_ledger [OF ok] rollback_self
        split: ledger_error.splits)
next
  case (Inr p)
  obtain l a where deb: "ledger_debit (balance_of d) w cf (enc px x) = Inr (l, a)" using Inr by (cases p) auto
  let ?d1 = "set_balance w cf a d"
  have ok1: "db_ok ?d1" by (rule db_ok_debit [OF ok deb])
  have l: "balance_of ?d1 = l" by (rule debit_balance_of [OF deb])
  obtain b where b: "l w ct = Some b"
    using deb acc
    by (cases "l w ct") (auto simp: ledger_debit_def ledger_set_def split: option.splits sum.splits if_splits)
  have run: "Exchange px w cf ct x y d = (case credit_stmt w ct (enc px y) ?d1 of
      (Inl e, d2) \<Rightarrow> (Inl (Wrapped ''exchange credit'' e), rollback d d2)
    | (Inr us, d2) \<Rightarrow> (case faults d2 of
          FailBefore # fs \<Rightarrow> (Inl (Wrapped ''commit'' PgConn), rollback d (d2\<lparr>faults := fs\<rparr>))
        | FailAfter # fs \<Rightarrow> (Inl (Wrapped ''commit'' PgConn), d2\<lparr>faults := fs\<rparr>)
        | NoFault # fs \<Rightarrow> GetBalances px w (d2\<lparr>faults := fs\<rparr>)
        | [] \<Rightarrow> GetBalances px w d2))"
    by (simp add: Exchange_def tx_begin_def nf debit_stmt_ledger [OF ok] deb)
  show ?thesis
  proof (cases "cast_18_2 (num_add b (enc px y))")
    case (Inl e)
    with b have "ledger_credit l w ct (enc px y) = Inl (OutOfRange e)" by (simp add: ledger_credit_def)
    then show ?thesis
      by (simp add: run credit_stmt_ledger [OF ok1] l ledger_exchange_def deb rollback_self)
  next
    case (Inr b')
    with b have cr: "ledger_credit l w ct (enc px y) = Inr (ledger_set l w ct b', b')"
      by (simp add: ledger_credit_def)
    then have "balance_of (set_balance w ct b' ?d1) = ledger_set l w ct b'"
      using credit_balance_of [of ?d1] l by simp
    moreover have "Exchange px w cf ct x y d = GetBalances px w (set_balance w ct b' ?d1)"
      by (simp add: run credit_stmt_ledger [OF ok1] l cr nf)
    ultimately show ?thesis
      by (auto simp: ledger_exchange_def deb cr nf intro!: exI [of _ "set_balance w ct b' ?d1"])
  qed
qed

text \<open>Where the destination has no row the credit matches nothing, and the debit alone is committed.\<close>

lemma Exchange_without_row:
  assumes "db_ok d" and "faults d = []" and "balance_of d w ct = None"
    and "ledger_debit (balance_of d) w cf (enc px debit) = Inr (l, a)"
  shows "Exchange px w cf ct debit credit d = GetBalances px w (set_balance w cf a d)"
proof -
  let ?d1 = "set_balance w cf a d"
  have ok1: "db_ok ?d1" by (rule db_ok_debit [OF assms(1,4)])
  have l: "balance_of ?d1 = l" by (rule debit_balance_of [OF assms(4)])
  have "l w ct = None"
    using assms(3,4) by (auto simp: ledger_debit_def ledger_set_def split: option.splits sum.splits if_splits)
  then have "credit_stmt w ct (enc px credit) ?d1 = (Inr [], ?d1)"
    by (simp add: credit_stmt_ledger [OF ok1] l ledger_credit_def)
  then show ?thesis using assms(2) by (simp add: Exchange_def tx_begin_def debit_stmt_ledger [OF assms(1)] assms(4))
qed

section \<open>Reading\<close>

definition wallet_of :: "db \<Rightarrow> int \<Rightarrow> int option" where
  "wallet_of d uid = map_option wallet_id (find (\<lambda>w. wallet_user w = uid) (wallets d))"

lemma GetWalletIDByUserID_ok:
  "faults d = [] \<Longrightarrow> GetWalletIDByUserID uid d = (case wallet_of d uid of
      None \<Rightarrow> (Inl ErrNotFound, d) | Some w \<Rightarrow> (Inr w, d))"
  by (simp add: GetWalletIDByUserID_def select_wallet_def wallet_of_def split: option.splits)

text \<open>What a wallet's owner sees: the three currencies, zero where there is no row.\<close>

definition balance_view :: "codec \<Rightarrow> ledger \<Rightarrow> int \<Rightarrow> (string \<rightharpoonup> float64)" where
  "balance_view px l w = (\<lambda>c. if chk_currency c
     then Some (case l w c of None \<Rightarrow> Fin 0 | Some a \<Rightarrow> dec px a) else None)"

lemma zero_balances_eq: "zero_balances c = (if chk_currency c then Some (Fin 0) else None)"
  by (auto simp: zero_balances_def supportedCurrencies_def chk_currency_def)

lemma balance_of_currency:
  assumes "db_ok d" and "balance_of d w c = Some a"
  shows "chk_currency c"
  using assms by (auto simp: balance_of_def ok_defs find_Some_iff bal_key_def)

lemma GetBalances_view:
  assumes "db_ok d" and "faults d = []"
  shows "GetBalances px w d = (Inr (balance_view px (balance_of d) w), d)"
proof -
  let ?rs = "filter (\<lambda>r. bal_wallet r = w) (balances d)"
  have dist: "distinct (map bal_currency ?rs)"
    using assms(1) by (auto simp: ok_defs distinct_map inj_on_def)
  have view: "scan_balances px ?rs c = balance_view px (balance_of d) w c" for c
  proof -
    have "find (\<lambda>r. bal_currency r = c) ?rs = find (bal_key w c) (balances d)"
      by (simp add: find_filter bal_key_def [abs_def])
    then show ?thesis
      using balance_of_currency [OF assms(1), of w c]
      by (auto simp: scan_balances_def foldl_upd_find [OF dist] zero_balances_eq balance_view_def
          balance_of_def split: option.splits)
  qed
  then have "scan_balances px ?rs = balance_view px (balance_of d) w" ..
  then show ?thesis using assms(2) by (simp add: GetBalances_def select_balances_def)
qed

text \<open>The exchange as the client sees it.\<close>

lemma Exchange_result:
  assumes ok: "db_ok d" and nf: "faults d = []" and acc: "balance_of d w ct \<noteq> None"
  shows "case ledger_exchange (balance_of d) w cf ct (enc px x) (enc px y) of
      Inr l \<Rightarrow> fst (Exchange px w cf ct x y d) = Inr (balance_view px l w) \<and>
        balance_of (snd (Exchange px w cf ct x y d)) = l
    | Inl (OutOfRange e) \<Rightarrow> \<exists>s. Exchange px w cf ct x y d = (Inl (Wrapped s e), d)
    | Inl _ \<Rightarrow> Exchange px w cf ct x y d = (Inl ErrInsufficientFunds, d)"
proof (cases "ledger_exchange (balance_of d) w cf ct (enc px x) (enc px y)")
  case (Inl e)
  then show ?thesis using Exchange_refines [OF ok nf acc, of px cf x y] by (cases e) simp_all
next
  case (Inr l)
  then obtain d' where d': "Exchange px w cf ct x y d = GetBalances px w d'" "balance_of d' = l" "faults d' = []"
    using Exchange_refines [OF ok nf acc, of px cf x y] by auto
  have "snd (GetBalances px w d') = d'" using d'(3) by (simp add: GetBalances_def select_balances_def)
  moreover have "db_ok (snd (GetBalances px w d'))"
    unfolding d'(1) [symmetric] by (rule schema.Exchange_keeps [OF ok]) simp
  ultimately have "GetBalances px w d' = (Inr (balance_view px l w), d')"
    using GetBalances_view [of d' px w] d'(2,3) by simp
  then show ?thesis using Inr d' by simp
qed

section \<open>Exchange under faults\<close>

lemma balance_of_sel [simp]:
  "balance_of (d\<lparr>faults := fs\<rparr>) = balance_of d" "balance_of (rollback d0 d) = balance_of d0"
  by (simp_all add: balance_of_def fun_eq_iff rollback_def)

lemma balance_of_GetBalances [simp]: "balance_of (snd (GetBalances px w d)) = balance_of d"
proof -
  have "balance_of (snd (run_stmt (select_balances w) d)) = balance_of d"
    by (rule run_stmt_keeps [where I = "\<lambda>d'. balance_of d' = balance_of d"])
      (simp_all add: select_balances_def)
  then show ?thesis by (auto simp: GetBalances_def split: prod.splits sum.splits)
qed

lemma run_tx_begin: "\<exists>fs. snd (run_stmt tx_begin d) = d\<lparr>faults := fs\<rparr>"
  by (cases d) (auto simp: run_stmt_def tx_begin_def split: list.splits fault.splits)

lemma run_debit:
  assumes "db_ok d" and "run_stmt (debit_stmt w c x) d = (Inr us, d')" and "us \<noteq> []"
  obtains l a where "ledger_debit (balance_of d) w c x = Inr (l, a)" "balance_of d' = l" "db_ok d'"
proof -
  obtain fs where fs: "debit_stmt w c x (d\<lparr>faults := fs\<rparr>) = (Inr us, d')"
    using run_stmt_result [OF assms(2)] by blast
  have ok: "db_ok (d\<lparr>faults := fs\<rparr>)" by (rule schema.faults_irrelevant [OF assms(1)])
  obtain l a where la: "ledger_debit (balance_of d) w c x = Inr (l, a)" "d' = set_balance w c a (d\<lparr>faults := fs\<rparr>)"
    using fs assms(3) by (auto simp: debit_stmt_ledger [OF ok] split: sum.splits ledger_error.splits)
  moreover have "db_ok d'" using schema.debit_keeps [OF ok, of w c x] fs by simp
  moreover have "balance_of d' = l" using debit_balance_of [of "d\<lparr>faults := fs\<rparr>" w c x l a] la by simp
  ultimately show thesis using that by blast
qed

lemma run_credit:
  assumes "db_ok d" and "run_stmt (credit_stmt w c x) d = (Inr us, d')" and "balance_of d w c \<noteq> None"
  obtains l a where "ledger_credit (balance_of d) w c x = Inr (l, a)" "balance_of d' = l"
proof -
  obtain fs where fs: "credit_stmt w c x (d\<lparr>faults := fs\<rparr>) = (Inr us, d')"
    using run_stmt_result [OF assms(2)] by blast
  have ok: "db_ok (d\<lparr>faults := fs\<rparr>)" by (rule schema.faults_irrelevant [OF assms(1)])
  have "\<not> is_err (ledger_credit (balance_of d) w c x)"
    using fs assms(3) by (auto simp: credit_stmt_ledger [OF ok] ledger_credit_def is_err_def split: sum.splits option.splits)
  then obtain l a where la: "ledger_credit (balance_of d) w c x = Inr (l, a)"
    by (cases "ledger_credit (balance_of d) w c x") auto
  then have d': "d' = set_balance w c a (d\<lparr>faults := fs\<rparr>)"
    using fs by (simp add: credit_stmt_ledger [OF ok])
  have "balance_of d' = l" using credit_balance_of [of "d\<lparr>faults := fs\<rparr>" w c x l a] la d' by simp
  with la show thesis using that by blast
qed

lemma ledger_debit_other:
  "ledger_debit l w c x = Inr (l', a) \<Longrightarrow> l' w c' = None \<longleftrightarrow> l w c' = None"
  by (auto simp: ledger_debit_def ledger_set_def split: option.splits sum.splits if_splits)

lemma Exchange_atomic:
  assumes ok: "db_ok d" and acc: "balance_of d w ct \<noteq> None"
    and run: "Exchange px w cf ct x y d = (r, d')"
  shows "(is_err r \<and> balance_of d' = balance_of d) \<or>
     ledger_exchange (balance_of d) w cf ct (enc px x) (enc px y) = Inr (balance_of d')"
proof -
  obtain r0 d0 where s0: "run_stmt tx_begin d = (r0, d0)" by fastforce
  obtain fs0 where d0: "d0 = d\<lparr>faults := fs0\<rparr>" using run_tx_begin [of d] s0 by auto
  have ok0: "db_ok d0" unfolding d0 by (rule schema.faults_irrelevant [OF ok])
  obtain r1 d1 where s1: "run_stmt (debit_stmt w cf (enc px x)) d0 = (r1, d1)" by fastforce
  show ?thesis
  proof (cases "is_err r0 \<or> is_err r1 \<or> r1 = Inr []")
    case True
    then show ?thesis using run s0 s1 d0 by (cases r0; cases r1) (auto simp: Exchange_def)
  next
    case False
    then obtain us where us: "r1 = Inr us" "us \<noteq> []" by (cases r1) auto
    obtain u0 where u0: "r0 = Inr u0" using False by (cases r0) auto
    obtain l a where deb: "ledger_debit (balance_of d0) w cf (enc px x) = Inr (l, a)"
      and l: "balance_of d1 = l" and ok1: "db_ok d1"
      using run_debit [OF ok0 s1 [unfolded us(1)] us(2)] by blast
    obtain r2 d2 where s2: "run_stmt (credit_stmt w ct (enc px y)) d1 = (r2, d2)" by fastforce
    show ?thesis
    proof (cases r2)
      case (Inl e)
      then show ?thesis using run s0 s1 s2 u0 us d0 by (auto simp: Exchange_def)
    next
      case (Inr vs)
      have acc1: "balance_of d1 w ct \<noteq> None" using ledger_debit_other [OF deb] acc l d0 by simp
      obtain l2 b where cr: "ledger_credit l w ct (enc px y) = Inr (l2, b)" "balance_of d2 = l2"
        using run_credit [OF ok1 s2 [unfolded Inr] acc1] l by blast
      then have "ledger_exchange (balance_of d) w cf ct (enc px x) (enc px y) = Inr (balance_of d2)"
        using deb d0 by (simp add: ledger_exchange_def)
      moreover have "(is_err r \<and> balance_of d' = balance_of d) \<or> balance_of d' = balance_of d2"
        using run s0 s1 s2 u0 us d0 Inr balance_of_GetBalances [of px w]
        by (auto simp: Exchange_def split: list.splits fault.splits)
          (metis balance_of_GetBalances balance_of_sel(1) snd_conv)+
      ultimately show ?thesis by auto
    qed
  qed
qed

section \<open>Amounts below half a cent\<close>

lemma round2_absorbs:
  assumes "0 < k" and "0 < x" and "x \<le> 1 / 200"
  shows "round2 (of_int k / 100 - x) = of_int k / 100"
proof -
  let ?y = "(of_int k / 100 - x) * 100"
  have "1 \<le> (of_int k :: rat)" using assms(1) by simp
  then have "\<not> ?y < 0" "of_int k \<le> ?y + 1 / 2" "?y + 1 / 2 < of_int k + 1"
    using assms(2,3) by (simp_all add: field_simps)
  then have "round_half_away ?y = k" by (simp add: round_half_away_def floor_eq_iff)
  then show ?thesis by (simp add: round2_def)
qed

lemma ledger_set_same: "l w c = Some a \<Longrightarrow> ledger_set l w c a = l"
  by (auto simp: ledger_set_def fun_eq_iff)

lemma balance_18_2: "db_ok d \<Longrightarrow> balance_of d w c = Some a \<Longrightarrow> is_18_2 a"
  by (auto simp: balance_of_def ok_defs find_Some_iff)

lemma sub_cent_debit:
  assumes "db_ok d" and "balance_of d w c = Some (Num (of_int k / 100))" and "0 < k"
    and "0 < x" and "x \<le> 1 / 200"
  shows "ledger_debit (balance_of d) w c (Num x) = Inr (balance_of d, Num (of_int k / 100))"
proof -
  have "x \<le> of_int k / 100" using assms(3-5) by (simp add: field_simps)
  moreover have "\<bar>of_int k / 100 :: rat\<bar> < 10 ^ 16" using balance_18_2 [OF assms(1,2)] by simp
  ultimately show ?thesis
    using assms by (simp add: ledger_debit_def num_sub_def round2_absorbs ledger_set_same)
qed

end
