(* ===== verification/Exchanger.thy ===== *)
theory Exchanger
  imports Base Go_Float
begin

text \<open>
  \<^verbatim>\<open>gw-exchanger\<close>: the rates repository over the table \<^verbatim>\<open>currency_rates\<close>, the service over it and
  the gRPC handler over that. A read of the table gives its rows or an error (a parameter of
  each call: \<open>q\<close>). The two RPCs are the interface \<open>rate_source\<close>: what the map says about a pair
  is what the single call says, as long as currency names contain no underscore.
\<close>

section \<open>storage/postgres/rates_repo.go\<close>

record rate_row =
  from_currency :: string
  to_currency :: string
  rate :: float64

datatype store_error = StoreNoRows | StoreError string

type_synonym rates_query = "store_error + rate_row list"

definition pair_key :: "string \<Rightarrow> string \<Rightarrow> string" where
  "pair_key f t = f @ ''_'' @ t"

definition put_rate :: "(string \<rightharpoonup> float64) \<Rightarrow> rate_row \<Rightarrow> (string \<rightharpoonup> float64)" where
  "put_rate out r = out(pair_key (from_currency r) (to_currency r) \<mapsto> rate r)"

definition AllRates :: "rates_query \<Rightarrow> store_error + (string \<rightharpoonup> float64)" where
  "AllRates q = (case q of
      Inl e \<Rightarrow> Inl e
    | Inr rows \<Rightarrow> Inr (foldl put_rate Map.empty rows))"

definition isNoRows :: "store_error \<Rightarrow> bool" where
  "isNoRows e \<longleftrightarrow> e = StoreNoRows"

text \<open>\<^verbatim>\<open>SELECT rate \<dots> WHERE from_currency = $1 AND to_currency = $2\<close> and its first row.\<close>

definition select_rate :: "rates_query \<Rightarrow> string \<Rightarrow> string \<Rightarrow> store_error + float64" where
  "select_rate q f t = (case q of
      Inl e \<Rightarrow> Inl e
    | Inr rows \<Rightarrow> (case find (\<lambda>r. from_currency r = f \<and> to_currency r = t) rows of
        None \<Rightarrow> Inl StoreNoRows | Some r \<Rightarrow> Inr (rate r)))"

definition Rate :: "rates_query \<Rightarrow> string \<Rightarrow> string \<Rightarrow> store_error + (float64 \<times> bool)" where
  "Rate q f t = (case select_rate q f t of
      Inl e \<Rightarrow> if isNoRows e then Inr (Fin 0, False) else Inl e
    | Inr x \<Rightarrow> Inr (x, True))"

section \<open>service/service.go\<close>

definition svc_GetExchangeRates :: "rates_query \<Rightarrow> store_error + (string \<rightharpoonup> float64)" where
  "svc_GetExchangeRates q = AllRates q"

definition svc_GetExchangeRateForCurrency ::
  "rates_query \<Rightarrow> string \<Rightarrow> string \<Rightarrow> store_error + (float64 \<times> bool)" where
  "svc_GetExchangeRateForCurrency q f t = Rate q f t"

section \<open>grpc/handler.go\<close>

datatype grpc_code = Internal | NotFound | Unavailable | DeadlineExceeded

record rate_response =
  resp_from :: string
  resp_to :: string
  resp_rate :: float64

definition GetExchangeRates :: "rates_query \<Rightarrow> grpc_code + (string \<rightharpoonup> float64)" where
  "GetExchangeRates q = (case svc_GetExchangeRates q of Inl _ \<Rightarrow> Inl Internal | Inr m \<Rightarrow> Inr m)"

definition GetExchangeRateForCurrency ::
  "rates_query \<Rightarrow> string \<Rightarrow> string \<Rightarrow> grpc_code + rate_response" where
  "GetExchangeRateForCurrency q f t = (case svc_GetExchangeRateForCurrency q f t of
      Inl _ \<Rightarrow> Inl Internal
    | Inr (x, found) \<Rightarrow> if \<not> found then Inl NotFound
        else Inr \<lparr>resp_from = f, resp_to = t, resp_rate = x\<rparr>)"

section \<open>The two RPCs agree\<close>

text \<open>The primary key of the table, and names without underscores.\<close>

definition rows_ok :: "rate_row list \<Rightarrow> bool" where
  "rows_ok rows \<longleftrightarrow> distinct (map (\<lambda>r. (from_currency r, to_currency r)) rows) \<and>
     (\<forall>r \<in> set rows. CHR ''_'' \<notin> set (from_currency r) \<and> CHR ''_'' \<notin> set (to_currency r))"

lemma append_sep_inj:
  "c \<notin> set a \<Longrightarrow> c \<notin> set a' \<Longrightarrow> a @ c # b = a' @ c # b' \<longleftrightarrow> a = a' \<and> b = b'"
  by (induction a arbitrary: a'; case_tac a') auto

lemma pair_key_inj:
  "CHR ''_'' \<notin> set f \<Longrightarrow> CHR ''_'' \<notin> set f' \<Longrightarrow> pair_key f t = pair_key f' t' \<longleftrightarrow> f = f' \<and> t = t'"
  by (simp add: pair_key_def append_sep_inj)

lemma foldl_rates_other:
  assumes "\<forall>r \<in> set rows. pair_key (from_currency r) (to_currency r) \<noteq> k"
  shows "foldl put_rate m rows k = m k"
  using assms by (induction rows arbitrary: m) (auto simp: put_rate_def)

lemma foldl_rates_find:
  assumes "rows_ok rows" and "CHR ''_'' \<notin> set f"
  shows "foldl put_rate m rows (pair_key f t) =
    (case find (\<lambda>r. from_currency r = f \<and> to_currency r = t) rows of None \<Rightarrow> m (pair_key f t) | Some r \<Rightarrow> Some (rate r))"
  using assms(1)
proof (induction rows arbitrary: m)
  case (Cons r rows)
  have ok: "rows_ok rows" "CHR ''_'' \<notin> set (from_currency r)"
    using Cons.prems by (auto simp: rows_ok_def)
  show ?case
  proof (cases "from_currency r = f \<and> to_currency r = t")
    case True
    have "pair_key (from_currency r') (to_currency r') \<noteq> pair_key f t" if "r' \<in> set rows" for r'
    proof -
      have "CHR ''_'' \<notin> set (from_currency r')" "(from_currency r', to_currency r') \<noteq> (f, t)"
        using Cons.prems True that by (auto simp: rows_ok_def image_iff)
      then show ?thesis using assms(2) by (simp add: pair_key_inj)
    qed
    then have "foldl put_rate (put_rate m r) rows (pair_key f t) = put_rate m r (pair_key f t)"
      by (simp add: foldl_rates_other)
    moreover have "put_rate m r (pair_key f t) = Some (rate r)" using True by (simp add: put_rate_def)
    ultimately show ?thesis using True by simp
  next
    case False
    then have "pair_key (from_currency r) (to_currency r) \<noteq> pair_key f t"
      using ok(2) assms(2) by (simp add: pair_key_inj)
    then have "put_rate m r (pair_key f t) = m (pair_key f t)" by (simp add: put_rate_def)
    then show ?thesis using Cons.IH [OF ok(1), of "put_rate m r"] False by (auto split: option.splits)
  qed
qed simp

lemma rates_consistent:
  assumes "rows_ok rows" and "CHR ''_'' \<notin> set f"
  shows "\<exists>m. GetExchangeRates (Inr rows) = Inr m \<and>
    GetExchangeRateForCurrency (Inr rows) f t = (case m (pair_key f t) of
        None \<Rightarrow> Inl NotFound
      | Some x \<Rightarrow> Inr \<lparr>resp_from = f, resp_to = t, resp_rate = x\<rparr>)"
  using foldl_rates_find [OF assms, of Map.empty t]
  by (auto simp: GetExchangeRates_def svc_GetExchangeRates_def AllRates_def GetExchangeRateForCurrency_def
      svc_GetExchangeRateForCurrency_def Rate_def select_rate_def isNoRows_def split: option.splits)

end
