(* ===== verification/Exchanger_Client.thy ===== *)
theory Exchanger_Client
  imports Exchanger Go_Text
begin

text \<open>
  \<^verbatim>\<open>internal/grpcclient/exchanger_client.go\<close>: the wallet's client of the exchanger with its
  time-limited cache of all rates. \<open>exch_env\<close> holds what one call meets: the clock at its three
  readings and the answers of the two RPCs (a timeout is an error answer). A client without a
  connection is \<open>has_conn = False\<close>; a zero \<open>cacheAt\<close> is \<open>None\<close>. The locale \<open>rate_source\<close> is the
  contract the client has with the service; it is interpreted on the exchanger's model. The
  locking protocol of \<^verbatim>\<open>GetAllRates\<close> with any number of callers is in \<^verbatim>\<open>Exchanger_Concurrency\<close>.
\<close>

section \<open>The client\<close>

record exch_client =
  has_conn :: bool
  cacheTTL :: int
  cacheRates :: "string \<rightharpoonup> float64"
  cacheAt :: "int option"

record exch_env =
  t_rlock :: int
  t_lock :: int
  t_store :: int
  rpc_rates :: "grpc_code + (string \<rightharpoonup> float64)"
  rpc_rate :: "string \<Rightarrow> string \<Rightarrow> grpc_code + float64"

datatype client_error = RpcError grpc_code | RateNotFound string | DialError

definition NewExchangerClient :: "string \<Rightarrow> int \<Rightarrow> bool \<Rightarrow> client_error + exch_client" where
  "NewExchangerClient addr ttl dial_ok =
    (if addr = [] then
       Inr \<lparr>has_conn = False, cacheTTL = ttl, cacheRates = Map.empty, cacheAt = None\<rparr>
     else if \<not> dial_ok then Inl DialError
     else Inr \<lparr>has_conn = True, cacheTTL = ttl, cacheRates = Map.empty, cacheAt = None\<rparr>)"

definition cache_valid :: "exch_client \<Rightarrow> int \<Rightarrow> bool" where
  "cache_valid c now \<longleftrightarrow> (case cacheAt c of None \<Rightarrow> False | Some a \<Rightarrow> now - a < cacheTTL c)"

definition GetAllRates ::
  "exch_env \<Rightarrow> exch_client \<Rightarrow> (client_error + ((string \<rightharpoonup> float64) \<times> string)) \<times> exch_client" where
  "GetAllRates e c =
    (if cache_valid c (t_rlock e) then (Inr (cacheRates c, ''cache''), c)
     else if cache_valid c (t_lock e) then (Inr (cacheRates c, ''cache''), c)
     else if \<not> has_conn c then (Inr (Map.empty, ''grpc''), c)
     else (case rpc_rates e of
        Inl err \<Rightarrow> (Inl (RpcError err), c)
      | Inr m \<Rightarrow> (Inr (m, ''grpc''), c\<lparr>cacheRates := m, cacheAt := Some (t_store e)\<rparr>)))"

definition GetRate ::
  "exch_env \<Rightarrow> string \<Rightarrow> string \<Rightarrow> exch_client \<Rightarrow> (client_error + float64) \<times> exch_client" where
  "GetRate e f t c = (case GetAllRates e c of
      (Inl err, c') \<Rightarrow> (Inl err, c')
    | (Inr (m, _), c') \<Rightarrow> (case m (pair_key f t) of
        Some v \<Rightarrow> (Inr v, c')
      | None \<Rightarrow> if \<not> has_conn c' then (Inr (Fin 0), c')
          else (case rpc_rate e f t of Inl err \<Rightarrow> (Inl (RpcError err), c') | Inr r \<Rightarrow> (Inr r, c'))))"

definition GetRateWithSource ::
  "exch_env \<Rightarrow> string \<Rightarrow> string \<Rightarrow> exch_client \<Rightarrow> (client_error + (float64 \<times> string)) \<times> exch_client" where
  "GetRateWithSource e f t c = (case GetAllRates e c of
      (Inl err, c') \<Rightarrow> (Inl err, c')
    | (Inr (m, src), c') \<Rightarrow> (case m (pair_key f t) of
        Some v \<Rightarrow> (Inr (v, src), c')
      | None \<Rightarrow> if \<not> has_conn c' then (Inl (RateNotFound (pair_key f t)), c')
          else (case rpc_rate e f t of
              Inl err \<Rightarrow> (Inl (RpcError err), c')
            | Inr r \<Rightarrow> if f_le r (Fin 0) then (Inl (RateNotFound (pair_key f t)), c')
                else (Inr (r, ''grpc''), c'))))"

section \<open>The cache\<close>

lemma GetAllRates_hit: "cache_valid c (t_rlock e) \<Longrightarrow> GetAllRates e c = (Inr (cacheRates c, ''cache''), c)"
  by (simp add: GetAllRates_def)

lemma GetAllRates_cases:
  obtains "cache_valid c (t_rlock e) \<or> cache_valid c (t_lock e)"
      "GetAllRates e c = (Inr (cacheRates c, ''cache''), c)"
  | "\<not> cache_valid c (t_rlock e)" "\<not> cache_valid c (t_lock e)" "\<not> has_conn c"
      "GetAllRates e c = (Inr (Map.empty, ''grpc''), c)"
  | err where "\<not> cache_valid c (t_rlock e)" "\<not> cache_valid c (t_lock e)" "has_conn c"
      "rpc_rates e = Inl err" "GetAllRates e c = (Inl (RpcError err), c)"
  | m where "\<not> cache_valid c (t_rlock e)" "\<not> cache_valid c (t_lock e)" "has_conn c"
      "rpc_rates e = Inr m"
      "GetAllRates e c = (Inr (m, ''grpc''), c\<lparr>cacheRates := m, cacheAt := Some (t_store e)\<rparr>)"
proof -
  consider "cache_valid c (t_rlock e) \<or> cache_valid c (t_lock e)"
    | "\<not> cache_valid c (t_rlock e)" "\<not> cache_valid c (t_lock e)" "\<not> has_conn c"
    | "\<not> cache_valid c (t_rlock e)" "\<not> cache_valid c (t_lock e)" "has_conn c" "is_err (rpc_rates e)"
    | m where "\<not> cache_valid c (t_rlock e)" "\<not> cache_valid c (t_lock e)" "has_conn c" "rpc_rates e = Inr m"
    by (cases "rpc_rates e") auto
  then show thesis
  proof cases
    case 1 show thesis by (rule that(1)) (use 1 in \<open>auto simp: GetAllRates_def\<close>)
  next
    case 2 then show thesis by (intro that(2)) (simp_all add: GetAllRates_def)
  next
    case 3
    then obtain err where "rpc_rates e = Inl err" by (auto simp: is_err_iff)
    with 3 show thesis by (intro that(3)) (simp_all add: GetAllRates_def)
  next
    case (4 m) then show thesis by (intro that(4)) (simp_all add: GetAllRates_def)
  qed
qed

lemma GetRateWithSource_client:
  "snd (GetRateWithSource e f t c) = snd (GetAllRates e c)"
  by (auto simp: GetRateWithSource_def split: prod.splits sum.splits option.splits)

text \<open>All rates known to the client, from its cache or from the next answer, are not negative.\<close>

definition rates_nonneg :: "(string \<rightharpoonup> float64) \<Rightarrow> bool" where
  "rates_nonneg m \<longleftrightarrow> (\<forall>k v. m k = Some v \<longrightarrow> \<not> f_neg v)"

definition env_nonneg :: "exch_env \<Rightarrow> bool" where
  "env_nonneg e \<longleftrightarrow> (case rpc_rates e of Inl _ \<Rightarrow> True | Inr m \<Rightarrow> rates_nonneg m)"

lemma GetAllRates_nonneg:
  assumes "rates_nonneg (cacheRates c)" and "env_nonneg e"
  shows "rates_nonneg (cacheRates (snd (GetAllRates e c)))"
    and "fst (GetAllRates e c) = Inr (m, s) \<Longrightarrow> rates_nonneg m"
proof -
  have "rates_nonneg Map.empty" by (simp add: rates_nonneg_def)
  moreover have "rpc_rates e = Inr m' \<Longrightarrow> rates_nonneg m'" for m'
    using assms(2) by (simp add: env_nonneg_def)
  ultimately show "rates_nonneg (cacheRates (snd (GetAllRates e c)))"
    and "fst (GetAllRates e c) = Inr (m, s) \<Longrightarrow> rates_nonneg m"
    using assms(1) by (cases rule: GetAllRates_cases [of c e]; force)+
qed

lemma f_le_0_not_neg: "\<not> f_le r (Fin 0) \<Longrightarrow> \<not> f_neg r"
  by (cases r) auto

lemma GetRateWithSource_nonneg:
  assumes "rates_nonneg (cacheRates c)" and "env_nonneg e"
    and "fst (GetRateWithSource e f t c) = Inr (r, s)"
  shows "\<not> f_neg r"
proof (cases "GetAllRates e c")
  case (Pair res c')
  show ?thesis
  proof (cases res)
    case (Inl err)
    with Pair assms(3) show ?thesis by (simp add: GetRateWithSource_def)
  next
    case (Inr p)
    obtain m src where p: "p = (m, src)" by fastforce
    have "rates_nonneg m" using GetAllRates_nonneg(2) [OF assms(1,2)] Pair Inr p by simp
    then show ?thesis
      using assms(3) Pair Inr p f_le_0_not_neg
      by (auto simp: GetRateWithSource_def rates_nonneg_def split: option.splits sum.splits if_splits)
  qed
qed

section \<open>The contract with the rate service\<close>

locale rate_source =
  fixes all_rates :: "'q \<Rightarrow> grpc_code + (string \<rightharpoonup> float64)"
    and one_rate :: "'q \<Rightarrow> string \<Rightarrow> string \<Rightarrow> grpc_code + float64"
    and source_ok :: "'q \<Rightarrow> bool"
    and name_ok :: "string \<Rightarrow> bool"
  assumes one_agrees: "source_ok q \<Longrightarrow> name_ok f \<Longrightarrow> all_rates q = Inr m \<Longrightarrow>
      one_rate q f t = (case m (pair_key f t) of None \<Rightarrow> Inl NotFound | Some x \<Rightarrow> Inr x)"
begin

definition served :: "exch_env \<Rightarrow> 'q \<Rightarrow> bool" where
  "served e q \<longleftrightarrow> rpc_rates e = all_rates q \<and> rpc_rate e = one_rate q"

text \<open>A call that fetches returns the service's rate; the second RPC never adds a pair.\<close>

lemma fresh_rate:
  assumes "source_ok q" and "name_ok f" and "served e q" and "has_conn c"
    and "\<not> cache_valid c (t_rlock e)" and "\<not> cache_valid c (t_lock e)" and "all_rates q = Inr m"
  shows "fst (GetRateWithSource e f t c) = (case m (pair_key f t) of
      None \<Rightarrow> Inl (RpcError NotFound) | Some x \<Rightarrow> Inr (x, ''grpc''))"
  using assms one_agrees [OF assms(1,2,7), of t]
  by (simp add: GetRateWithSource_def GetAllRates_def served_def split: option.splits)

end

definition one_rate_rpc :: "rate_row list \<Rightarrow> string \<Rightarrow> string \<Rightarrow> grpc_code + float64" where
  "one_rate_rpc rows f t = (case GetExchangeRateForCurrency (Inr rows) f t of
      Inl e \<Rightarrow> Inl e | Inr r \<Rightarrow> Inr (resp_rate r))"

definition no_underscore :: "string \<Rightarrow> bool" where
  "no_underscore f \<longleftrightarrow> CHR ''_'' \<notin> set f"

interpretation exchanger: rate_source "\<lambda>rows. GetExchangeRates (Inr rows)" one_rate_rpc rows_ok no_underscore
proof
  fix rows f t and m :: "string \<rightharpoonup> float64"
  assume "rows_ok rows" "no_underscore f" "GetExchangeRates (Inr rows) = Inr m"
  then show "one_rate_rpc rows f t = (case m (pair_key f t) of None \<Rightarrow> Inl NotFound | Some x \<Rightarrow> Inr x)"
    using rates_consistent [of rows f t] by (auto simp: one_rate_rpc_def no_underscore_def split: option.splits)
qed

end
