(* ===== verification/Publisher.thy ===== *)
theory Publisher
  imports Go_Text Go_Float
begin

text \<open>
  \<^verbatim>\<open>internal/kafka/publisher.go\<close>: the publisher of large transactions. What one call of \<^verbatim>\<open>Publish\<close>
  meets is its environment \<open>pub_env\<close>: the fresh id, the clock, the outcome of each write attempt
  and whether the context is done during each wait. The result lists what the call did, so the
  number of attempts, the waits between them and the message are visible.
\<close>

record large_tx_event =
  transaction_id :: string
  ev_user_id :: int
  ev_type :: string
  ev_amount :: float64
  ev_currency :: string
  ev_created_at :: string

record publisher =
  pub_brokers :: "string list"
  pub_topic :: string
  pub_threshold :: float64
  pub_retries :: int
  pub_backoffMs :: int
  pub_timeout :: int

definition ns_per_ms :: int where "ns_per_ms = 10 ^ 6"

text \<open>\<open>None\<close> is the nil publisher.\<close>

definition NewPublisher ::
  "string \<Rightarrow> string \<Rightarrow> float64 \<Rightarrow> int \<Rightarrow> int \<Rightarrow> int \<Rightarrow> publisher option" where
  "NewPublisher brokers topic threshold retries backoffMs timeoutMs =
    (let trimmed = trimmed_nonempty (split_on (CHR '','') brokers) in
     if trimmed = [] \<or> topic = [] then None
     else Some \<lparr>pub_brokers = trimmed, pub_topic = topic, pub_threshold = threshold,
       pub_retries = (if retries \<le> 0 then 3 else retries),
       pub_backoffMs = (if backoffMs \<le> 0 then 200 else backoffMs),
       pub_timeout = wrap64 ((if timeoutMs \<le> 0 then 2000 else timeoutMs) * ns_per_ms)\<rparr>)"

text \<open>\<open>dial\<close> is the outcome of connecting to a broker.\<close>

definition Ping :: "(string \<Rightarrow> bool) \<Rightarrow> publisher option \<Rightarrow> bool" where
  "Ping dial p = (case p of None \<Rightarrow> True
     | Some q \<Rightarrow> (case pub_brokers q of [] \<Rightarrow> True | b # _ \<Rightarrow> dial b))"

record pub_env =
  fresh_id :: string
  pub_now :: int
  write_ok :: "nat \<Rightarrow> bool"
  ctx_done :: "nat \<Rightarrow> bool"

text \<open>What a call does, in order: waits (in nanoseconds) and write attempts.\<close>

datatype pub_action = Wait int | Write large_tx_event bool

datatype pub_result = NotSent | Published nat | Aborted | Failed

text \<open>\<^verbatim>\<open>for i := 1; i < attempt; i++ { backoff *= 2 }\<close> in 64 bits.\<close>

fun double_times :: "nat \<Rightarrow> int \<Rightarrow> int" where
  "double_times 0 b = b"
| "double_times (Suc n) b = double_times n (wrap64 (b * 2))"

definition backoff_ns :: "int \<Rightarrow> nat \<Rightarrow> int" where
  "backoff_ns backoffMs attempt = double_times (attempt - 1) (wrap64 (backoffMs * ns_per_ms))"

text \<open>The loop, from \<open>attempt\<close> with \<open>n\<close> attempts left.\<close>

fun publish_loop ::
  "pub_env \<Rightarrow> int \<Rightarrow> large_tx_event \<Rightarrow> nat \<Rightarrow> nat \<Rightarrow> pub_action list \<times> pub_result" where
  "publish_loop e backoffMs ev attempt 0 = ([], Failed)"
| "publish_loop e backoffMs ev attempt (Suc n) =
    (let waits = (if 0 < attempt then [Wait (backoff_ns backoffMs attempt)] else []) in
     if 0 < attempt \<and> ctx_done e attempt then (waits, Aborted)
     else if write_ok e attempt then (waits @ [Write ev True], Published (attempt + 1))
     else (let (acts, r) = publish_loop e backoffMs ev (attempt + 1) n
           in (waits @ Write ev False # acts, r)))"

text \<open>\<^verbatim>\<open>json.Marshal\<close> refuses not-a-number and infinities.\<close>

definition marshal_ok :: "large_tx_event \<Rightarrow> bool" where
  "marshal_ok ev \<longleftrightarrow> (case ev_amount ev of Fin _ \<Rightarrow> True | _ \<Rightarrow> False)"

definition make_event :: "pub_env \<Rightarrow> int \<Rightarrow> string \<Rightarrow> string \<Rightarrow> float64 \<Rightarrow> large_tx_event" where
  "make_event e uid typ cur amount =
     \<lparr>transaction_id = fresh_id e, ev_user_id = uid, ev_type = typ, ev_amount = amount,
      ev_currency = cur, ev_created_at = rfc3339 (pub_now e)\<rparr>"

definition Publish ::
  "pub_env \<Rightarrow> publisher option \<Rightarrow> int \<Rightarrow> string \<Rightarrow> string \<Rightarrow> float64 \<Rightarrow> pub_action list \<times> pub_result" where
  "Publish e p uid typ cur amount = (case p of None \<Rightarrow> ([], NotSent)
    | Some q \<Rightarrow> if f_lt amount (pub_threshold q) then ([], NotSent)
        else (let ev = make_event e uid typ cur amount in
          if \<not> marshal_ok ev then ([], NotSent)
          else publish_loop e (pub_backoffMs q) ev 0 (nat (pub_retries q))))"

definition writes :: "pub_action list \<Rightarrow> pub_action list" where
  "writes acts = filter (\<lambda>a. case a of Write _ _ \<Rightarrow> True | Wait _ \<Rightarrow> False) acts"

definition waits_of :: "pub_action list \<Rightarrow> int list" where
  "waits_of acts = List.map_filter (\<lambda>a. case a of Wait t \<Rightarrow> Some t | Write _ _ \<Rightarrow> None) acts"

section \<open>The backoff\<close>

lemma double_times_eq: "in_int64 b \<Longrightarrow> double_times n b = wrap64 (b * 2 ^ n)"
proof (induction n arbitrary: b)
  case (Suc n)
  have "double_times n (wrap64 (b * 2)) = wrap64 (wrap64 (b * 2) * 2 ^ n)" by (rule Suc.IH) simp
  then show ?case by (simp add: wrap64_wrap_mult mult.assoc)
qed simp

lemma backoff_ns_eq: "backoff_ns b k = wrap64 (b * ns_per_ms * 2 ^ (k - 1))"
  by (simp add: backoff_ns_def double_times_eq wrap64_wrap_mult)

lemma backoff_ns_exact:
  assumes "0 \<le> b" and "b * ns_per_ms * 2 ^ (k - 1) < 2 ^ 63"
  shows "backoff_ns b k = b * ns_per_ms * 2 ^ (k - 1)"
proof -
  have "0 \<le> b * ns_per_ms * 2 ^ (k - 1)" using assms(1) by (simp add: ns_per_ms_def)
  then show ?thesis using assms(2) by (simp add: backoff_ns_eq in_int64_def)
qed

section \<open>The retry loop\<close>

lemma writes_simps [simp]:
  "writes [] = []" "writes (Wait t # as) = writes as" "writes (Write e b # as) = Write e b # writes as"
  "writes (as @ bs) = writes as @ writes bs"
  by (simp_all add: writes_def)

lemma waits_of_simps [simp]:
  "waits_of [] = []" "waits_of (Wait t # as) = t # waits_of as" "waits_of (Write e b # as) = waits_of as"
  "waits_of (as @ bs) = waits_of as @ waits_of bs"
  by (simp_all add: waits_of_def map_filter_def)

text \<open>Attempt \<open>j\<close>: the wait before every attempt but the first, then the write.\<close>

definition attempt_acts :: "int \<Rightarrow> large_tx_event \<Rightarrow> nat \<Rightarrow> bool \<Rightarrow> pub_action list" where
  "attempt_acts b ev j ok = (if 0 < j then [Wait (backoff_ns b j)] else []) @ [Write ev ok]"

lemma publish_loop_Suc:
  "publish_loop e b ev k (Suc n) =
    (if 0 < k \<and> ctx_done e k then ([Wait (backoff_ns b k)], Aborted)
     else if write_ok e k then (attempt_acts b ev k True, Published (k + 1))
     else (attempt_acts b ev k False @ fst (publish_loop e b ev (k + 1) n),
           snd (publish_loop e b ev (k + 1) n)))"
  by (simp add: attempt_acts_def Let_def split: prod.splits)

declare publish_loop.simps(2) [simp del]

text \<open>The first success within the bound, the context still alive: that attempt is the last.\<close>

lemma publish_loop_success:
  assumes "k \<le> i" and "i < k + n" and "write_ok e i"
    and "\<And>j. k \<le> j \<Longrightarrow> j < i \<Longrightarrow> \<not> write_ok e j"
    and "\<And>j. 0 < j \<Longrightarrow> k \<le> j \<Longrightarrow> j \<le> i \<Longrightarrow> \<not> ctx_done e j"
  shows "publish_loop e b ev k n =
    (concat (map (\<lambda>j. attempt_acts b ev j False) [k..<i]) @ attempt_acts b ev i True, Published (i + 1))"
  using assms
proof (induction n arbitrary: k)
  case (Suc n)
  have nd: "\<not> (0 < k \<and> ctx_done e k)" using Suc.prems by auto
  show ?case
  proof (cases "k = i")
    case True
    with nd Suc.prems(3) show ?thesis by (simp add: publish_loop_Suc)
  next
    case False
    with Suc.prems have "k < i" "\<not> write_ok e k" by auto
    moreover have "publish_loop e b ev (k + 1) n =
      (concat (map (\<lambda>j. attempt_acts b ev j False) [k + 1..<i]) @ attempt_acts b ev i True, Published (i + 1))"
      by (rule Suc.IH) (use Suc.prems \<open>k < i\<close> in auto)
    ultimately show ?thesis using nd by (simp add: publish_loop_Suc upt_conv_Cons)
  qed
qed simp

text \<open>Every attempt fails: the loop gives up after the bound, having waited before all but the first.\<close>

lemma publish_loop_failure:
  assumes "\<And>j. k \<le> j \<Longrightarrow> j < k + n \<Longrightarrow> \<not> write_ok e j"
    and "\<And>j. 0 < j \<Longrightarrow> k \<le> j \<Longrightarrow> j < k + n \<Longrightarrow> \<not> ctx_done e j"
  shows "publish_loop e b ev k n = (concat (map (\<lambda>j. attempt_acts b ev j False) [k..<k + n]), Failed)"
  using assms
proof (induction n arbitrary: k)
  case (Suc n)
  have "publish_loop e b ev (k + 1) n =
    (concat (map (\<lambda>j. attempt_acts b ev j False) [k + 1..<k + 1 + n]), Failed)"
    by (rule Suc.IH) (use Suc.prems in auto)
  moreover have "\<not> (0 < k \<and> ctx_done e k)" "\<not> write_ok e k" using Suc.prems by auto
  moreover have "[k..<k + Suc n] = k # [k + 1..<k + 1 + n]" 
    using upt_conv_Cons [of k "k + Suc n"] by (simp del: upt_Suc)
  ultimately show ?case by (simp add: publish_loop_Suc del: upt_Suc)
qed simp

text \<open>Whatever happens, the attempts are bounded and all carry the same event.\<close>

lemma publish_loop_writes:
  "length (writes (fst (publish_loop e b ev k n))) \<le> n \<and>
   set (writes (fst (publish_loop e b ev k n))) \<subseteq> {Write ev True, Write ev False}"
proof (induction n arbitrary: k)
  case (Suc n)
  show ?case using Suc.IH [of "k + 1"] by (auto simp: publish_loop_Suc attempt_acts_def)
qed simp

lemma waits_attempts:
  "waits_of (concat (map (\<lambda>j. attempt_acts b ev j False) [k..<m])) = map (backoff_ns b) [max 1 k..<m]"
proof (induction m)
  case (Suc m)
  then show ?case by (auto simp: attempt_acts_def max_def not_le upt_Suc)
qed simp

lemma NewPublisher_pos:
  "NewPublisher bs t th r bo ti = Some p \<Longrightarrow> 0 < pub_retries p \<and> 0 < pub_backoffMs p \<and> pub_brokers p \<noteq> []"
  by (auto simp: NewPublisher_def Let_def split: if_splits)

lemma Publish_sends_iff:
  assumes "p = Some q" and "0 < pub_retries q"
  shows "writes (fst (Publish e p uid typ cur (Fin x))) \<noteq> [] \<longleftrightarrow> \<not> f_lt (Fin x) (pub_threshold q)"
proof -
  obtain n where n: "nat (pub_retries q) = Suc n" using assms(2) by (metis Suc_pred zero_less_nat_eq)
  show ?thesis
    by (auto simp: Publish_def assms(1) marshal_ok_def make_event_def n Let_def publish_loop_Suc attempt_acts_def)
qed

end
