(* ===== verification/Wallet_Handlers.thy ===== *)
theory Wallet_Handlers
  imports Auth Wallet_Ledger Exchanger_Client Publisher
begin

text \<open>
  The HTTP handlers of the wallet (\<^verbatim>\<open>handler.go\<close>, \<^verbatim>\<open>handler_auth.go\<close>, \<^verbatim>\<open>handler_balance.go\<close>,
  \<^verbatim>\<open>handler_exchange.go\<close>) and their routes (\<^verbatim>\<open>routes.go\<close>), composed from the repository, the
  exchanger client, the publisher and the middleware as the code composes them. \<open>handler\<close> holds
  the fields of \<^verbatim>\<open>Handler\<close> that do not change; \<open>wallet_state\<close> what does: the database, the
  exchanger client and everything done towards Kafka so far. \<open>wallet_env\<close> is what one request
  meets outside: clocks, RPC answers, write outcomes.
\<close>

section \<open>State\<close>

record handler =
  hd_codec :: codec
  hd_bcrypt :: bcrypt
  hd_jwt :: jwt_lib
  hd_secret :: string
  hd_pool :: bool
  hd_publisher :: "publisher option"

record wallet_state =
  ws_db :: db
  ws_client :: "exch_client option"
  ws_kafka :: "pub_action list"

record wallet_env =
  we_now :: int
  we_token_exp :: int
  we_token_iat :: int
  we_exch :: exch_env
  we_pub :: pub_env
  we_dial :: "string \<Rightarrow> bool"

type_synonym endpoint =
  "handler \<Rightarrow> wallet_env \<Rightarrow> http_request \<Rightarrow> wallet_state \<Rightarrow> http_response \<times> wallet_state"

definition on_db :: "'a repo \<Rightarrow> wallet_state \<Rightarrow> (repo_error + 'a) \<times> wallet_state" where
  "on_db f s = (case f (ws_db s) of (r, d) \<Rightarrow> (r, s\<lparr>ws_db := d\<rparr>))"

abbreviation internal_error :: http_response where
  "internal_error \<equiv> write_error 500 ''internal error''"

section \<open>handler\_auth.go\<close>

record RegisterRequest =
  rr_username :: string
  rr_email :: string
  rr_password :: string

record LoginRequest =
  lr_username :: string
  lr_password :: string

definition register_fields :: "RegisterRequest field list" where
  "register_fields =
    [(''username'', \<lambda>q v. map_option (\<lambda>s. q\<lparr>rr_username := s\<rparr>) (dec_string (rr_username q) v)),
     (''email'', \<lambda>q v. map_option (\<lambda>s. q\<lparr>rr_email := s\<rparr>) (dec_string (rr_email q) v)),
     (''password'', \<lambda>q v. map_option (\<lambda>s. q\<lparr>rr_password := s\<rparr>) (dec_string (rr_password q) v))]"

definition login_fields :: "LoginRequest field list" where
  "login_fields =
    [(''username'', \<lambda>q v. map_option (\<lambda>s. q\<lparr>lr_username := s\<rparr>) (dec_string (lr_username q) v)),
     (''password'', \<lambda>q v. map_option (\<lambda>s. q\<lparr>lr_password := s\<rparr>) (dec_string (lr_password q) v))]"

definition HandleRegister :: endpoint where
  "HandleRegister h e r s =
    (if req_method r \<noteq> ''POST'' then (status_only 405, s)
     else case decode_body True register_fields
        \<lparr>rr_username = [], rr_email = [], rr_password = []\<rparr> (req_body r) of
       None \<Rightarrow> (write_error 400 ''invalid json'', s)
     | Some q \<Rightarrow>
        if rr_username q = [] \<or> rr_email q = [] \<or> rr_password q = []
        then (write_error 400 ''username, email and password are required'', s)
        else (case HashPassword (hd_bcrypt h) (rr_password q) of
           None \<Rightarrow> (internal_error, s)
         | Some hash \<Rightarrow>
            (case on_db (CreateUser (rr_username q) (rr_email q) hash) s of
               (Inl err, s1) \<Rightarrow>
                 if err = ErrUserExists then (write_error 409 (err_text ErrUserExists), s1)
                 else (internal_error, s1)
             | (Inr uid, s1) \<Rightarrow>
                (case on_db (CreateWalletForUser uid) s1 of
                   (Inl err, s2) \<Rightarrow> (internal_error, s2)
                 | (Inr wid, s2) \<Rightarrow>
                    (case on_db (CreateBalancesForWallet wid) s2 of
                       (Inl err, s3) \<Rightarrow> (internal_error, s3)
                     | (Inr _, s3) \<Rightarrow> (write_json 201 (MessageBody ''registered''), s3))))))"

definition HandleLogin :: endpoint where
  "HandleLogin h e r s =
    (if req_method r \<noteq> ''POST'' then (status_only 405, s)
     else case decode_body True login_fields \<lparr>lr_username = [], lr_password = []\<rparr> (req_body r) of
       None \<Rightarrow> (write_error 400 ''invalid json'', s)
     | Some q \<Rightarrow>
        if lr_username q = [] \<or> lr_password q = []
        then (write_error 400 ''username and password are required'', s)
        else (case on_db (GetUserByUsername (lr_username q)) s of
           (Inl err, s1) \<Rightarrow>
             if err = ErrAuthFailed then (write_error 401 ''invalid username or password'', s1)
             else (internal_error, s1)
         | (Inr (uid, mail, hash), s1) \<Rightarrow>
             if \<not> CheckPassword (hd_bcrypt h) (lr_password q) hash
             then (write_error 401 ''invalid username or password'', s1)
             else (case NewToken (hd_jwt h) (we_token_exp e) (we_token_iat e) (hd_secret h) uid 0 of
                None \<Rightarrow> (internal_error, s1)
              | Some tok \<Rightarrow> (write_json 200 (TokenBody tok), s1))))"

section \<open>handler\_balance.go\<close>

definition allowedCurrencies :: "string \<Rightarrow> bool" where
  "allowedCurrencies c \<longleftrightarrow> c = ''USD'' \<or> c = ''RUB'' \<or> c = ''EUR''"

record AmountCurrencyRequest =
  acr_amount :: float64
  acr_currency :: string

definition amount_fields :: "AmountCurrencyRequest field list" where
  "amount_fields =
    [(''amount'', \<lambda>q v. map_option (\<lambda>x. q\<lparr>acr_amount := x\<rparr>) (dec_float (acr_amount q) v)),
     (''currency'', \<lambda>q v. map_option (\<lambda>s. q\<lparr>acr_currency := s\<rparr>) (dec_string (acr_currency q) v))]"

definition HandleBalance :: endpoint where
  "HandleBalance h e r s =
    (if req_method r \<noteq> ''GET'' then (status_only 405, s)
     else case UserIDFromContext r of
       None \<Rightarrow> (status_only 401, s)
     | Some uid \<Rightarrow>
        (case on_db (GetWalletIDByUserID uid) s of
           (Inl err, s1) \<Rightarrow>
             if err = ErrNotFound then (write_error 404 ''wallet not found'', s1) else (internal_error, s1)
         | (Inr wid, s1) \<Rightarrow>
            (case on_db (GetBalances (hd_codec h) wid) s1 of
               (Inl err, s2) \<Rightarrow> (internal_error, s2)
             | (Inr m, s2) \<Rightarrow> (write_json 200 (BalancesBody m), s2))))"

definition publish_large ::
  "handler \<Rightarrow> wallet_env \<Rightarrow> int \<Rightarrow> string \<Rightarrow> string \<Rightarrow> float64 \<Rightarrow> wallet_state \<Rightarrow> wallet_state" where
  "publish_large h e uid typ cur amount s =
     s\<lparr>ws_kafka := ws_kafka s @ fst (Publish (we_pub e) (hd_publisher h) uid typ cur amount)\<rparr>"

definition HandleDeposit :: endpoint where
  "HandleDeposit h e r s =
    (if req_method r \<noteq> ''POST'' then (status_only 405, s)
     else case UserIDFromContext r of
       None \<Rightarrow> (status_only 401, s)
     | Some uid \<Rightarrow>
        (case decode_body True amount_fields \<lparr>acr_amount = Fin 0, acr_currency = []\<rparr> (req_body r) of
           None \<Rightarrow> (write_error 400 ''invalid json'', s)
         | Some q \<Rightarrow>
            if f_le (acr_amount q) (Fin 0) then (write_error 400 (err_text ErrInvalidAmount), s)
            else if \<not> allowedCurrencies (acr_currency q)
            then (write_error 400 (err_text ErrInvalidCurrency), s)
            else (case on_db (GetWalletIDByUserID uid) s of
               (Inl err, s1) \<Rightarrow>
                 if err = ErrNotFound then (write_error 404 ''wallet not found'', s1)
                 else (internal_error, s1)
             | (Inr wid, s1) \<Rightarrow>
                (case on_db (Deposit (hd_codec h) wid (acr_currency q) (acr_amount q)) s1 of
                   (Inl err, s2) \<Rightarrow>
                     if err = ErrNotFound then (write_error 404 ''currency not found'', s2)
                     else (internal_error, s2)
                 | (Inr newAmount, s2) \<Rightarrow>
                     (write_json 200 (AmountBody (acr_currency q) newAmount),
                      publish_large h e uid ''deposit'' (acr_currency q) (acr_amount q) s2)))))"

definition HandleWithdraw :: endpoint where
  "HandleWithdraw h e r s =
    (if req_method r \<noteq> ''POST'' then (status_only 405, s)
     else case UserIDFromContext r of
       None \<Rightarrow> (status_only 401, s)
     | Some uid \<Rightarrow>
        (case decode_body True amount_fields \<lparr>acr_amount = Fin 0, acr_currency = []\<rparr> (req_body r) of
           None \<Rightarrow> (write_error 400 ''invalid json'', s)
         | Some q \<Rightarrow>
            if f_le (acr_amount q) (Fin 0) then (write_error 400 (err_text ErrInvalidAmount), s)
            else if \<not> allowedCurrencies (acr_currency q)
            then (write_error 400 (err_text ErrInvalidCurrency), s)
            else (case on_db (GetWalletIDByUserID uid) s of
               (Inl err, s1) \<Rightarrow>
                 if err = ErrNotFound then (write_error 404 ''wallet not found'', s1)
                 else (internal_error, s1)
             | (Inr wid, s1) \<Rightarrow>
                (case on_db (Withdraw (hd_codec h) wid (acr_currency q) (acr_amount q)) s1 of
                   (Inl err, s2) \<Rightarrow>
                     if err = ErrInsufficientFunds then (write_error 400 ''Insufficient funds'', s2)
                     else if err = ErrNotFound then (write_error 404 ''currency not found'', s2)
                     else (internal_error, s2)
                 | (Inr newAmount, s2) \<Rightarrow>
                     (write_json 200 (AmountBody (acr_currency q) newAmount),
                      publish_large h e uid ''withdraw'' (acr_currency q) (acr_amount q) s2)))))"

section \<open>handler\_exchange.go\<close>

record ExchangeRequest =
  er_from :: string
  er_to :: string
  er_amount :: float64

definition exchange_fields :: "ExchangeRequest field list" where
  "exchange_fields =
    [(''from_currency'', \<lambda>q v. map_option (\<lambda>s. q\<lparr>er_from := s\<rparr>) (dec_string (er_from q) v)),
     (''to_currency'', \<lambda>q v. map_option (\<lambda>s. q\<lparr>er_to := s\<rparr>) (dec_string (er_to q) v)),
     (''amount'', \<lambda>q v. map_option (\<lambda>x. q\<lparr>er_amount := x\<rparr>) (dec_float (er_amount q) v))]"

definition on_client ::
  "(exch_client \<Rightarrow> 'b \<times> exch_client) \<Rightarrow> exch_client \<Rightarrow> wallet_state \<Rightarrow> 'b \<times> wallet_state" where
  "on_client f c s = (case f c of (r, c') \<Rightarrow> (r, s\<lparr>ws_client := Some c'\<rparr>))"

definition HandleExchangeRates :: endpoint where
  "HandleExchangeRates h e r s =
    (if req_method r \<noteq> ''GET'' then (status_only 405, s)
     else case ws_client s of
       None \<Rightarrow> (write_json 200 (RatesBody Map.empty ''grpc''), s)
     | Some c \<Rightarrow>
        (case on_client (GetAllRates (we_exch e)) c s of
           (Inl err, s1) \<Rightarrow> (write_error 502 ''exchange service unavailable'', s1)
         | (Inr (m, src), s1) \<Rightarrow> (write_json 200 (RatesBody m src), s1)))"

text \<open>\<^verbatim>\<open>math.Round(req.Amount*rate*100) / 100\<close>\<close>

definition exchanged_amount :: "float64 \<Rightarrow> float64 \<Rightarrow> float64" where
  "exchanged_amount amount rt = f_div100 (f_round (f_mul (f_mul amount rt) (Fin 100)))"

definition HandleExchange :: endpoint where
  "HandleExchange h e r s =
    (if req_method r \<noteq> ''POST'' then (status_only 405, s)
     else case UserIDFromContext r of
       None \<Rightarrow> (status_only 401, s)
     | Some uid \<Rightarrow>
        (case decode_body True exchange_fields \<lparr>er_from = [], er_to = [], er_amount = Fin 0\<rparr> (req_body r) of
           None \<Rightarrow> (write_error 400 ''invalid json'', s)
         | Some q \<Rightarrow>
            if f_le (er_amount q) (Fin 0) then (write_error 400 (err_text ErrInvalidAmount), s)
            else if er_from q = er_to q
            then (write_error 400 ''from_currency and to_currency must differ'', s)
            else if \<not> allowedCurrencies (er_from q) \<or> \<not> allowedCurrencies (er_to q)
            then (write_error 400 (err_text ErrInvalidCurrency), s)
            else (case on_db (GetWalletIDByUserID uid) s of
               (Inl err, s1) \<Rightarrow>
                 if err = ErrNotFound then (write_error 404 ''wallet not found'', s1)
                 else (internal_error, s1)
             | (Inr wid, s1) \<Rightarrow>
                (case ws_client s1 of
                   None \<Rightarrow> (write_error 503 ''exchange rate service unavailable'', s1)
                 | Some c \<Rightarrow>
                    (case on_client (GetRateWithSource (we_exch e) (er_from q) (er_to q)) c s1 of
                       (Inl err, s2) \<Rightarrow>
                         (write_error 400 (''exchange rate not available for '' @ er_from q @ ''_'' @ er_to q), s2)
                     | (Inr (rt, src), s2) \<Rightarrow>
                        (case on_db (Exchange (hd_codec h) wid (er_from q) (er_to q) (er_amount q)
                                (exchanged_amount (er_amount q) rt)) s2 of
                           (Inl err, s3) \<Rightarrow>
                             if err = ErrInsufficientFunds then (write_error 400 ''insufficient funds'', s3)
                             else (internal_error, s3)
                         | (Inr newBalance, s3) \<Rightarrow>
                             (write_json 200 (ExchangeBody ''Exchange successful'' rt
                                (exchanged_amount (er_amount q) rt) newBalance src),
                              publish_large h e uid ''exchange'' (er_from q) (er_amount q) s3)))))))"

section \<open>handler.go: health\<close>

definition ping_db :: "unit sql" where "ping_db d = run_stmt (\<lambda>d. (Inr (), d)) d"

definition HandleHealth :: endpoint where
  "HandleHealth h e r s =
    (if req_method r \<noteq> ''GET'' then (status_only 405, s)
     else
       let (dbr, s1) = (if hd_pool h then (case ping_db (ws_db s) of (x, d) \<Rightarrow> (is_err x, s\<lparr>ws_db := d\<rparr>))
                        else (False, s));
           (exr, s2) = (case ws_client s1 of None \<Rightarrow> (False, s1)
                        | Some c \<Rightarrow> (case on_client (GetAllRates (we_exch e)) c s1 of (x, s') \<Rightarrow> (is_err x, s')));
           kfr = (case hd_publisher h of None \<Rightarrow> False | Some p \<Rightarrow> \<not> Ping (we_dial e) (Some p));
           txt = (\<lambda>b. if b then ''error'' else ''ok'');
           degraded = dbr \<or> exr \<or> kfr
       in (write_json (if degraded then 503 else 200)
             (HealthBody (if degraded then ''degraded'' else ''ok'') (txt dbr) (txt exr) (txt kfr)), s2))"

section \<open>routes.go\<close>

definition protected :: "endpoint \<Rightarrow> endpoint" where
  "protected f h e r s = AuthMiddleware (hd_jwt h) (we_now e) (hd_secret h) (f h e) r s"

definition route :: endpoint where
  "route h e r s =
    (if req_path r = ''/health'' then HandleHealth h e r s
     else if req_path r = ''/api/v1/register'' then HandleRegister h e r s
     else if req_path r = ''/api/v1/login'' then HandleLogin h e r s
     else if req_path r = ''/api/v1/balance'' then protected HandleBalance h e r s
     else if req_path r = ''/api/v1/wallet/deposit'' then protected HandleDeposit h e r s
     else if req_path r = ''/api/v1/wallet/withdraw'' then protected HandleWithdraw h e r s
     else if req_path r = ''/api/v1/exchange'' then protected HandleExchange h e r s
     else if req_path r = ''/api/v1/exchange/rates'' then protected HandleExchangeRates h e r s
     else (status_only 404, s))"

fun serve :: "handler \<Rightarrow> (wallet_env \<times> http_request) list \<Rightarrow> wallet_state \<Rightarrow> wallet_state" where
  "serve h [] s = s"
| "serve h ((e, r) # rs) s = serve h rs (snd (route h e r s))"

end
