(* ===== verification/Config.thy ===== *)
theory Config
  imports Go_Text
begin

text \<open>
  The configuration of the services (\<^verbatim>\<open>internal/config/config.go\<close> of the exchanger, the notification
  service, the producer and the aggregator; the wallet's is in \<^verbatim>\<open>Wallet_Config\<close>). The environment is a
  function: \<^verbatim>\<open>os.Getenv\<close> gives the empty string for a variable that is not set.
\<close>

type_synonym environ = "string \<Rightarrow> string"

definition or_default :: "string \<Rightarrow> string \<Rightarrow> string" where
  "or_default s d = (if s = [] then d else s)"

text \<open>The connection strings, \<^verbatim>\<open>fmt.Sprintf\<close> of the six parts.\<close>

definition postgres_url :: "string \<Rightarrow> string \<Rightarrow> string \<Rightarrow> string \<Rightarrow> string \<Rightarrow> string \<Rightarrow> string" where
  "postgres_url user pass host port name ssl = ''postgres://'' @ user @ '':'' @ pass @ ''@'' @ host @ '':'' @ port @
     ''/'' @ name @ ''?sslmode='' @ ssl"

section \<open>The exchanger\<close>

record exchanger_config =
  xc_host :: string
  xc_port :: string
  xc_user :: string
  xc_password :: string
  xc_name :: string
  xc_sslmode :: string
  xc_grpc_port :: string

definition exchanger_Load :: "environ \<Rightarrow> exchanger_config option" where
  "exchanger_Load env = (let cfg = \<lparr>xc_host = env ''DB_HOST'', xc_port = or_default (env ''DB_PORT'') ''5432'',
       xc_user = env ''DB_USER'', xc_password = env ''DB_PASSWORD'', xc_name = env ''DB_NAME'',
       xc_sslmode = or_default (env ''DB_SSLMODE'') ''disable'', xc_grpc_port = or_default (env ''GRPC_PORT'') ''9090''\<rparr>
     in if xc_host cfg = [] \<or> xc_user cfg = [] \<or> xc_name cfg = [] then None else Some cfg)"

definition exchanger_DSN :: "exchanger_config \<Rightarrow> string" where
  "exchanger_DSN c = postgres_url (xc_user c) (xc_password c) (xc_host c) (xc_port c) (xc_name c) (xc_sslmode c)"

section \<open>The notification service\<close>

record notification_config =
  nc_brokers :: string
  nc_topic :: string
  nc_group :: string
  nc_use_group :: bool
  nc_mongo_uri :: string
  nc_mongo_db :: string
  nc_mongo_collection :: string
  nc_health_port :: string

definition notification_Load :: "environ \<Rightarrow> notification_config option" where
  "notification_Load env = (let use = env ''NOTIFICATION_USE_CONSUMER_GROUP'';
       cfg = \<lparr>nc_brokers = or_default (env ''KAFKA_BROKERS'') ''kafka:9092'',
         nc_topic = or_default (env ''KAFKA_TOPIC'') ''large_transactions'',
         nc_group = or_default (env ''KAFKA_GROUP_ID'') ''notification-service'',
         nc_use_group = (use = ''1'' \<or> use = ''true''), nc_mongo_uri = env ''MONGO_URI'',
         nc_mongo_db = or_default (env ''MONGO_DB'') ''notification'',
         nc_mongo_collection = or_default (env ''MONGO_COLLECTION'') ''large_transactions'',
         nc_health_port = or_default (env ''HEALTH_PORT'') ''8081''\<rparr>
     in if nc_mongo_uri cfg = [] then None else Some cfg)"

definition notification_brokers :: "notification_config \<Rightarrow> string list" where
  "notification_brokers c = broker_list (nc_brokers c)"

section \<open>The producer\<close>

record producer_config =
  cfg_kafka :: string
  cfg_topic :: string
  cfg_dlq_topic :: string
  cfg_http_port :: string
  cfg_default_mode :: string
  cfg_default_rps :: int
  cfg_batch_size :: int
  cfg_flush_ms :: int
  cfg_mode :: string
  cfg_strategy :: string

definition getEnv :: "environ \<Rightarrow> string \<Rightarrow> string \<Rightarrow> string" where
  "getEnv env key d = or_default (env key) d"

definition producer_parseInt :: "string \<Rightarrow> int \<Rightarrow> int" where
  "producer_parseInt = parse_int"

definition producer_Load :: "environ \<Rightarrow> producer_config" where
  "producer_Load env = \<lparr>cfg_kafka = getEnv env ''KAFKA_BROKERS'' ''kafka:9092'',
     cfg_topic = getEnv env ''KAFKA_TOPIC'' ''page_views'', cfg_dlq_topic = getEnv env ''KAFKA_DLQ_TOPIC'' ''page_views_dlq'',
     cfg_http_port = getEnv env ''HTTP_PORT'' ''8082'', cfg_default_mode = getEnv env ''DEFAULT_MODE'' ''regular'',
     cfg_default_rps = producer_parseInt (getEnv env ''DEFAULT_RPS'' ''5'') 5,
     cfg_batch_size = producer_parseInt (getEnv env ''BATCH_SIZE'' ''200'') 200,
     cfg_flush_ms = producer_parseInt (getEnv env ''FLUSH_MS'' ''1000'') 1000,
     cfg_mode = getEnv env ''SEND_MODE'' ''batch'', cfg_strategy = getEnv env ''PARTITION_STRATEGY'' ''key''\<rparr>"

definition cfg_brokers :: "producer_config \<Rightarrow> string list" where
  "cfg_brokers c = broker_list (cfg_kafka c)"

section \<open>The aggregator\<close>

record aggregator_config =
  ac_kafka :: string
  ac_topic :: string
  ac_dlq_topic :: string
  ac_group :: string
  ac_batch_size :: int
  ac_flush_ms :: int
  ac_clickhouse :: string
  ac_clickhouse_db :: string
  ac_dlq_enabled :: bool
  ac_health_port :: string

definition aggregator_getEnv :: "environ \<Rightarrow> string \<Rightarrow> string \<Rightarrow> string" where
  "aggregator_getEnv env key d = or_default (env key) d"

definition aggregator_parseInt :: "string \<Rightarrow> int \<Rightarrow> int" where
  "aggregator_parseInt = parse_int"

definition aggregator_Load :: "environ \<Rightarrow> aggregator_config option" where
  "aggregator_Load env = (let cfg = \<lparr>ac_kafka = aggregator_getEnv env ''KAFKA_BROKERS'' ''kafka:9092'',
       ac_topic = aggregator_getEnv env ''KAFKA_TOPIC'' ''page_views'',
       ac_dlq_topic = aggregator_getEnv env ''KAFKA_DLQ_TOPIC'' ''page_views_dlq'',
       ac_group = aggregator_getEnv env ''KAFKA_GROUP_ID'' ''pv-aggregator'',
       ac_batch_size = aggregator_parseInt (aggregator_getEnv env ''BATCH_SIZE'' ''1000'') 1000,
       ac_flush_ms = aggregator_parseInt (aggregator_getEnv env ''FLUSH_INTERVAL_MS'' ''2000'') 2000,
       ac_clickhouse = aggregator_getEnv env ''CLICKHOUSE_ADDR'' ''clickhouse:9000'',
       ac_clickhouse_db = aggregator_getEnv env ''CLICKHOUSE_DB'' ''default'',
       ac_dlq_enabled = (aggregator_getEnv env ''DLQ_ENABLED'' ''true'' = ''true''),
       ac_health_port = aggregator_getEnv env ''HEALTH_PORT'' ''8083''\<rparr>
     in if ac_clickhouse cfg = [] then None else Some cfg)"

definition aggregator_brokers :: "aggregator_config \<Rightarrow> string list" where
  "aggregator_brokers c = broker_list (ac_kafka c)"

section \<open>What a loaded configuration has\<close>

lemma or_default_ne [simp]: "d \<noteq> [] \<Longrightarrow> or_default s d \<noteq> []"
  by (simp add: or_default_def)

lemma or_default_set: "s \<noteq> [] \<Longrightarrow> or_default s d = s"
  by (simp add: or_default_def)

text \<open>The required address of the aggregator has a default, so that its check never fails.\<close>

lemma aggregator_Load_total: "aggregator_Load env \<noteq> None"
  by (simp add: aggregator_Load_def aggregator_getEnv_def)

lemma exchanger_Load_complete:
  "exchanger_Load env = Some c \<Longrightarrow> xc_host c \<noteq> [] \<and> xc_port c \<noteq> [] \<and> xc_user c \<noteq> [] \<and> xc_name c \<noteq> [] \<and>
    xc_sslmode c \<noteq> [] \<and> xc_grpc_port c \<noteq> []"
  by (auto simp: exchanger_Load_def Let_def split: if_splits)

lemma notification_Load_complete:
  "notification_Load env = Some c \<Longrightarrow> nc_brokers c \<noteq> [] \<and> nc_topic c \<noteq> [] \<and> nc_group c \<noteq> [] \<and> nc_mongo_uri c \<noteq> []"
  by (auto simp: notification_Load_def Let_def split: if_splits)

lemma parse_int_show: "in_int64 i \<Longrightarrow> parse_int (show_int i) d = i"
  by (simp add: parse_int_def atoi_show_int) (simp add: show_int_def split: if_splits)

lemma show_int_ne [simp]: "show_int i \<noteq> []"
  by (simp add: show_int_def)

section \<open>Broker lists\<close>

text \<open>What a broker's name has to be for the list to name it: not empty, no comma, no outer white space.\<close>

definition clean_name :: "string \<Rightarrow> bool" where
  "clean_name b \<longleftrightarrow> b \<noteq> [] \<and> CHR '','' \<notin> set b \<and> \<not> is_space (hd b) \<and> \<not> is_space (last b)"

lemma trim_clean: "clean_name b \<Longrightarrow> trim_space b = b"
proof -
  assume c: "clean_name b"
  have "dropWhile is_space b = b" using c by (cases b) (auto simp: clean_name_def)
  moreover have "dropWhile is_space (rev b) = rev b"
    using c by (cases "rev b") (auto simp: clean_name_def last_rev hd_rev dest: arg_cong [of _ _ hd])
  ultimately show ?thesis by (simp add: trim_space_def)
qed

lemma trim_space_subset: "set (trim_space s) \<subseteq> set s"
proof
  fix x
  assume "x \<in> set (trim_space s)"
  then have "x \<in> set (dropWhile is_space (rev (dropWhile is_space s)))" by (simp add: trim_space_def)
  then have "x \<in> set (rev (dropWhile is_space s))" by (rule set_dropWhileD)
  then have "x \<in> set (dropWhile is_space s)" by simp
  then show "x \<in> set s" by (rule set_dropWhileD)
qed

lemma broker_list_clean: "b \<in> set (broker_list s) \<Longrightarrow> clean_name b"
  using broker_list_nonempty [of b s] broker_list_trimmed [of b s] trim_space_subset split_on_no_sep
  by (fastforce simp: clean_name_def broker_list_def trimmed_nonempty_conv)

lemma broker_list_join:
  assumes "\<forall>b \<in> set bs. clean_name b"
  shows "broker_list (join (CHR '','') bs) = bs"
proof (cases "bs = []")
  case False
  have "map trim_space bs = bs" using assms by (simp add: trim_clean map_idI)
  moreover have "filter (\<lambda>s. s \<noteq> []) bs = bs" using assms by (auto simp: filter_id_conv clean_name_def)
  moreover have "split_on (CHR '','') (join (CHR '','') bs) = bs"
    using assms False by (intro split_on_join) (auto simp: clean_name_def)
  ultimately show ?thesis by (simp add: broker_list_def trimmed_nonempty_conv)
qed (simp add: broker_list_def trim_space_def)

end
