(* ===== verification/Go_Scan.thy ===== *)
theory Go_Scan
  imports Go_Text Go_Float
begin

text \<open>
  Reading settings with Go's library: \<^verbatim>\<open>time.ParseDuration\<close>, \<^verbatim>\<open>strconv.ParseFloat\<close> (64 bits) and
  \<^verbatim>\<open>fmt.Sscanf(s, "%f", &f)\<close>, which reads the longest beginning of the string that its float token allows
  and ignores what follows. \<open>None\<close> is an error.
\<close>

section \<open>Durations\<close>

fun take_digits :: "string \<Rightarrow> nat list \<times> string" where
  "take_digits [] = ([], [])"
| "take_digits (c # cs) = (case digit_val c of None \<Rightarrow> ([], c # cs)
     | Some d \<Rightarrow> (let (ds, r) = take_digits cs in (d # ds, r)))"

text \<open>\<^verbatim>\<open>leadingInt\<close>; the digits are consumed by \<open>take_digits\<close>.\<close>

fun leading_int :: "nat \<Rightarrow> nat list \<Rightarrow> nat option" where
  "leading_int x [] = Some x"
| "leading_int x (d # ds) = (if 2 ^ 63 div 10 < x then None
     else if 2 ^ 63 < x * 10 + d then None else leading_int (x * 10 + d) ds)"

text \<open>\<^verbatim>\<open>leadingFraction\<close>: the digits that fit, and the power of ten as a \<^verbatim>\<open>float64\<close>; the others are ignored.\<close>

fun leading_fraction :: "nat \<Rightarrow> float64 \<Rightarrow> nat list \<Rightarrow> nat \<times> float64" where
  "leading_fraction x scale [] = (x, scale)"
| "leading_fraction x scale (d # ds) = (if (2 ^ 63 - 1) div 10 < x then (x, scale)
     else if 2 ^ 63 < x * 10 + d then (x, scale) else leading_fraction (x * 10 + d) (f_mul scale (Fin 10)) ds)"

definition unit_ns :: "string \<Rightarrow> nat option" where
  "unit_ns u = (if u = ''ns'' then Some 1
     else if u = ''us'' \<or> u = [CHR 0xC2, CHR 0xB5, CHR ''s''] \<or> u = [CHR 0xCE, CHR 0xBC, CHR ''s''] then Some (10 ^ 3)
     else if u = ''ms'' then Some (10 ^ 6) else if u = ''s'' then Some (10 ^ 9)
     else if u = ''m'' then Some (60 * 10 ^ 9) else if u = ''h'' then Some (3600 * 10 ^ 9) else None)"

text \<open>\<^verbatim>\<open>uint64(float64(f) * (float64(unit) / scale))\<close>\<close>

definition fraction_ns :: "nat \<Rightarrow> nat \<Rightarrow> float64 \<Rightarrow> nat" where
  "fraction_ns f unit scale = (if f = 0 then 0 else
     (let q = (case scale of Fin s \<Rightarrow> round64 (of_nat unit / s) | _ \<Rightarrow> Fin 0)
      in case f_mul (round64 (of_nat f)) q of Fin x \<Rightarrow> nat \<lfloor>x\<rfloor> | _ \<Rightarrow> 0))"

text \<open>The unit of \<open>v + f / scale\<close>, its value in nanoseconds, and what is left of the string.\<close>

definition duration_unit :: "nat \<Rightarrow> nat \<times> float64 \<Rightarrow> string \<Rightarrow> (nat \<times> string) option" where
  "duration_unit v = (\<lambda>(f, scale) s.
     let u = takeWhile (\<lambda>c. c \<noteq> CHR ''.'' \<and> digit_val c = None) s
     in case unit_ns u of
         None \<Rightarrow> None
       | Some unit \<Rightarrow>
           if 2 ^ 63 div unit < v then None
           else let v' = v * unit + fraction_ns f unit scale
                in if 2 ^ 63 < v' then None else Some (v', drop (length u) s))"

text \<open>One number with its unit.\<close>

definition duration_part :: "string \<Rightarrow> (nat \<times> string) option" where
  "duration_part s = (let (ds, s1) = take_digits s;
       (fs, s2) = (case s1 of c # t \<Rightarrow> if c = CHR ''.'' then take_digits t else ([], s1) | [] \<Rightarrow> ([], s1))
     in if ds = [] \<and> fs = [] then None
     else case leading_int 0 ds of
         None \<Rightarrow> None
       | Some v \<Rightarrow> duration_unit v (leading_fraction 0 (Fin 1) fs) s2)"

lemma take_digits_length: "length (snd (take_digits s)) \<le> length s"
  by (induction s) (auto split: option.splits prod.splits)

lemma take_digits_consumes: "fst (take_digits s) \<noteq> [] \<Longrightarrow> length (snd (take_digits s)) < length s"
proof (cases s)
  case (Cons c cs)
  assume "fst (take_digits s) \<noteq> []"
  then show ?thesis using Cons take_digits_length [of cs] by (auto split: option.splits prod.splits)
qed simp

lemma unit_ns_Nil [simp]: "unit_ns [] = None"
  by (simp add: unit_ns_def)

lemma duration_unit_consumes: "duration_unit v fs s = Some (v', r) \<Longrightarrow> length r < length s"
proof -
  let ?u = "takeWhile (\<lambda>c. c \<noteq> CHR ''.'' \<and> digit_val c = None) s"
  assume "duration_unit v fs s = Some (v', r)"
  then have "unit_ns ?u \<noteq> None" and r: "r = drop (length ?u) s"
    by (auto simp: duration_unit_def Let_def split: prod.splits option.splits if_splits)
  then have "?u \<noteq> []" by (metis unit_ns_Nil)
  then have "0 < length ?u" "s \<noteq> []" by auto
  then show ?thesis by (simp add: r)
qed

lemma duration_part_consumes:
  assumes "duration_part s = Some (v, r)"
  shows "length r < length s"
proof -
  obtain ds s1 where d: "take_digits s = (ds, s1)" by fastforce
  obtain fs s2 where f: "(case s1 of c # t \<Rightarrow> if c = CHR ''.'' then take_digits t else ([], s1) | [] \<Rightarrow> ([], s1)) = (fs, s2)"
    by fastforce
  have "length s1 \<le> length s" using take_digits_length [of s] d by simp
  moreover have "length s2 \<le> length s1"
    using f take_digits_length [of "tl s1"] by (auto split: list.splits if_splits)
  moreover obtain v0 where "duration_unit v0 (leading_fraction 0 (Fin 1) fs) s2 = Some (v, r)"
    using assms unfolding duration_part_def d f Let_def prod.case by (auto split: if_splits option.splits)
  ultimately show ?thesis using duration_unit_consumes by fastforce
qed

function duration_parts :: "nat \<Rightarrow> string \<Rightarrow> nat option" where
  "duration_parts d s = (if s = [] then Some d
     else (case duration_part s of
         None \<Rightarrow> None
       | Some (v, r) \<Rightarrow> (let d' = (d + v) mod 2 ^ 64 in if 2 ^ 63 < d' then None else duration_parts d' r)))"
  by pat_completeness auto
termination
  by (relation "measure (length \<circ> snd)") (auto dest: duration_part_consumes)

declare duration_parts.simps [simp del]

definition parse_duration :: "string \<Rightarrow> int option" where
  "parse_duration s = (let (neg, r) = (case s of
        c # cs \<Rightarrow> if c = CHR ''-'' then (True, cs) else if c = CHR ''+'' then (False, cs) else (False, s)
      | [] \<Rightarrow> (False, s))
    in if r = ''0'' then Some 0 else if r = [] then None
       else (case duration_parts 0 r of
           None \<Rightarrow> None
         | Some d \<Rightarrow> if neg then Some (- int d) else if 2 ^ 63 - 1 < d then None else Some (int d)))"

text \<open>A list of numbers with units is read as the sum of its parts.\<close>

definition starts_digit :: "string \<Rightarrow> bool" where
  "starts_digit s \<longleftrightarrow> (case s of [] \<Rightarrow> False | c # _ \<Rightarrow> digit_val c \<noteq> None)"

abbreviation decimal :: "nat \<Rightarrow> nat list \<Rightarrow> nat" where
  "decimal \<equiv> foldl (\<lambda>x d. x * 10 + d)"

lemma decimal_mono: "x \<le> decimal x ds"
proof (induction ds arbitrary: x)
  case (Cons d ds)
  show ?case using Cons [of "x * 10 + d"] by simp
qed simp

lemma leading_int_decimal: "decimal x ds \<le> 2 ^ 63 \<Longrightarrow> leading_int x ds = Some (decimal x ds)"
proof (induction ds arbitrary: x)
  case (Cons d ds)
  have "x * 10 + d \<le> 2 ^ 63" using decimal_mono [of "x * 10 + d" ds] Cons.prems by simp
  moreover from this have "x \<le> 2 ^ 63 div 10" by (simp add: less_eq_div_iff_mult_less_eq)
  ultimately show ?case using Cons by simp
qed simp

lemma take_digits_parse:
  assumes "parse_digits acc s = Some v" and "\<not> starts_digit r"
  shows "\<exists>ds. take_digits (s @ r) = (ds, r) \<and> length ds = length s \<and> decimal acc ds = v"
  using assms
proof (induction s arbitrary: acc)
  case Nil
  then show ?case by (cases r) (auto simp: starts_digit_def split: option.splits)
next
  case (Cons c s)
  then obtain d where d: "digit_val c = Some d" "parse_digits (10 * acc + d) s = Some v" by (auto split: option.splits)
  with Cons.IH [of "10 * acc + d"] Cons.prems(2) show ?case by (fastforce simp: mult.commute)
qed

lemma take_digits_show:
  assumes "\<not> starts_digit r"
  obtains ds where "take_digits (show_nat n @ r) = (ds, r)" "ds \<noteq> []" "decimal 0 ds = n"
  using take_digits_parse [OF parse_show_nat assms, of n] by (metis length_0_conv show_nat_neq_Nil)

lemma unit_chars: "unit_ns u = Some k \<Longrightarrow> c \<in> set u \<Longrightarrow> c \<noteq> CHR ''.'' \<and> digit_val c = None"
  by (auto simp: unit_ns_def digit_val_def split: if_splits)

lemma unit_pos: "unit_ns u = Some k \<Longrightarrow> 0 < k"
  by (auto simp: unit_ns_def split: if_splits)

lemma unit_not_digit: "unit_ns u = Some k \<Longrightarrow> \<not> starts_digit (u @ r) \<and> hd u \<noteq> CHR ''.'' \<and> u \<noteq> []"
  using unit_chars [of u k "hd u"] by (cases u) (auto simp: starts_digit_def)

lemma starts_digit_show: "starts_digit (show_nat n @ r)"
proof (cases "starts_digit (show_nat n @ r)")
  case False
  then have "digit_val (hd (show_nat n)) = None" by (cases "show_nat n") (auto simp: starts_digit_def)
  then show ?thesis using parse_show_nat [of n] by (cases "show_nat n") auto
qed

lemma duration_part_show:
  assumes u: "unit_ns u = Some k" and "n * k \<le> 2 ^ 63" and r: "r = [] \<or> starts_digit r"
  shows "duration_part (show_nat n @ u @ r) = Some (n * k, r)"
proof -
  obtain ds where ds: "take_digits (show_nat n @ u @ r) = (ds, u @ r)" "ds \<noteq> []" "decimal 0 ds = n"
    using take_digits_show unit_not_digit [OF u] by metis
  have "n \<le> n * k" using unit_pos [OF u] by simp
  then have "n \<le> 2 ^ 63" using assms(2) by (rule order_trans)
  then have "leading_int 0 ds = Some n" using leading_int_decimal [of 0 ds] ds(3) by simp
  moreover have "(case u @ r of c # t \<Rightarrow> if c = CHR ''.'' then take_digits t else ([], u @ r) | [] \<Rightarrow> ([], u @ r)) = ([], u @ r)"
    using unit_not_digit [OF u] by (cases u) auto
  moreover have "takeWhile (\<lambda>c. c \<noteq> CHR ''.'' \<and> digit_val c = None) (u @ r) = u"
    using r unit_chars [OF u] by (cases r) (auto simp: starts_digit_def takeWhile_append2 takeWhile_append)
  moreover have "n \<le> 2 ^ 63 div k" using assms(2) unit_pos [OF u] by (simp add: less_eq_div_iff_mult_less_eq)
  ultimately show ?thesis
    using assms(2) u by (simp add: duration_part_def ds duration_unit_def fraction_ns_def)
qed

definition show_parts :: "(nat \<times> string) list \<Rightarrow> string" where
  "show_parts ps = concat (map (\<lambda>(n, u). show_nat n @ u) ps)"

definition parts_ns :: "(nat \<times> string) list \<Rightarrow> nat" where
  "parts_ns ps = (\<Sum>(n, u) \<leftarrow> ps. n * the (unit_ns u))"

lemma show_parts_start: "show_parts ps = [] \<or> starts_digit (show_parts ps)"
  using starts_digit_show by (cases ps) (auto simp: show_parts_def)

lemma duration_parts_show:
  assumes "\<forall>(n, u) \<in> set ps. unit_ns u \<noteq> None" and "d + parts_ns ps \<le> 2 ^ 63"
  shows "duration_parts d (show_parts ps) = Some (d + parts_ns ps)"
  using assms
proof (induction ps arbitrary: d)
  case Nil
  then show ?case by (simp add: show_parts_def parts_ns_def duration_parts.simps)
next
  case (Cons p ps)
  obtain n u where p: "p = (n, u)" by (cases p)
  obtain k where k: "unit_ns u = Some k" using Cons.prems(1) p by auto
  have sum: "parts_ns (p # ps) = n * k + parts_ns ps" by (simp add: parts_ns_def p k)
  have nk: "n * k \<le> 2 ^ 63" and dn: "(d + n * k) mod 2 ^ 64 = d + n * k" "d + n * k \<le> 2 ^ 63"
    using Cons.prems(2) sum by simp_all
  have "duration_part (show_parts (p # ps)) = Some (n * k, show_parts ps)"
    using duration_part_show [OF k nk show_parts_start] by (simp add: show_parts_def p)
  moreover have "show_parts (p # ps) \<noteq> []" by (simp add: show_parts_def p)
  ultimately have "duration_parts d (show_parts (p # ps)) = duration_parts (d + n * k) (show_parts ps)"
    using dn by (subst duration_parts.simps) (simp add: Let_def)
  also have "\<dots> = Some (d + n * k + parts_ns ps)"
    using Cons.IH [of "d + n * k"] Cons.prems sum by (simp add: add.assoc)
  finally show ?case by (simp add: sum add.assoc)
qed

lemma parse_duration_show:
  assumes "ps \<noteq> []" and "\<forall>(n, u) \<in> set ps. unit_ns u \<noteq> None" and "parts_ns ps < 2 ^ 63"
  shows "parse_duration (show_parts ps) = Some (int (parts_ns ps))"
proof -
  obtain n u qs where ps: "ps = (n, u) # qs" using assms(1) by (cases ps) auto
  obtain c cs where c: "show_nat n = c # cs" by (cases "show_nat n") auto
  have "c \<noteq> CHR ''-''" "c \<noteq> CHR ''+''" using hd_show_nat [of n] c by auto
  moreover have "u \<noteq> []" using assms(2) ps by auto
  then have "show_parts ps \<noteq> ''0''" "show_parts ps = c # tl (show_parts ps)"
    by (cases u; cases cs; simp add: show_parts_def ps c)+
  moreover have "duration_parts 0 (show_parts ps) = Some (parts_ns ps)"
    using duration_parts_show [OF assms(2), of 0] assms(3) by simp
  ultimately show ?thesis
    using assms(3) unfolding parse_duration_def by (cases "show_parts ps") (auto simp: Let_def)
qed

section \<open>Floating-point numbers\<close>

definition lower :: "char \<Rightarrow> char" where
  "lower c = (let n = of_char c in if 65 \<le> n \<and> n \<le> (90 :: nat) then char_of (n + 32) else c)"

definition hex_val :: "char \<Rightarrow> nat option" where
  "hex_val c = (case digit_val c of Some d \<Rightarrow> Some d
     | None \<Rightarrow> let n = of_char (lower c) in if 97 \<le> n \<and> n \<le> (102 :: nat) then Some (n - 87) else None)"

definition is_hex :: "string \<Rightarrow> bool" where
  "is_hex s \<longleftrightarrow> 2 < length s \<and> hd s = CHR ''0'' \<and> lower (s ! 1) = CHR ''x''"

text \<open>
  \<^verbatim>\<open>underscoreOK\<close> after the sign: an underscore stands between digits or between the prefix and a digit. The
  last argument is what was seen before: a digit, an underscore, or something else.
\<close>

datatype seen = SawDigit | SawUnderscore | SawOther

fun underscores_ok :: "bool \<Rightarrow> seen \<Rightarrow> string \<Rightarrow> bool" where
  "underscores_ok hex saw [] = (saw \<noteq> SawUnderscore)"
| "underscores_ok hex saw (c # cs) =
     (if digit_val c \<noteq> None \<or> hex \<and> hex_val c \<noteq> None then underscores_ok hex SawDigit cs
      else if c = CHR ''_'' then saw = SawDigit \<and> underscores_ok hex SawUnderscore cs
      else saw \<noteq> SawUnderscore \<and> underscores_ok hex SawOther cs)"

definition underscoreOK :: "string \<Rightarrow> bool" where
  "underscoreOK s = (if 2 \<le> length s \<and> hd s = CHR ''0'' \<and> lower (s ! 1) \<in> set ''box''
     then underscores_ok (lower (s ! 1) = CHR ''x'') SawDigit (drop 2 s) else underscores_ok False SawOther s)"

text \<open>
  The mantissa: its digits as a number, how many of them follow the point, whether there was a digit, and
  the rest of the string.
\<close>

fun mantissa :: "bool \<Rightarrow> bool \<Rightarrow> bool \<Rightarrow> nat \<Rightarrow> nat \<Rightarrow> string \<Rightarrow> bool \<times> nat \<times> nat \<times> string" where
  "mantissa hex dot digits m k [] = (digits, m, k, [])"
| "mantissa hex dot digits m k (c # cs) =
     (if c = CHR ''_'' then mantissa hex dot digits m k cs
      else if c = CHR ''.'' then (if dot then (digits, m, k, c # cs) else mantissa hex True digits m k cs)
      else case (if hex then hex_val c else digit_val c) of
          None \<Rightarrow> (digits, m, k, c # cs)
        | Some d \<Rightarrow> mantissa hex dot True ((if hex then 16 else 10) * m + d) (if dot then k + 1 else k) cs)"

text \<open>The digits of an exponent; from ten thousand on they no longer count.\<close>

fun exponent_digits :: "nat \<Rightarrow> string \<Rightarrow> nat \<times> string" where
  "exponent_digits e [] = (e, [])"
| "exponent_digits e (c # cs) =
     (if c = CHR ''_'' then exponent_digits e cs
      else case digit_val c of None \<Rightarrow> (e, c # cs)
        | Some d \<Rightarrow> exponent_digits (if e < 10000 then 10 * e + d else e) cs)"

text \<open>The exponent, zero where there is none; \<open>None\<close> for a malformed one, or a missing one of a hexadecimal number.\<close>

definition exponent_part :: "bool \<Rightarrow> string \<Rightarrow> (int \<times> string) option" where
  "exponent_part hex s = (case s of
       c # cs \<Rightarrow>
         if lower c = (if hex then CHR ''p'' else CHR ''e'') then
           (let (neg, ds) = (case cs of
                 d # r \<Rightarrow> if d = CHR ''-'' then (True, r) else if d = CHR ''+'' then (False, r) else (False, cs)
               | [] \<Rightarrow> (False, cs))
            in if ds = [] \<or> digit_val (hd ds) = None then None
               else let (e, r) = exponent_digits 0 ds in Some (if neg then - int e else int e, r))
         else if hex then None else Some (0, s)
     | [] \<Rightarrow> if hex then None else Some (0, s))"

definition pow10 :: "int \<Rightarrow> rat" where
  "pow10 e = (if 0 \<le> e then 10 ^ nat e else 1 / 10 ^ nat (- e))"

definition f_negate :: "float64 \<Rightarrow> float64" where
  "f_negate x = (case x of FNaN \<Rightarrow> FNaN | FInf s \<Rightarrow> FInf (\<not> s) | Fin q \<Rightarrow> Fin (- q))"

definition parse_number :: "string \<Rightarrow> float64 option" where
  "parse_number s = (let hex = is_hex s; (digits, m, k, r) = mantissa hex False False 0 0 (if hex then drop 2 s else s)
     in if \<not> digits then None
        else case exponent_part hex r of
          None \<Rightarrow> None
        | Some (e, r') \<Rightarrow>
            if r' \<noteq> [] \<or> CHR ''_'' \<in> set s \<and> \<not> underscoreOK s then None
            else (case round64 (of_nat m * (if hex then pow2 (e - 4 * int k) else pow10 (e - int k))) of
                Fin x \<Rightarrow> Some (Fin x) | _ \<Rightarrow> None))"

text \<open>\<^verbatim>\<open>strconv.ParseFloat(s, 64)\<close>; a number too large for a \<^verbatim>\<open>float64\<close> is an error.\<close>

definition parse_float64 :: "string \<Rightarrow> float64 option" where
  "parse_float64 s = (let (sign, neg, r) = (case s of
        c # cs \<Rightarrow> if c = CHR ''-'' then (True, True, cs) else if c = CHR ''+'' then (True, False, cs) else (False, False, s)
      | [] \<Rightarrow> (False, False, s))
    in if \<not> sign \<and> map lower r = ''nan'' then Some FNaN
       else if map lower r = ''inf'' \<or> map lower r = ''infinity'' then Some (FInf neg)
       else map_option (if neg then f_negate else id) (parse_number r))"

section \<open>Sscanf\<close>

text \<open>The token: characters are moved from the input to the token as long as they are the expected ones.\<close>

definition accept :: "string \<Rightarrow> string \<times> string \<Rightarrow> bool \<times> string \<times> string" where
  "accept cs = (\<lambda>(tok, r). case r of [] \<Rightarrow> (False, tok, r)
     | c # r' \<Rightarrow> if c \<in> set cs then (True, tok @ [c], r') else (False, tok, r))"

fun accept_word :: "string list \<Rightarrow> string \<times> string \<Rightarrow> bool \<times> string \<times> string" where
  "accept_word [] st = (True, st)"
| "accept_word (cs # css) st = (let (ok, st') = accept cs st in if ok then accept_word css st' else (False, st'))"

definition accept_all :: "string \<Rightarrow> string \<times> string \<Rightarrow> string \<times> string" where
  "accept_all cs = (\<lambda>(tok, r). (tok @ takeWhile (\<lambda>c. c \<in> set cs) r, dropWhile (\<lambda>c. c \<in> set cs) r))"

definition number_token :: "string \<times> string \<Rightarrow> string" where
  "number_token st =
    (let (hex, st) = accept_word [''0'', ''xX''] st;
         digits = (if hex then ''0123456789aAbBcCdDeEfF_'' else ''0123456789_'');
         (dot, st) = accept ''.'' (accept_all digits st);
         (ex, st) = accept (if hex then ''pP'' else ''eEpP'') (if dot then accept_all digits st else st)
     in fst (if ex then accept_all ''0123456789_'' (snd (accept ''+-'' st)) else st))"

definition float_token :: "string \<Rightarrow> string" where
  "float_token s = (let (nan, st) = accept_word [''nN'', ''aA'', ''nN''] ([], s) in if nan then fst st else
    let (inf, st) = accept_word [''iI'', ''nN'', ''fF''] (snd (accept ''+-'' st)) in if inf then fst st else
    number_token st)"

text \<open>\<^verbatim>\<open>convertFloat\<close>: a decimal number may have a binary exponent.\<close>

definition convert_float :: "string \<Rightarrow> float64 option" where
  "convert_float tok =
    (if CHR ''p'' \<in> set tok \<and> CHR ''x'' \<notin> set tok \<and> CHR ''X'' \<notin> set tok
     then (case (parse_float64 (takeWhile (\<lambda>c. c \<noteq> CHR ''p'') tok), atoi (tl (dropWhile (\<lambda>c. c \<noteq> CHR ''p'') tok))) of
         (Some (Fin x), Some e) \<Rightarrow> Some (round64 (x * pow2 e))
       | (Some y, Some e) \<Rightarrow> Some y
       | _ \<Rightarrow> None)
     else parse_float64 tok)"

definition scan_float :: "string \<Rightarrow> float64 option" where
  "scan_float s = (let r = dropWhile (\<lambda>c. is_space c \<and> c \<noteq> CHR 0x0A) s
     in if r = [] \<or> hd r = CHR 0x0A then None else convert_float (float_token r))"

section \<open>A whole number and whatever follows it\<close>

abbreviation is_digit :: "char \<Rightarrow> bool" where
  "is_digit c \<equiv> digit_val c \<noteq> None"

lemma digit_literal: "is_digit c \<Longrightarrow> c \<in> set ''0123456789''"
proof -
  assume "is_digit c"
  then have n: "48 \<le> (of_char c :: nat)" "of_char c \<le> (57 :: nat)"
    by (auto simp: digit_val_def Let_def split: if_splits)
  define d where "d = of_char c - (48 :: nat)"
  have d: "c = digit_char d" "d < 10" using n by (simp_all add: d_def digit_char_def)
  have "d = 0 \<or> d = 1 \<or> d = 2 \<or> d = 3 \<or> d = 4 \<or> d = 5 \<or> d = 6 \<or> d = 7 \<or> d = 8 \<or> d = 9" using d(2) by presburger
  moreover have "digit_char 0 = CHR ''0''" "digit_char 1 = CHR ''1''" "digit_char 2 = CHR ''2''"
    "digit_char 3 = CHR ''3''" "digit_char 4 = CHR ''4''" "digit_char 5 = CHR ''5''" "digit_char 6 = CHR ''6''"
    "digit_char 7 = CHR ''7''" "digit_char 8 = CHR ''8''" "digit_char 9 = CHR ''9''"
    by (simp_all add: digit_char_def char_of_def bit_0)
  ultimately show ?thesis using d(1) by (elim disjE) simp_all
qed

lemma not_digit [simp]:
  "digit_val CHR ''_'' = None" "digit_val CHR ''.'' = None" "digit_val CHR ''x'' = None" "digit_val CHR ''n'' = None"
  "digit_val CHR ''i'' = None" "digit_val CHR ''p'' = None" "digit_val CHR ''-'' = None" "digit_val CHR ''+'' = None"
  "digit_val CHR ''N'' = None" "digit_val CHR ''I'' = None" "digit_val CHR ''X'' = None" "digit_val CHR 0x0A = None"
  by (simp_all add: digit_val_def)

lemma digit_not_space: "is_digit c \<Longrightarrow> \<not> is_space c"
  by (auto simp: is_space_def digit_val_def)

lemma lower_digit: "is_digit c \<Longrightarrow> lower c = c"
  by (auto simp: lower_def digit_val_def Let_def split: if_splits)

lemma parse_digits_all: "parse_digits acc s = Some v \<Longrightarrow> \<forall>c \<in> set s. is_digit c"
  by (induction acc s rule: parse_digits.induct) (auto split: option.splits)

lemma digits_only: "c \<in> set (show_nat n) \<Longrightarrow> is_digit c"
  using parse_digits_all [OF parse_show_nat] by blast

lemma show_nat_Cons:
  obtains c cs where "show_nat n = c # cs" "is_digit c"
  using digits_only [of "hd (show_nat n)" n] by (cases "show_nat n") auto

lemma mantissa_digits:
  "parse_digits acc s = Some v \<Longrightarrow> mantissa False False b acc 0 s = (b \<or> s \<noteq> [], v, 0, [])"
proof (induction acc s arbitrary: b rule: parse_digits.induct)
  case (2 acc c cs)
  then obtain d where d: "digit_val c = Some d" "parse_digits (10 * acc + d) cs = Some v" by (auto split: option.splits)
  then have "c \<noteq> CHR ''_''" "c \<noteq> CHR ''.''" by auto
  with 2(1) [OF d] d show ?case by simp
qed simp

lemma show_nat_not_hex: "\<not> is_hex (show_nat n)"
proof
  assume h: "is_hex (show_nat n)"
  then have "is_digit (show_nat n ! 1)" by (intro digits_only [of _ n]) (simp add: is_hex_def)
  then show False using h by (simp add: is_hex_def lower_digit)
qed

lemma parse_number_nat: "round64 (of_nat n) = Fin x \<Longrightarrow> parse_number (show_nat n) = Some (Fin x)"
proof -
  assume "round64 (of_nat n) = Fin x"
  moreover have "CHR ''_'' \<notin> set (show_nat n)" using digits_only [of "CHR ''_''" n] by auto
  moreover have "mantissa False False False 0 0 (show_nat n) = (True, n, 0, [])"
    using mantissa_digits [OF parse_show_nat] by simp
  ultimately show ?thesis by (simp add: parse_number_def show_nat_not_hex exponent_part_def pow10_def)
qed

lemma parse_float_nat:
  assumes "round64 (of_nat n) = Fin x"
  shows "parse_float64 (show_nat n) = Some (Fin x)"
proof -
  obtain c cs where s: "show_nat n = c # cs" "is_digit c" by (rule show_nat_Cons)
  then have "c \<noteq> CHR ''-''" "c \<noteq> CHR ''+''" "lower c \<noteq> CHR ''n''" "lower c \<noteq> CHR ''i''"
    by (auto simp: lower_digit)
  then show ?thesis using parse_number_nat [OF assms] by (simp add: parse_float64_def s)
qed

lemma accept_no: "r = [] \<or> hd r \<notin> set cs \<Longrightarrow> accept cs (tok, r) = (False, tok, r)"
  by (cases r) (auto simp: accept_def)

lemma accept_all_digits:
  assumes "set ds \<subseteq> set cs" and "r = [] \<or> hd r \<notin> set cs"
  shows "accept_all cs (tok, ds @ r) = (tok @ ds, r)"
  using assms by (cases r) (auto simp: accept_all_def takeWhile_append takeWhile_eq_Nil_iff dropWhile_append subset_iff)

text \<open>A character that ends the number.\<close>

definition ends_number :: "string \<Rightarrow> bool" where
  "ends_number r \<longleftrightarrow> r = [] \<or> hd r \<notin> set ''0123456789_.eEpPxX''"

lemma digits_accepted: "set s \<subseteq> set (show_nat n) \<Longrightarrow> set s \<subseteq> set ''0123456789_''"
  using digit_literal digits_only by fastforce

lemma ends_accept:
  "ends_number r \<Longrightarrow> accept ''.'' (tok, r) = (False, tok, r)" "ends_number r \<Longrightarrow> accept ''eEpP'' (tok, r) = (False, tok, r)"
  "ends_number r \<Longrightarrow> accept ''xX'' (tok, r) = (False, tok, r)"
  by (rule accept_no; auto simp: ends_number_def)+

lemma digit_accept_no:
  assumes "is_digit c"
  shows "accept ''xX'' (tok, c # r) = (False, tok, c # r)" "accept ''nN'' (tok, c # r) = (False, tok, c # r)"
    "accept ''iI'' (tok, c # r) = (False, tok, c # r)" "accept ''+-'' (tok, c # r) = (False, tok, c # r)"
  using assms by (auto simp: accept_def)

lemma hex_prefix_nat:
  assumes r: "ends_number r"
  obtains t1 t2 where "accept_word [''0'', ''xX''] ([], show_nat n @ r) = (False, t1, t2 @ r)" "t1 @ t2 = show_nat n"
proof -
  obtain c cs where s: "show_nat n = c # cs" "is_digit c" by (rule show_nat_Cons)
  show thesis
  proof (cases "c = CHR ''0''")
    case True
    have "accept ''xX'' (''0'', cs @ r) = (False, ''0'', cs @ r)"
    proof (cases cs)
      case (Cons d ds)
      then have "is_digit d" using digits_only [of d n] s by simp
      with Cons show ?thesis by (simp add: digit_accept_no)
    qed (simp add: ends_accept(3) [OF r])
    then show ?thesis using that [of "''0''" cs] by (simp add: s True accept_def)
  next
    case False
    then show ?thesis using that [of "[]" "show_nat n"] by (simp add: s accept_def)
  qed
qed

lemma number_token_nat:
  assumes r: "ends_number r"
  shows "number_token ([], show_nat n @ r) = show_nat n"
proof -
  obtain t1 t2 where t: "accept_word [''0'', ''xX''] ([], show_nat n @ r) = (False, t1, t2 @ r)" "t1 @ t2 = show_nat n"
    using hex_prefix_nat [OF r] by blast
  have "set t2 \<subseteq> set ''0123456789_''" by (rule digits_accepted [of _ n]) (simp add: t(2) [symmetric])
  moreover have "r = [] \<or> hd r \<notin> set ''0123456789_''" using r by (auto simp: ends_number_def)
  ultimately have "accept_all ''0123456789_'' (t1, t2 @ r) = (show_nat n, r)"
    using accept_all_digits t(2) by metis
  then show ?thesis using t(1) by (simp add: number_token_def ends_accept [OF r] del: accept_word.simps)
qed

lemma scan_float_nat:
  assumes r: "ends_number r" and "round64 (of_nat n) = Fin x"
  shows "scan_float (show_nat n @ r) = Some (Fin x)"
proof -
  obtain c cs where s: "show_nat n = c # cs" "is_digit c" by (rule show_nat_Cons)
  have "float_token (show_nat n @ r) = show_nat n"
    using number_token_nat [OF r, of n] s by (simp add: float_token_def digit_accept_no)
  moreover have "dropWhile (\<lambda>c. is_space c \<and> c \<noteq> CHR 0x0A) (show_nat n @ r) = show_nat n @ r"
    using s digit_not_space by simp
  moreover have "hd (show_nat n @ r) \<noteq> CHR 0x0A" using s by auto
  moreover have "CHR ''p'' \<notin> set (show_nat n)" using digits_only [of "CHR ''p''" n] by auto
  ultimately show ?thesis
    using parse_float_nat [OF assms(2)] by (simp add: scan_float_def convert_float_def)
qed

end
