(* ===== verification/Wallet_Config.thy ===== *)
theory Wallet_Config
  imports Config Go_Scan Publisher
begin

text \<open>
  \<^verbatim>\<open>internal/config.go\<close> of the wallet: \<^verbatim>\<open>LoadConfig\<close> with its helpers, and the connection string. Durations
  are in nanoseconds.
\<close>

record wallet_config =
  wc_app_port :: string
  wc_secret :: string
  wc_host :: string
  wc_port :: string
  wc_user :: string
  wc_password :: string
  wc_name :: string
  wc_sslmode :: string
  wc_exchanger_addr :: string
  wc_exchanger_timeout :: int
  wc_cache_ttl :: int
  wc_brokers :: string
  wc_topic :: string
  wc_threshold :: float64
  wc_retries :: int
  wc_backoff_ms :: int
  wc_timeout_ms :: int

definition parseDuration :: "string \<Rightarrow> int \<Rightarrow> int" where
  "parseDuration s default_val = (if s = [] then default_val
     else case parse_duration s of None \<Rightarrow> default_val | Some d \<Rightarrow> d)"

definition parseFloat :: "string \<Rightarrow> float64 \<Rightarrow> float64" where
  "parseFloat s default_val = (if s = [] then default_val
     else case scan_float s of None \<Rightarrow> default_val | Some f \<Rightarrow> f)"

definition wallet_parseInt :: "string \<Rightarrow> int \<Rightarrow> int" where
  "wallet_parseInt = parse_int"

datatype config_error = MissingSecret | MissingDbVars

text \<open>The literal at the beginning of \<^verbatim>\<open>LoadConfig\<close>.\<close>

definition env_config :: "environ \<Rightarrow> wallet_config" where
  "env_config env = \<lparr>wc_app_port = env ''APP_PORT'', wc_secret = env ''JWT_SECRET'', wc_host = env ''DB_HOST'',
     wc_port = env ''DB_PORT'', wc_user = env ''DB_USER'', wc_password = env ''DB_PASSWORD'',
     wc_name = env ''DB_NAME'', wc_sslmode = env ''DB_SSLMODE'', wc_exchanger_addr = env ''EXCHANGER_ADDR'',
     wc_exchanger_timeout = parseDuration (env ''EXCHANGER_TIMEOUT'') (2 * ns_per_s),
     wc_cache_ttl = parseDuration (env ''EXCHANGE_CACHE_TTL'') (10 * ns_per_s),
     wc_brokers = env ''KAFKA_BROKERS'', wc_topic = env ''KAFKA_TOPIC_LARGE_TRANSACTIONS'',
     wc_threshold = parseFloat (env ''LARGE_TRANSACTION_THRESHOLD'') (Fin 40000),
     wc_retries = wallet_parseInt (env ''KAFKA_PRODUCER_RETRIES'') 3,
     wc_backoff_ms = wallet_parseInt (env ''KAFKA_PRODUCER_BACKOFF_MS'') 200,
     wc_timeout_ms = wallet_parseInt (env ''KAFKA_PRODUCER_TIMEOUT_MS'') 2000\<rparr>"

definition LoadConfig :: "environ \<Rightarrow> config_error + wallet_config" where
  "LoadConfig env = (let cfg = env_config env;
     cfg = (if wc_topic cfg = [] then cfg\<lparr>wc_topic := ''large_transactions''\<rparr> else cfg);
     cfg = (if wc_app_port cfg = [] then cfg\<lparr>wc_app_port := ''8080''\<rparr> else cfg)
   in if wc_secret cfg = [] then Inl MissingSecret
     else if wc_host cfg = [] \<or> wc_port cfg = [] \<or> wc_user cfg = [] \<or> wc_name cfg = [] then Inl MissingDbVars
     else Inr (if wc_sslmode cfg = [] then cfg\<lparr>wc_sslmode := ''disable''\<rparr> else cfg))"

definition PostgresDSN :: "wallet_config \<Rightarrow> string" where
  "PostgresDSN c = postgres_url (wc_user c) (wc_password c) (wc_host c) (wc_port c) (wc_name c) (wc_sslmode c)"

section \<open>What a loaded configuration has\<close>

lemma env_config_sel [simp]:
  "wc_secret (env_config env) = env ''JWT_SECRET''" "wc_host (env_config env) = env ''DB_HOST''"
  "wc_port (env_config env) = env ''DB_PORT''" "wc_user (env_config env) = env ''DB_USER''"
  "wc_name (env_config env) = env ''DB_NAME''" "wc_exchanger_addr (env_config env) = env ''EXCHANGER_ADDR''"
  "wc_brokers (env_config env) = env ''KAFKA_BROKERS''"
  "wc_threshold (env_config env) = parseFloat (env ''LARGE_TRANSACTION_THRESHOLD'') (Fin 40000)"
  "wc_cache_ttl (env_config env) = parseDuration (env ''EXCHANGE_CACHE_TTL'') (10 * ns_per_s)"
  "wc_retries (env_config env) = wallet_parseInt (env ''KAFKA_PRODUCER_RETRIES'') 3"
  by (simp_all add: env_config_def)

lemma LoadConfig_fields:
  assumes "LoadConfig env = Inr c"
  shows "wc_secret c = env ''JWT_SECRET'' \<and> wc_secret c \<noteq> []" "wc_app_port c \<noteq> []" "wc_topic c \<noteq> []"
    "wc_host c \<noteq> [] \<and> wc_port c \<noteq> [] \<and> wc_user c \<noteq> [] \<and> wc_name c \<noteq> [] \<and> wc_sslmode c \<noteq> []"
    "wc_exchanger_addr c = env ''EXCHANGER_ADDR''" "wc_brokers c = env ''KAFKA_BROKERS''"
    "wc_threshold c = parseFloat (env ''LARGE_TRANSACTION_THRESHOLD'') (Fin 40000)"
    "wc_cache_ttl c = parseDuration (env ''EXCHANGE_CACHE_TTL'') (10 * ns_per_s)"
    "wc_retries c = wallet_parseInt (env ''KAFKA_PRODUCER_RETRIES'') 3"
  using assms by (auto simp: LoadConfig_def Let_def split: if_splits)

lemma LoadConfig_iff:
  "is_err (LoadConfig env) \<longleftrightarrow> env ''JWT_SECRET'' = [] \<or> env ''DB_HOST'' = [] \<or> env ''DB_PORT'' = [] \<or>
    env ''DB_USER'' = [] \<or> env ''DB_NAME'' = []"
  by (simp add: LoadConfig_def Let_def)

lemma parseDuration_parts:
  assumes "ps \<noteq> []" and "\<forall>(n, u) \<in> set ps. unit_ns u \<noteq> None" and "parts_ns ps < 2 ^ 63"
  shows "parseDuration (show_parts ps) d = int (parts_ns ps)"
  using parse_duration_show [OF assms] assms(1) by (cases ps) (auto simp: parseDuration_def show_parts_def)

lemma parseFloat_prefix:
  assumes "ends_number r" and "round64 (of_nat n) = Fin x"
  shows "parseFloat (show_nat n @ r) d = Fin x"
  using scan_float_nat [OF assms] by (simp add: parseFloat_def)

end
