(* ===== verification/Notification.thy ===== *)
theory Notification
  imports Publisher Go_Json
begin

text \<open>
  \<^verbatim>\<open>gw-notification\<close>: the consumer that stores the wallet's large transactions in MongoDB
  (\<^verbatim>\<open>internal/consumer/consumer.go\<close>, \<^verbatim>\<open>internal/storage/mongo/mongo.go\<close>, \<^verbatim>\<open>internal/model/event.go\<close>)
  and its health endpoint. The store is the collection with its unique index on \<open>transaction_id\<close> and
  the saved offsets; an insert may fail with or without having happened. A run of the consumer is the
  list of what its fetches return, each with what the saving of that message meets (\<open>save_env\<close>); the
  waits of one second between attempts have no other effect. Both modes are modelled: the consumer
  group, whose offset Kafka keeps (\<open>committed\<close>), and the simple reader, whose offset is in MongoDB.
\<close>

section \<open>model/event.go\<close>

definition event_zero :: large_tx_event where
  "event_zero = \<lparr>transaction_id = [], ev_user_id = 0, ev_type = [], ev_amount = Fin 0, ev_currency = [],
     ev_created_at = []\<rparr>"

definition event_fields :: "large_tx_event field list" where
  "event_fields =
    [(''transaction_id'', \<lambda>q v. map_option (\<lambda>s. q\<lparr>transaction_id := s\<rparr>) (dec_string (transaction_id q) v)),
     (''user_id'', \<lambda>q v. map_option (\<lambda>i. q\<lparr>ev_user_id := i\<rparr>) (dec_int64 (ev_user_id q) v)),
     (''type'', \<lambda>q v. map_option (\<lambda>s. q\<lparr>ev_type := s\<rparr>) (dec_string (ev_type q) v)),
     (''amount'', \<lambda>q v. map_option (\<lambda>x. q\<lparr>ev_amount := x\<rparr>) (dec_float (ev_amount q) v)),
     (''currency'', \<lambda>q v. map_option (\<lambda>s. q\<lparr>ev_currency := s\<rparr>) (dec_string (ev_currency q) v)),
     (''created_at'', \<lambda>q v. map_option (\<lambda>s. q\<lparr>ev_created_at := s\<rparr>) (dec_string (ev_created_at q) v))]"

definition unmarshal_event :: "json option \<Rightarrow> large_tx_event option" where
  "unmarshal_event = decode_body False event_fields event_zero"

text \<open>
  What \<^verbatim>\<open>json.Marshal\<close> writes for an event in the publisher; \<open>lit\<close> is the literal chosen for the
  amount, of which encoding/json promises that it reads back as the amount.
\<close>

definition marshal_event :: "rat \<Rightarrow> large_tx_event \<Rightarrow> json" where
  "marshal_event lit ev = JObj
    [(''transaction_id'', JStr (transaction_id ev)), (''user_id'', JInt (ev_user_id ev)),
     (''type'', JStr (ev_type ev)), (''amount'', JDec lit), (''currency'', JStr (ev_currency ev)),
     (''created_at'', JStr (ev_created_at ev))]"

section \<open>storage/mongo/mongo.go\<close>

datatype mongo_outcome = Acked | FailedBefore | FailedAfter

datatype mongo_error = DuplicateKey | MongoError

record mongo_store =
  docs :: "large_tx_event list"
  offsets :: "string \<rightharpoonup> int"

definition insert_doc :: "large_tx_event \<Rightarrow> mongo_store \<Rightarrow> (mongo_error + unit) \<times> mongo_store" where
  "insert_doc ev st =
    (if list_ex (\<lambda>d. transaction_id d = transaction_id ev) (docs st) then (Inl DuplicateKey, st)
     else (Inr (), st\<lparr>docs := docs st @ [ev]\<rparr>))"

definition InsertLargeTransaction ::
  "mongo_outcome \<Rightarrow> large_tx_event \<Rightarrow> mongo_store \<Rightarrow> (mongo_error + unit) \<times> mongo_store" where
  "InsertLargeTransaction out ev st = (case out of
      Acked \<Rightarrow> insert_doc ev st
    | FailedBefore \<Rightarrow> (Inl MongoError, st)
    | FailedAfter \<Rightarrow> (Inl MongoError, snd (insert_doc ev st)))"

definition offset_id :: "string \<Rightarrow> int \<Rightarrow> string" where
  "offset_id topic part = topic @ '':'' @ show_int part"

text \<open>\<open>ok\<close>: whether the query was answered.\<close>

definition GetConsumerOffset :: "bool \<Rightarrow> string \<Rightarrow> int \<Rightarrow> mongo_store \<Rightarrow> mongo_error + int" where
  "GetConsumerOffset ok topic part st =
    (if \<not> ok then Inl MongoError
     else Inr (case offsets st (offset_id topic part) of None \<Rightarrow> 0 | Some i \<Rightarrow> i))"

definition SetConsumerOffset ::
  "mongo_outcome \<Rightarrow> string \<Rightarrow> int \<Rightarrow> int \<Rightarrow> mongo_store \<Rightarrow> (mongo_error + unit) \<times> mongo_store" where
  "SetConsumerOffset out topic part i st =
    (let st' = st\<lparr>offsets := (offsets st)(offset_id topic part \<mapsto> i)\<rparr> in case out of
      Acked \<Rightarrow> (Inr (), st')
    | FailedBefore \<Rightarrow> (Inl MongoError, st)
    | FailedAfter \<Rightarrow> (Inl MongoError, st'))"

section \<open>consumer/consumer.go: saving one event\<close>

definition retryAttempts :: nat where "retryAttempts = 5"

record save_env =
  insert_out :: "nat \<Rightarrow> mongo_outcome"
  cancelled :: "nat \<Rightarrow> bool"
  wait_cancelled :: "nat \<Rightarrow> bool"
  commit_ok :: bool
  offset_out :: mongo_outcome

text \<open>The loop shared by the two modes, from \<open>attempt\<close> with \<open>n\<close> attempts left.\<close>

fun save_loop ::
  "save_env \<Rightarrow> large_tx_event \<Rightarrow> nat \<Rightarrow> nat \<Rightarrow> mongo_store \<Rightarrow> bool \<times> mongo_store" where
  "save_loop e ev attempt 0 st = (False, st)"
| "save_loop e ev attempt (Suc n) st =
    (if cancelled e attempt then (False, st)
     else (case InsertLargeTransaction (insert_out e attempt) ev st of
        (Inr _, st') \<Rightarrow> (True, st')
      | (Inl DuplicateKey, st') \<Rightarrow> (True, st')
      | (Inl MongoError, st') \<Rightarrow>
          if 0 < n \<and> wait_cancelled e attempt then (False, st')
          else save_loop e ev (attempt + 1) n st'))"

definition saveWithRetrySimple :: "save_env \<Rightarrow> large_tx_event \<Rightarrow> mongo_store \<Rightarrow> bool \<times> mongo_store" where
  "saveWithRetrySimple e ev st = save_loop e ev 0 retryAttempts st"

text \<open>\<^verbatim>\<open>CommitMessages\<close> moves the group's offset past the message when it succeeds.\<close>

definition saveWithRetry ::
  "save_env \<Rightarrow> large_tx_event \<Rightarrow> int \<Rightarrow> mongo_store \<times> int \<Rightarrow> bool \<times> (mongo_store \<times> int)" where
  "saveWithRetry e ev off s = (case s of (st, committed) \<Rightarrow>
     (case save_loop e ev 0 retryAttempts st of
        (True, st') \<Rightarrow> (True, (st', if commit_ok e then off + 1 else committed))
      | (False, st') \<Rightarrow> (False, (st', committed))))"

section \<open>consumer/consumer.go: the loops over messages\<close>

datatype fetched = Got int "json option" | FetchEOF | FetchError | FetchCancelled

fun runWithReader :: "(fetched \<times> save_env) list \<Rightarrow> mongo_store \<times> int \<Rightarrow> mongo_store \<times> int" where
  "runWithReader [] s = s"
| "runWithReader ((FetchCancelled, e) # fs) s = s"
| "runWithReader ((FetchEOF, e) # fs) s = s"
| "runWithReader ((FetchError, e) # fs) s = runWithReader fs s"
| "runWithReader ((Got off v, e) # fs) s = (case unmarshal_event v of
      None \<Rightarrow> runWithReader fs s
    | Some ev \<Rightarrow> runWithReader fs (snd (saveWithRetry e ev off s)))"

fun runWithReaderAndSaveOffset ::
  "string \<Rightarrow> int \<Rightarrow> (fetched \<times> save_env) list \<Rightarrow> mongo_store \<Rightarrow> mongo_store" where
  "runWithReaderAndSaveOffset topic part [] st = st"
| "runWithReaderAndSaveOffset topic part ((FetchCancelled, e) # fs) st = st"
| "runWithReaderAndSaveOffset topic part ((FetchEOF, e) # fs) st = st"
| "runWithReaderAndSaveOffset topic part ((FetchError, e) # fs) st =
     runWithReaderAndSaveOffset topic part fs st"
| "runWithReaderAndSaveOffset topic part ((Got off v, e) # fs) st = (case unmarshal_event v of
      None \<Rightarrow> runWithReaderAndSaveOffset topic part fs st
    | Some ev \<Rightarrow> (case saveWithRetrySimple e ev st of
        (False, st') \<Rightarrow> runWithReaderAndSaveOffset topic part fs st'
      | (True, st') \<Rightarrow> runWithReaderAndSaveOffset topic part fs
          (snd (SetConsumerOffset (offset_out e) topic part (off + 1) st'))))"

text \<open>Where the simple reader starts after a (re)connect; a failed query leaves it at the first offset.\<close>

definition start_offset :: "bool \<Rightarrow> string \<Rightarrow> mongo_store \<Rightarrow> int" where
  "start_offset ok topic st = (case GetConsumerOffset ok topic 0 st of
      Inl _ \<Rightarrow> 0 | Inr i \<Rightarrow> if 0 < i then i else 0)"

text \<open>A connection: what is fetched from there on until the reader is closed.\<close>

fun runSimpleConsumer ::
  "string \<Rightarrow> (bool \<times> (int \<Rightarrow> (fetched \<times> save_env) list)) list \<Rightarrow> mongo_store \<Rightarrow> mongo_store" where
  "runSimpleConsumer topic [] st = st"
| "runSimpleConsumer topic ((ok, conn) # cs) st =
     runSimpleConsumer topic cs (runWithReaderAndSaveOffset topic 0 (conn (start_offset ok topic st)) st)"

fun runGroupConsumer ::
  "(int \<Rightarrow> (fetched \<times> save_env) list) list \<Rightarrow> mongo_store \<times> int \<Rightarrow> mongo_store \<times> int" where
  "runGroupConsumer [] s = s"
| "runGroupConsumer (conn # cs) s = runGroupConsumer cs (runWithReader (conn (snd s)) s)"

section \<open>health/handler.go\<close>

text \<open>\<open>mongo\<close> is the ping's outcome, if there is a client; \<open>dial\<close> that of connecting to a broker.\<close>

definition health_ServeHTTP ::
  "string \<Rightarrow> string \<Rightarrow> bool option \<Rightarrow> string list \<Rightarrow> (string \<Rightarrow> bool) \<Rightarrow> nat \<times> (string \<times> string \<times> string) option" where
  "health_ServeHTTP meth path mongo brokers dial =
    (if meth \<noteq> ''GET'' \<or> path \<noteq> ''/health'' then (404, None)
     else let mongo_bad = (mongo = Some False);
              kafka_bad = (case brokers of [] \<Rightarrow> False | b # _ \<Rightarrow> \<not> dial b);
              degraded = mongo_bad \<or> kafka_bad;
              txt = (\<lambda>bad. if bad then ''error'' else ''ok'')
          in (if degraded then 503 else 200,
              Some (if degraded then ''degraded'' else ''ok'', txt mongo_bad, txt kafka_bad)))"

section \<open>The unique index\<close>

definition ids :: "mongo_store \<Rightarrow> string list" where
  "ids st = map transaction_id (docs st)"

definition store_ok :: "mongo_store \<Rightarrow> bool" where
  "store_ok st \<longleftrightarrow> distinct (ids st)"

lemma insert_doc_ids: "set (ids (snd (insert_doc ev st))) = insert (transaction_id ev) (set (ids st))"
  by (auto simp: insert_doc_def ids_def list_ex_iff) (metis image_eqI)

lemma InsertLargeTransaction_ok: "store_ok st \<Longrightarrow> store_ok (snd (InsertLargeTransaction out ev st))"
  by (cases out) (auto simp: InsertLargeTransaction_def insert_doc_def store_ok_def ids_def list_ex_iff)

lemma save_loop_invariant:
  assumes "I st" and "\<And>out st. I st \<Longrightarrow> I (snd (InsertLargeTransaction out ev st))"
  shows "I (snd (save_loop e ev k n st))"
  using assms(1)
proof (induction n arbitrary: k st)
  case (Suc n)
  obtain r st' where ins: "InsertLargeTransaction (insert_out e k) ev st = (r, st')" by fastforce
  have st': "I st'" using assms(2) [OF Suc.prems, of "insert_out e k"] ins by simp
  show ?case
    using Suc.prems st' Suc.IH [OF st', of "k + 1"] by (simp add: ins split: sum.split mongo_error.split)
qed simp

lemma save_loop_ok: "store_ok st \<Longrightarrow> store_ok (snd (save_loop e ev k n st))"
  by (rule save_loop_invariant [where I = store_ok]) (simp_all add: InsertLargeTransaction_ok)

lemma InsertLargeTransaction_ids:
  "set (ids st) \<subseteq> set (ids (snd (InsertLargeTransaction out ev st)))"
  "set (ids (snd (InsertLargeTransaction out ev st))) \<subseteq> insert (transaction_id ev) (set (ids st))"
  using insert_doc_ids [of ev st] by (cases out; auto simp: InsertLargeTransaction_def)+

lemma InsertLargeTransaction_done:
  "InsertLargeTransaction out ev st = (r, st') \<Longrightarrow> r \<noteq> Inl MongoError \<Longrightarrow> transaction_id ev \<in> set (ids st')"
  using insert_doc_ids [of ev st] by (cases out) (auto simp: InsertLargeTransaction_def)

lemma SetConsumerOffset_docs [simp]: "docs (snd (SetConsumerOffset out t p i st)) = docs st"
  by (cases out) (simp_all add: SetConsumerOffset_def Let_def)

lemma ids_cong: "docs st = docs st' \<Longrightarrow> ids st = ids st'"
  by (simp add: ids_def)

text \<open>An event counts as saved only once its document is there.\<close>

lemma save_loop_saved:
  "fst (save_loop e ev k n st) \<Longrightarrow> transaction_id ev \<in> set (ids (snd (save_loop e ev k n st)))"
proof (induction n arbitrary: k st)
  case (Suc n)
  obtain r st' where ins: "InsertLargeTransaction (insert_out e k) ev st = (r, st')" by fastforce
  show ?case
    using Suc.prems Suc.IH [of "k + 1" st'] InsertLargeTransaction_done [OF ins]
    by (auto simp: ins split: if_splits sum.splits mongo_error.splits)
qed simp

lemma save_loop_keeps: "set (ids st) \<subseteq> set (ids (snd (save_loop e ev k n st)))"
  by (rule save_loop_invariant [where I = "\<lambda>st'. set (ids st) \<subseteq> set (ids st')"])
    (simp, rule subset_trans [OF _ InsertLargeTransaction_ids(1)])

text \<open>The documents are those of before and at most the event.\<close>

lemma save_loop_adds:
  "set (ids (snd (save_loop e ev k n st))) \<subseteq> insert (transaction_id ev) (set (ids st))"
  by (rule save_loop_invariant [where I = "\<lambda>st'. set (ids st') \<subseteq> insert (transaction_id ev) (set (ids st))"])
    (auto dest!: subsetD [OF InsertLargeTransaction_ids(2)])

text \<open>One of the attempts gets through, and nobody cancels: the event is saved.\<close>

lemma save_loop_succeeds:
  assumes "k \<le> j" and "j < k + n" and "insert_out e j = Acked"
    and "\<And>i. k \<le> i \<Longrightarrow> i \<le> j \<Longrightarrow> \<not> cancelled e i \<and> \<not> wait_cancelled e i"
  shows "fst (save_loop e ev k n st)"
  using assms
proof (induction n arbitrary: k st)
  case (Suc n)
  have k: "\<not> cancelled e k" "\<not> wait_cancelled e k" using Suc.prems by auto
  show ?case
  proof (cases "k = j")
    case True
    then show ?thesis
      using k Suc.prems(3) by (auto simp: InsertLargeTransaction_def insert_doc_def)
  next
    case False
    have "fst (save_loop e ev (k + 1) n st')" for st'
      by (rule Suc.IH) (use Suc.prems False in auto)
    then show ?thesis using k by (auto split: prod.split sum.split mongo_error.split)
  qed
qed simp

text \<open>Every attempt fails before reaching the server: nothing is saved.\<close>

lemma save_loop_fails:
  assumes "\<And>i. k \<le> i \<Longrightarrow> i < k + n \<Longrightarrow> insert_out e i = FailedBefore"
  shows "save_loop e ev k n st = (False, st)"
  using assms
proof (induction n arbitrary: k)
  case (Suc n)
  have "save_loop e ev (k + 1) n st = (False, st)" by (rule Suc.IH) (use Suc.prems in auto)
  moreover have "insert_out e k = FailedBefore" using Suc.prems by auto
  ultimately show ?case by (simp add: InsertLargeTransaction_def)
qed simp

end
