(* ===== verification/Go_Net.thy ===== *)
theory Go_Net
  imports Go_Json
begin

text \<open>
  Two more pieces of Go's standard library: \<^verbatim>\<open>net.ParseIP\<close> (an address is its 16-byte form as a
  number) and the RFC 3339 time stamps that \<^verbatim>\<open>time.Time\<close> accepts in JSON (a time is nanoseconds since
  the Unix epoch; \<open>zero_time\<close> is Go's zero time, midnight of January 1 of year 1).
\<close>

section \<open>net.ParseIP\<close>

definition octet :: "string \<Rightarrow> int option" where
  "octet s = (if s = [] \<or> 3 < length s \<or> (1 < length s \<and> hd s = CHR ''0'') then None
     else (case parse_digits 0 s of None \<Rightarrow> None | Some n \<Rightarrow> if n \<le> 255 then Some (int n) else None))"

definition parse_ipv4 :: "string \<Rightarrow> int option" where
  "parse_ipv4 s = (case map octet (split_on (CHR ''.'') s) of
      [Some a, Some b, Some c, Some d] \<Rightarrow> Some (((a * 256 + b) * 256 + c) * 256 + d)
    | _ \<Rightarrow> None)"

definition hex_val :: "char \<Rightarrow> int option" where
  "hex_val c = (let n = of_char c in
     if 48 \<le> n \<and> n \<le> 57 then Some (n - 48)
     else if 97 \<le> n \<and> n \<le> 102 then Some (n - 87)
     else if 65 \<le> n \<and> n \<le> 70 then Some (n - 55) else None)"

fun hex_digits :: "int \<Rightarrow> string \<Rightarrow> int option" where
  "hex_digits acc [] = Some acc"
| "hex_digits acc (c # cs) = (case hex_val c of None \<Rightarrow> None | Some d \<Rightarrow> hex_digits (16 * acc + d) cs)"

definition hextet :: "string \<Rightarrow> int option" where
  "hextet s = (if s = [] \<or> 4 < length s then None else hex_digits 0 s)"

text \<open>The 16-bit groups of a colon-separated part; a dotted address may stand for its last two.\<close>

fun groups :: "string list \<Rightarrow> int list option" where
  "groups [] = Some []"
| "groups [g] = (if CHR ''.'' \<in> set g
     then (case parse_ipv4 g of None \<Rightarrow> None | Some v \<Rightarrow> Some [v div 65536, v mod 65536])
     else (case hextet g of None \<Rightarrow> None | Some x \<Rightarrow> Some [x]))"
| "groups (g # gs) = (case (hextet g, groups gs) of (Some x, Some xs) \<Rightarrow> Some (x # xs) | _ \<Rightarrow> None)"

text \<open>The text before and after the first \<open>::\<close>.\<close>

fun cut_ellipsis :: "string \<Rightarrow> (string \<times> string) option" where
  "cut_ellipsis (a # b # cs) = (if a = CHR '':'' \<and> b = CHR '':'' then Some ([], cs)
     else (case cut_ellipsis (b # cs) of None \<Rightarrow> None | Some (l, r) \<Rightarrow> Some (a # l, r)))"
| "cut_ellipsis _ = None"

definition part_groups :: "string \<Rightarrow> int list option" where
  "part_groups s = (if s = [] then Some [] else groups (split_on (CHR '':'') s))"

definition from_groups :: "int list \<Rightarrow> int" where
  "from_groups = foldl (\<lambda>acc g. acc * 65536 + g) 0"

definition parse_ipv6 :: "string \<Rightarrow> int option" where
  "parse_ipv6 s = (case cut_ellipsis s of
      None \<Rightarrow> (case groups (split_on (CHR '':'') s) of
          Some xs \<Rightarrow> if length xs = 8 then Some (from_groups xs) else None
        | None \<Rightarrow> None)
    | Some (l, r) \<Rightarrow> if CHR ''.'' \<in> set l then None else (case (part_groups l, part_groups r) of
          (Some xs, Some ys) \<Rightarrow> if length xs + length ys \<le> 7
            then Some (from_groups (xs @ replicate (8 - length xs - length ys) 0 @ ys)) else None
        | _ \<Rightarrow> None))"

definition parse_ip :: "string \<Rightarrow> int option" where
  "parse_ip s = (case dropWhile (\<lambda>c. c \<noteq> CHR ''.'' \<and> c \<noteq> CHR '':'') s of
      [] \<Rightarrow> None
    | c # _ \<Rightarrow> if c = CHR ''.'' then map_option (\<lambda>v. 65535 * 2 ^ 32 + v) (parse_ipv4 s) else parse_ipv6 s)"

section \<open>time.Time in JSON\<close>

text \<open>Days since 1970-01-01 of a date of the proleptic Gregorian calendar.\<close>

definition days_of_civil :: "int \<Rightarrow> int \<Rightarrow> int \<Rightarrow> int" where
  "days_of_civil y m d = (let y' = (if m \<le> 2 then y - 1 else y); era = y' div 400; yoe = y' mod 400;
     mp = (if 2 < m then m - 3 else m + 9); doy = (153 * mp + 2) div 5 + d - 1;
     doe = yoe * 365 + yoe div 4 - yoe div 100 + doy
   in era * 146097 + doe - 719468)"

definition days_in :: "int \<Rightarrow> int \<Rightarrow> int" where
  "days_in y m = (if m = 2 then (if y mod 4 = 0 \<and> (y mod 100 \<noteq> 0 \<or> y mod 400 = 0) then 29 else 28)
     else if m \<in> {4, 6, 9, 11} then 30 else 31)"

definition ns_per_day :: int where "ns_per_day = 86400 * ns_per_s"

definition zero_time :: int where "zero_time = days_of_civil 1 1 1 * ns_per_day"

text \<open>\<open>number w s\<close>: the first \<open>w\<close> characters as a number, and the rest.\<close>

definition number :: "nat \<Rightarrow> string \<Rightarrow> (int \<times> string) option" where
  "number w s = (if length s < w then None else
     (case parse_digits 0 (take w s) of None \<Rightarrow> None | Some n \<Rightarrow> Some (int n, drop w s)))"

definition expect :: "char \<Rightarrow> string \<Rightarrow> string option" where
  "expect c s = (case s of [] \<Rightarrow> None | x # xs \<Rightarrow> if x = c then Some xs else None)"

text \<open>A fraction: a dot and digits, of which nine count.\<close>

definition fraction :: "string \<Rightarrow> (int \<times> string) option" where
  "fraction s = (case s of
      [] \<Rightarrow> Some (0, [])
    | c # cs \<Rightarrow> if c \<noteq> CHR ''.'' then Some (0, s)
        else (let ds = takeWhile (\<lambda>x. digit_val x \<noteq> None) cs; ds' = take 9 (ds @ replicate 9 (CHR ''0''))
              in if ds = [] then None
                 else (case parse_digits 0 ds' of None \<Rightarrow> None | Some n \<Rightarrow> Some (int n, drop (length ds) cs))))"

definition zone :: "string \<Rightarrow> int option" where
  "zone s = (if s = ''Z'' then Some 0 else (case s of
      [] \<Rightarrow> None
    | c # cs \<Rightarrow> if c \<noteq> CHR ''+'' \<and> c \<noteq> CHR ''-'' then None else
        Option.bind (number 2 cs) (\<lambda>(h, r). Option.bind (expect (CHR '':'') r) (\<lambda>r. Option.bind (number 2 r) (\<lambda>(m, r).
          if r \<noteq> [] \<or> 23 < h \<or> 59 < m then None
          else Some (if c = CHR ''-'' then - (h * 60 + m) else h * 60 + m))))))"

definition parse_rfc3339 :: "string \<Rightarrow> int option" where
  "parse_rfc3339 s =
    Option.bind (number 4 s) (\<lambda>(y, s). Option.bind (expect (CHR ''-'') s) (\<lambda>s.
    Option.bind (number 2 s) (\<lambda>(mo, s). Option.bind (expect (CHR ''-'') s) (\<lambda>s.
    Option.bind (number 2 s) (\<lambda>(d, s). Option.bind (expect (CHR ''T'') s) (\<lambda>s.
    Option.bind (number 2 s) (\<lambda>(h, s). Option.bind (expect (CHR '':'') s) (\<lambda>s.
    Option.bind (number 2 s) (\<lambda>(mi, s). Option.bind (expect (CHR '':'') s) (\<lambda>s.
    Option.bind (number 2 s) (\<lambda>(sec, s). Option.bind (fraction s) (\<lambda>(fr, s). Option.bind (zone s) (\<lambda>z.
      if mo < 1 \<or> 12 < mo \<or> d < 1 \<or> days_in y mo < d \<or> 23 < h \<or> 59 < mi \<or> 59 < sec then None
      else Some ((((days_of_civil y mo d * 24 + h) * 60 + mi - z) * 60 + sec) * ns_per_s + fr))))))))))))))"

fun dec_time :: "int \<Rightarrow> json \<Rightarrow> int option" where
  "dec_time old JNull = Some old"
| "dec_time old (JStr s) = parse_rfc3339 s"
| "dec_time old _ = None"

end
