(* ===== verification/Aggregator.thy ===== *)
theory Aggregator
  imports Go_Net Config
begin

text \<open>
  \<^verbatim>\<open>pv-aggregator\<close>: Kafka page views into ClickHouse. \<^verbatim>\<open>model/event.go\<close> and the validation and conversion
  of an event; \<^verbatim>\<open>agg/buffer.go\<close>; \<^verbatim>\<open>dlq/producer.go\<close>; the ClickHouse repository; and the consumer with its
  retry loops, its flush and its dead-letter path. The outside world of an operation is an argument:
  what each attempt meets. A batch insert may fail with or without having happened.
\<close>

section \<open>model/event.go and validation\<close>

record page_view =
  pv_event_id :: string
  pv_page_id :: string
  pv_user_id :: string
  pv_duration :: int
  pv_timestamp :: int
  pv_user_agent :: string
  pv_ip :: string
  pv_region :: string
  pv_bounce :: bool

definition page_view_zero :: page_view where
  "page_view_zero = \<lparr>pv_event_id = [], pv_page_id = [], pv_user_id = [], pv_duration = 0, pv_timestamp = zero_time,
     pv_user_agent = [], pv_ip = [], pv_region = [], pv_bounce = False\<rparr>"

definition page_view_fields :: "page_view field list" where
  "page_view_fields =
    [(''event_id'', \<lambda>q v. map_option (\<lambda>s. q\<lparr>pv_event_id := s\<rparr>) (dec_string (pv_event_id q) v)),
     (''page_id'', \<lambda>q v. map_option (\<lambda>s. q\<lparr>pv_page_id := s\<rparr>) (dec_string (pv_page_id q) v)),
     (''user_id'', \<lambda>q v. map_option (\<lambda>s. q\<lparr>pv_user_id := s\<rparr>) (dec_string (pv_user_id q) v)),
     (''view_duration_ms'', \<lambda>q v. map_option (\<lambda>i. q\<lparr>pv_duration := i\<rparr>) (dec_int64 (pv_duration q) v)),
     (''timestamp'', \<lambda>q v. map_option (\<lambda>i. q\<lparr>pv_timestamp := i\<rparr>) (dec_time (pv_timestamp q) v)),
     (''user_agent'', \<lambda>q v. map_option (\<lambda>s. q\<lparr>pv_user_agent := s\<rparr>) (dec_string (pv_user_agent q) v)),
     (''ip_address'', \<lambda>q v. map_option (\<lambda>s. q\<lparr>pv_ip := s\<rparr>) (dec_string (pv_ip q) v)),
     (''region'', \<lambda>q v. map_option (\<lambda>s. q\<lparr>pv_region := s\<rparr>) (dec_string (pv_region q) v)),
     (''is_bounce'', \<lambda>q v. map_option (\<lambda>b. q\<lparr>pv_bounce := b\<rparr>) (dec_bool (pv_bounce q) v))]"

definition ParsePageViewEvent :: "json option \<Rightarrow> page_view option" where
  "ParsePageViewEvent = decode_body False page_view_fields page_view_zero"

definition parseAndValidate :: "json option \<Rightarrow> string + page_view" where
  "parseAndValidate data = (case ParsePageViewEvent data of
      None \<Rightarrow> Inl ''json parse''
    | Some ev \<Rightarrow>
        if pv_page_id ev = [] then Inl ''empty page_id''
        else if pv_user_id ev = [] then Inl ''empty user_id''
        else if pv_duration ev \<le> 0 then Inl ''duration <= 0''
        else if pv_timestamp ev = zero_time then Inl ''zero timestamp''
        else Inr ev)"

text \<open>What the validation asks of an event.\<close>

definition valid_view :: "page_view \<Rightarrow> bool" where
  "valid_view ev \<longleftrightarrow> pv_page_id ev \<noteq> [] \<and> pv_user_id ev \<noteq> [] \<and> 0 < pv_duration ev \<and> pv_timestamp ev \<noteq> zero_time"

lemma parseAndValidate_iff:
  "parseAndValidate data = Inr ev \<longleftrightarrow> ParsePageViewEvent data = Some ev \<and> valid_view ev"
  by (auto simp: parseAndValidate_def valid_view_def split: option.splits if_splits)

section \<open>clickhouse/repo.go: the row of an event\<close>

record page_view_row =
  row_date :: int
  row_time :: int
  row_page :: string
  row_user :: string
  row_duration_ms :: int
  row_agent :: string
  row_ip :: int
  row_region :: string
  row_bounce :: int
  row_offset :: int
  row_partition :: int
  row_processed :: int

definition ConvertEventToRow :: "int \<Rightarrow> page_view \<Rightarrow> int \<Rightarrow> int \<Rightarrow> page_view_row" where
  "ConvertEventToRow now ev off part =
    (let t = (if pv_timestamp ev = zero_time then now else pv_timestamp ev);
         ip = (case parse_ip (pv_ip ev) of None \<Rightarrow> 0 | Some v \<Rightarrow> v)
     in \<lparr>row_date = t div ns_per_day * ns_per_day, row_time = t, row_page = pv_page_id ev,
         row_user = pv_user_id ev, row_duration_ms = wrap32u (pv_duration ev), row_agent = pv_user_agent ev,
         row_ip = ip, row_region = pv_region ev,
         row_bounce = (if pv_bounce ev \<or> pv_duration ev < 5000 then 1 else 0),
         row_offset = off, row_partition = part, row_processed = now\<rparr>)"

section \<open>Messages and the buffer (agg/buffer.go)\<close>

record kafka_msg =
  msg_partition :: int
  msg_offset :: int
  msg_value :: "json option"

type_synonym buffered = "kafka_msg \<times> page_view_row"

record buffer =
  buf_messages :: "buffered list"
  buf_max :: int
  buf_ticker :: bool
  buf_signal :: bool

definition NewBuffer :: "int \<Rightarrow> int \<Rightarrow> buffer go_result" where
  "NewBuffer maxSize flushInterval = (if maxSize < 0 then Panic
     else Done \<lparr>buf_messages = [], buf_max = maxSize, buf_ticker = (0 < flushInterval), buf_signal = False\<rparr>)"

text \<open>
  \<open>buf_ticker\<close> says that there is a flush ticker: the interval was positive. \<open>buf_signal\<close> is
  the flush channel of capacity one: sending to a full one is dropped.
\<close>

definition buf_Add :: "buffered \<Rightarrow> buffer \<Rightarrow> bool \<times> buffer" where
  "buf_Add m b = (let b' = b\<lparr>buf_messages := buf_messages b @ [m]\<rparr>;
       shouldFlush = (buf_max b' \<le> int (length (buf_messages b')))
     in (shouldFlush, if shouldFlush then b'\<lparr>buf_signal := True\<rparr> else b'))"

definition buf_GetAndClear :: "buffer \<Rightarrow> buffered list \<times> buffer" where
  "buf_GetAndClear b = (if buf_messages b = [] then ([], b) else (buf_messages b, b\<lparr>buf_messages := []\<rparr>))"

definition buf_PutBack :: "buffered list \<Rightarrow> buffer \<Rightarrow> buffer" where
  "buf_PutBack ms b = (if ms = [] then b else b\<lparr>buf_messages := ms @ buf_messages b\<rparr>)"

definition buf_Size :: "buffer \<Rightarrow> nat" where
  "buf_Size b = length (buf_messages b)"

section \<open>dlq/producer.go\<close>

definition NewDlqProducer :: "string \<Rightarrow> string \<Rightarrow> bool \<Rightarrow> string list option" where
  "NewDlqProducer brokers topic enabled =
    (if \<not> enabled \<or> brokers = [] \<or> topic = [] then None
     else let trimmed = trimmed_nonempty (split_on (CHR '','') brokers)
       in if trimmed = [] then None else Some trimmed)"

record dlq_msg =
  dlq_value :: "json option"
  dlq_offset :: string
  dlq_partition :: string
  dlq_page_id :: string

section \<open>The consumer's state\<close>

record metrics =
  m_consumed :: int
  m_inserted :: int
  m_dlq :: int
  m_ch_errors :: int
  m_last_flush :: int

definition RecordConsumed :: "metrics \<Rightarrow> metrics" where
  "RecordConsumed m = m\<lparr>m_consumed := wrap64 (m_consumed m + 1)\<rparr>"
definition RecordInserted :: "int \<Rightarrow> metrics \<Rightarrow> metrics" where
  "RecordInserted n m = m\<lparr>m_inserted := wrap64 (m_inserted m + n)\<rparr>"
definition RecordDLQ :: "metrics \<Rightarrow> metrics" where
  "RecordDLQ m = m\<lparr>m_dlq := wrap64 (m_dlq m + 1)\<rparr>"
definition RecordCHError :: "metrics \<Rightarrow> metrics" where
  "RecordCHError m = m\<lparr>m_ch_errors := wrap64 (m_ch_errors m + 1)\<rparr>"
definition RecordFlush :: "int \<Rightarrow> metrics \<Rightarrow> metrics" where
  "RecordFlush now m = m\<lparr>m_last_flush := now\<rparr>"

text \<open>
  The consumer with what it writes to: \<open>table\<close> is \<^verbatim>\<open>page_views_raw\<close>, \<open>errors\<close> is \<^verbatim>\<open>processing_errors\<close>
  (message, reason), \<open>dlq\<close> the dead-letter topic, \<open>group_offset\<close> the group's committed offset per partition.
\<close>

record consumer =
  c_buffer :: buffer
  c_metrics :: metrics
  c_dlq_enabled :: bool
  c_table :: "page_view_row list"
  c_errors :: "(kafka_msg \<times> string) list"
  c_dlq :: "dlq_msg list"
  c_group_offset :: "int \<Rightarrow> int"

definition NewConsumer ::
  "aggregator_config \<Rightarrow> buffer \<Rightarrow> string list option \<Rightarrow> page_view_row list \<Rightarrow> (kafka_msg \<times> string) list \<Rightarrow>
   dlq_msg list \<Rightarrow> (int \<Rightarrow> int) \<Rightarrow> consumer option" where
  "NewConsumer cfg b dlq rows errs dead offs = (if aggregator_brokers cfg = [] then None
     else Some \<lparr>c_buffer = b, c_metrics = \<lparr>m_consumed = 0, m_inserted = 0, m_dlq = 0, m_ch_errors = 0, m_last_flush = zero_time\<rparr>,
       c_dlq_enabled = (dlq \<noteq> None), c_table = rows, c_errors = errs, c_dlq = dead, c_group_offset = offs\<rparr>)"

definition consumer_GetStats :: "metrics \<Rightarrow> int \<times> int \<times> int \<times> int \<times> int" where
  "consumer_GetStats m = (m_consumed m, m_inserted m, m_dlq m, m_ch_errors m, m_last_flush m)"

definition aggregator_HandleMetrics :: "string \<Rightarrow> consumer \<Rightarrow> nat \<times> (int \<times> int \<times> int \<times> int \<times> int) option" where
  "aggregator_HandleMetrics meth c = (if meth \<noteq> ''GET'' then (405, None) else (200, Some (consumer_GetStats (c_metrics c))))"

definition aggregator_HandleHealth :: "string \<Rightarrow> nat \<times> string option" where
  "aggregator_HandleHealth meth = (if meth \<noteq> ''GET'' then (405, None) else (200, Some ''ok''))"

datatype outcome = Acked | FailedBefore | FailedAfter

text \<open>Committing messages moves the offset of each partition past the highest of them.\<close>

definition commit_msgs :: "kafka_msg list \<Rightarrow> (int \<Rightarrow> int) \<Rightarrow> int \<Rightarrow> int" where
  "commit_msgs ms g = (\<lambda>p. let offs = map msg_offset (filter (\<lambda>m. msg_partition m = p) ms)
     in if offs = [] then g p else Max (set offs) + 1)"

definition CommitMessages :: "bool \<Rightarrow> kafka_msg list \<Rightarrow> consumer \<Rightarrow> consumer" where
  "CommitMessages ok ms c = (if ok then c\<lparr>c_group_offset := commit_msgs ms (c_group_offset c)\<rparr> else c)"

section \<open>Inserting and flushing\<close>

definition InsertRawBatch :: "outcome \<Rightarrow> page_view_row list \<Rightarrow> consumer \<Rightarrow> bool \<times> consumer" where
  "InsertRawBatch out rows c = (let c' = c\<lparr>c_table := c_table c @ rows\<rparr> in case out of
      Acked \<Rightarrow> (True, c') | FailedBefore \<Rightarrow> (False, c) | FailedAfter \<Rightarrow> (False, c'))"

definition insert_max_attempts :: nat where "insert_max_attempts = 5"

text \<open>From \<open>attempt\<close> with \<open>n\<close> left; \<open>stop k\<close>: the context is done while waiting before attempt \<open>k\<close>.\<close>

fun insert_loop ::
  "(nat \<Rightarrow> outcome) \<Rightarrow> (nat \<Rightarrow> bool) \<Rightarrow> page_view_row list \<Rightarrow> nat \<Rightarrow> nat \<Rightarrow> consumer \<Rightarrow> bool \<times> consumer" where
  "insert_loop out stop rows k 0 c = (False, c)"
| "insert_loop out stop rows k (Suc n) c =
    (if 0 < k \<and> stop k then (False, c)
     else (case InsertRawBatch (out k) rows c of
        (True, c') \<Rightarrow> (True, c')
      | (False, c') \<Rightarrow> insert_loop out stop rows (k + 1) n c'))"

definition insertWithRetry ::
  "(nat \<Rightarrow> outcome) \<Rightarrow> (nat \<Rightarrow> bool) \<Rightarrow> page_view_row list \<Rightarrow> consumer \<Rightarrow> bool \<times> consumer" where
  "insertWithRetry out stop rows c = insert_loop out stop rows 0 insert_max_attempts c"

record flush_env =
  fl_out :: "nat \<Rightarrow> outcome"
  fl_stop :: "nat \<Rightarrow> bool"
  fl_commit_ok :: bool
  fl_now :: int

text \<open>
  \<^verbatim>\<open>flush\<close> in its two halves, which other steps may separate: taking the messages out of the buffer, and
  all that follows.
\<close>

definition flush_take :: "consumer \<Rightarrow> buffered list \<times> consumer" where
  "flush_take c = (case buf_GetAndClear (c_buffer c) of (ms, b) \<Rightarrow> (ms, c\<lparr>c_buffer := b\<rparr>))"

definition flush_finish :: "flush_env \<Rightarrow> buffered list \<Rightarrow> consumer \<Rightarrow> consumer" where
  "flush_finish e ms c =
    (if ms = [] then c
     else (case insertWithRetry (fl_out e) (fl_stop e) (map snd ms) c of
        (False, c') \<Rightarrow> c'\<lparr>c_metrics := RecordCHError (c_metrics c'), c_buffer := buf_PutBack ms (c_buffer c')\<rparr>
      | (True, c') \<Rightarrow>
          if \<not> fl_commit_ok e then CommitMessages False (map fst ms) c'
          else (let c'' = CommitMessages True (map fst ms) c'
            in c''\<lparr>c_metrics := RecordFlush (fl_now e) (RecordInserted (int (length ms)) (c_metrics c''))\<rparr>)))"

definition flush :: "flush_env \<Rightarrow> consumer \<Rightarrow> consumer" where
  "flush e c = (case flush_take c of (ms, c') \<Rightarrow> flush_finish e ms c')"

section \<open>The dead-letter path\<close>

definition dlq_Send :: "outcome \<Rightarrow> kafka_msg \<Rightarrow> consumer \<Rightarrow> bool \<times> consumer" where
  "dlq_Send out m c =
    (if \<not> c_dlq_enabled c then (True, c)
     else let d = \<lparr>dlq_value = msg_value m, dlq_offset = show_int (msg_offset m),
              dlq_partition = show_int (msg_partition m), dlq_page_id = []\<rparr>;
              c' = c\<lparr>c_dlq := c_dlq c @ [d]\<rparr>
       in case out of Acked \<Rightarrow> (True, c') | FailedBefore \<Rightarrow> (False, c) | FailedAfter \<Rightarrow> (False, c'))"

definition InsertError :: "outcome \<Rightarrow> kafka_msg \<Rightarrow> string \<Rightarrow> consumer \<Rightarrow> bool \<times> consumer" where
  "InsertError out m reason c = (let c' = c\<lparr>c_errors := c_errors c @ [(m, reason)]\<rparr> in case out of
      Acked \<Rightarrow> (True, c') | FailedBefore \<Rightarrow> (False, c) | FailedAfter \<Rightarrow> (False, c'))"

text \<open>\<open>out\<close> gives the outcomes of the send and of the insert.\<close>

definition handleError :: "outcome \<times> outcome \<Rightarrow> kafka_msg \<Rightarrow> string \<Rightarrow> consumer \<Rightarrow> bool \<times> consumer" where
  "handleError out m reason c = (case dlq_Send (fst out) m c of
      (False, c1) \<Rightarrow> (False, c1)
    | (True, c1) \<Rightarrow> (case InsertError (snd out) m reason c1 of
        (False, c2) \<Rightarrow> (False, c2)
      | (True, c2) \<Rightarrow> (True, c2\<lparr>c_metrics := RecordDLQ (c_metrics c2)\<rparr>)))"

definition dlq_max_attempts :: nat where "dlq_max_attempts = 10"

fun error_loop ::
  "(nat \<Rightarrow> outcome \<times> outcome) \<Rightarrow> (nat \<Rightarrow> bool) \<Rightarrow> kafka_msg \<Rightarrow> string \<Rightarrow> nat \<Rightarrow> nat \<Rightarrow> consumer \<Rightarrow> bool \<times> consumer" where
  "error_loop out stop m reason k 0 c = (False, c)"
| "error_loop out stop m reason k (Suc n) c =
    (if 0 < k \<and> stop k then (False, c)
     else (case handleError (out k) m reason c of
        (True, c') \<Rightarrow> (True, c')
      | (False, c') \<Rightarrow> error_loop out stop m reason (k + 1) n c'))"

definition handleErrorWithRetry ::
  "(nat \<Rightarrow> outcome \<times> outcome) \<Rightarrow> (nat \<Rightarrow> bool) \<Rightarrow> kafka_msg \<Rightarrow> string \<Rightarrow> consumer \<Rightarrow> bool \<times> consumer" where
  "handleErrorWithRetry out stop m reason c = error_loop out stop m reason 0 dlq_max_attempts c"

text \<open>
  The loop around it runs until a round succeeds or the context is done: one environment per round, the end
  of the list is the cancellation (result \<open>False\<close>: \<^verbatim>\<open>Run\<close> returns).
\<close>

type_synonym error_round = "(nat \<Rightarrow> outcome \<times> outcome) \<times> (nat \<Rightarrow> bool)"

fun error_rounds :: "error_round list \<Rightarrow> kafka_msg \<Rightarrow> string \<Rightarrow> consumer \<Rightarrow> bool \<times> consumer" where
  "error_rounds [] m reason c = (False, c)"
| "error_rounds (r # rs) m reason c = (case handleErrorWithRetry (fst r) (snd r) m reason c of
      (True, c') \<Rightarrow> (True, c')
    | (False, c') \<Rightarrow> error_rounds rs m reason c')"

section \<open>One message of Run\<close>

record msg_env =
  me_now :: int
  me_rounds :: "error_round list"
  me_commit_ok :: bool
  me_flush :: flush_env

text \<open>The result says whether the loop goes on.\<close>

definition run_message :: "msg_env \<Rightarrow> kafka_msg \<Rightarrow> consumer \<Rightarrow> bool \<times> consumer" where
  "run_message e m c0 = (let c = c0\<lparr>c_metrics := RecordConsumed (c_metrics c0)\<rparr> in
    (case parseAndValidate (msg_value m) of
       Inl reason \<Rightarrow> (case error_rounds (me_rounds e) m reason c of
           (False, c') \<Rightarrow> (False, c')
         | (True, c') \<Rightarrow> (True, CommitMessages (me_commit_ok e) [m] c'))
     | Inr ev \<Rightarrow>
         (let row = ConvertEventToRow (me_now e) ev (msg_offset m) (msg_partition m);
              (shouldFlush, b) = buf_Add (m, row) (c_buffer c);
              c' = c\<lparr>c_buffer := b\<rparr>
          in (True, if shouldFlush then flush (me_flush e) c' else c'))))"

text \<open>
  A run: messages in the order they are fetched, and in between the flush loop's flushes, on its ticker or
  on the buffer's signal (which it consumes). Without a ticker there is no flush loop.
\<close>

definition on_tick :: "flush_env \<Rightarrow> consumer \<Rightarrow> consumer" where
  "on_tick e c = (if buf_ticker (c_buffer c) then flush e c else c)"

text \<open>\<^verbatim>\<open>Close\<close> flushes what is left.\<close>

definition consumer_Close :: "flush_env \<Rightarrow> consumer \<Rightarrow> consumer" where
  "consumer_Close e c = flush e c"

datatype agg_event = Fetched kafka_msg msg_env | Tick flush_env | Signal flush_env

definition on_signal :: "flush_env \<Rightarrow> consumer \<Rightarrow> consumer" where
  "on_signal e c = (if buf_ticker (c_buffer c) \<and> buf_signal (c_buffer c) then flush e (c\<lparr>c_buffer := (c_buffer c)\<lparr>buf_signal := False\<rparr>\<rparr>) else c)"

fun run_events :: "agg_event list \<Rightarrow> consumer \<Rightarrow> consumer" where
  "run_events [] c = c"
| "run_events (Tick e # es) c = run_events es (on_tick e c)"
| "run_events (Signal e # es) c = run_events es (on_signal e c)"
| "run_events (Fetched m e # es) c = (case run_message e m c of
      (True, c') \<Rightarrow> run_events es c' | (False, c') \<Rightarrow> c')"

section \<open>Facts about the loops\<close>

lemma insert_loop_keeps:
  "c_buffer (snd (insert_loop out stop rows k n c)) = c_buffer c \<and>
   c_group_offset (snd (insert_loop out stop rows k n c)) = c_group_offset c \<and>
   set (c_table c) \<subseteq> set (c_table (snd (insert_loop out stop rows k n c)))"
proof (induction n arbitrary: k c)
  case (Suc n)
  show ?case
    using Suc.IH [of "k + 1" "c\<lparr>c_table := c_table c @ rows\<rparr>"] Suc.IH [of "k + 1" c]
    by (cases "out k") (auto simp: InsertRawBatch_def Let_def)
qed simp

lemma insert_loop_inserted:
  "fst (insert_loop out stop rows k n c) \<Longrightarrow> set rows \<subseteq> set (c_table (snd (insert_loop out stop rows k n c)))"
proof (induction n arbitrary: k c)
  case (Suc n)
  then show ?case by (cases "out k") (auto simp: InsertRawBatch_def Let_def split: if_splits)
qed simp

lemma handleError_keeps:
  "c_buffer (snd (handleError out m reason c)) = c_buffer c \<and>
   c_table (snd (handleError out m reason c)) = c_table c \<and>
   c_group_offset (snd (handleError out m reason c)) = c_group_offset c \<and>
   c_dlq_enabled (snd (handleError out m reason c)) = c_dlq_enabled c"
  by (cases "fst out"; cases "snd out") (auto simp: handleError_def dlq_Send_def InsertError_def Let_def)

definition reported :: "kafka_msg \<Rightarrow> string \<Rightarrow> consumer \<Rightarrow> bool" where
  "reported m reason c \<longleftrightarrow> (m, reason) \<in> set (c_errors c) \<and>
     (c_dlq_enabled c \<longrightarrow> (\<exists>d \<in> set (c_dlq c). dlq_value d = msg_value m \<and>
        dlq_offset d = show_int (msg_offset m) \<and> dlq_partition d = show_int (msg_partition m)))"

lemma handleError_reports: "fst (handleError out m reason c) \<Longrightarrow> reported m reason (snd (handleError out m reason c))"
  by (cases "fst out"; cases "snd out")
    (auto simp: handleError_def dlq_Send_def InsertError_def Let_def reported_def)

lemma error_loop_spec:
  "c_buffer (snd (error_loop out stop m reason k n c)) = c_buffer c \<and>
   c_table (snd (error_loop out stop m reason k n c)) = c_table c \<and>
   c_group_offset (snd (error_loop out stop m reason k n c)) = c_group_offset c \<and>
   (fst (error_loop out stop m reason k n c) \<longrightarrow> reported m reason (snd (error_loop out stop m reason k n c)))"
proof (induction n arbitrary: k c)
  case (Suc n)
  obtain ok c' where he: "handleError (out k) m reason c = (ok, c')" by fastforce
  show ?case
    using Suc.IH [of "k + 1" c'] handleError_keeps [of "out k" m reason c] handleError_reports [of "out k" m reason c]
    by (auto simp: he split: bool.split)
qed simp

lemma error_rounds_spec:
  "c_buffer (snd (error_rounds rs m reason c)) = c_buffer c \<and>
   c_table (snd (error_rounds rs m reason c)) = c_table c \<and>
   c_group_offset (snd (error_rounds rs m reason c)) = c_group_offset c \<and>
   (fst (error_rounds rs m reason c) \<longrightarrow> reported m reason (snd (error_rounds rs m reason c)))"
proof (induction rs arbitrary: c)
  case (Cons r rs)
  obtain ok c' where he: "handleErrorWithRetry (fst r) (snd r) m reason c = (ok, c')" by fastforce
  show ?case
    using Cons.IH [of c'] error_loop_spec [of "fst r" "snd r" m reason 0 dlq_max_attempts c]
    by (auto simp: he handleErrorWithRetry_def [symmetric] split: bool.split)
qed simp

lemma CommitMessages_sel [simp]:
  "c_buffer (CommitMessages ok ms c) = c_buffer c" "c_table (CommitMessages ok ms c) = c_table c"
  "c_errors (CommitMessages ok ms c) = c_errors c" "c_dlq (CommitMessages ok ms c) = c_dlq c"
  "c_dlq_enabled (CommitMessages ok ms c) = c_dlq_enabled c" "c_metrics (CommitMessages ok ms c) = c_metrics c"
  by (simp_all add: CommitMessages_def)

text \<open>A flush either inserts and empties the buffer, or leaves the buffer's messages as they were.\<close>

lemma flush_cases:
  obtains "flush e c = c" "buf_messages (c_buffer c) = []"
  | "set (map snd (buf_messages (c_buffer c))) \<subseteq> set (c_table (flush e c))" "set (c_table c) \<subseteq> set (c_table (flush e c))"
    "buf_messages (c_buffer (flush e c)) = []"
    "c_group_offset (flush e c) \<in> {c_group_offset c, commit_msgs (map fst (buf_messages (c_buffer c))) (c_group_offset c)}"
  | "set (c_table c) \<subseteq> set (c_table (flush e c))"
    "buf_messages (c_buffer (flush e c)) = buf_messages (c_buffer c)" "c_group_offset (flush e c) = c_group_offset c"
proof (cases "buf_messages (c_buffer c) = []")
  case True
  then show thesis using that(1) by (cases c) (simp add: flush_def flush_take_def buf_GetAndClear_def flush_finish_def)
next
  case False
  let ?ms = "buf_messages (c_buffer c)" and ?c = "c\<lparr>c_buffer := (c_buffer c)\<lparr>buf_messages := []\<rparr>\<rparr>"
  obtain ok c' where ins: "insertWithRetry (fl_out e) (fl_stop e) (map snd ?ms) ?c = (ok, c')" by fastforce
  note keeps = insert_loop_keeps [of "fl_out e" "fl_stop e" "map snd ?ms" 0 insert_max_attempts ?c]
  have run: "flush e c = flush_finish e ?ms ?c" using False by (simp add: flush_def flush_take_def buf_GetAndClear_def)
  show thesis
  proof (cases ok)
    case True
    then have "set (map snd ?ms) \<subseteq> set (c_table c')"
      using insert_loop_inserted [of "fl_out e" "fl_stop e" "map snd ?ms" 0 insert_max_attempts ?c] ins
      by (simp add: insertWithRetry_def)
    then show thesis
      using False True keeps ins
      by (intro that(2)) (auto simp: run flush_finish_def insertWithRetry_def CommitMessages_def Let_def)
  next
    case no: False
    then show thesis
      using False keeps ins
      by (intro that(3)) (auto simp: run flush_finish_def insertWithRetry_def buf_PutBack_def)
  qed
qed

end
