(* ===== verification/Go_Time.thy ===== *)
theory Go_Time
  imports Go_Net
begin

text \<open>
  Times in JSON: \<^verbatim>\<open>time.Time\<close> is written as RFC 3339 with nanoseconds, and what is written reads back. The
  calendar: \<open>civil_of_days\<close> gives an existing date of the proleptic Gregorian calendar and
  \<open>days_of_civil\<close> is its inverse.
\<close>

section \<open>The calendar\<close>

text \<open>
  A day of the 400-year era: its century (\<open>c\<close>), four-year cycle (\<open>q\<close>) and year therein (\<open>t\<close>). Years begin
  in March, so that the leap day is the last of its year.
\<close>

definition era_year :: "int \<Rightarrow> int" where
  "era_year doe = (doe - doe div 1460 + doe div 36524 - doe div 146096) div 365"

lemma era_year_cycle:
  fixes c q s :: int
  assumes "0 \<le> c" "c \<le> 3" "0 \<le> q" "q \<le> 24" "0 \<le> s" "s \<le> 1460"
    and "q = 24 \<Longrightarrow> c < 3 \<Longrightarrow> s < 1460" and doe: "doe = 36524 * c + 1461 * q + s"
  shows "era_year doe = 100 * c + 4 * q + min 3 (s div 365)"
proof -
  have last: "doe div 146096 = (if doe = 146096 then 1 else 0) \<and> doe div 36524 = (if doe = 146096 then 4 else c)"
  proof (cases "doe = 146096")
    case False
    have "1461 * q + s < 36524"
    proof (cases "q = 24")
      case True
      then show ?thesis using assms(2,6,7) doe False by (cases "c = 3") auto
    next
      case False
      then have "q \<le> 23" using assms(4) by simp
      then show ?thesis using assms(6) by linarith
    qed
    then have "doe div 36524 = c" using assms(3,5) doe by (intro int_div_pos_eq [where r = "1461 * q + s"]) auto
    moreover have "doe < 146096" "0 \<le> doe" using \<open>1461 * q + s < 36524\<close> assms(1-5) doe by linarith+
    ultimately show ?thesis using False by (simp add: div_pos_pos_trivial)
  qed simp
  have "c = 3" if "doe = 146096"
  proof (rule ccontr)
    assume "c \<noteq> 3"
    then have "c \<le> 2" using assms(2) by simp
    then show False using that doe assms(4,6) by linarith
  qed
  then have "doe div 36524 - doe div 146096 = c" using last by auto
  moreover have "doe div 1460 = 25 * c + q + (24 * c + q + s) div 1460"
  proof -
    have "doe = 24 * c + q + s + 1460 * (25 * c + q)" using doe by simp
    then show ?thesis by simp
  qed
  ultimately have "era_year doe = (doe - (25 * c + q + (24 * c + q + s) div 1460) + c) div 365"
    unfolding era_year_def by (metis (no_types, opaque_lifting) add_diff_eq)
  also have "doe - (25 * c + q + (24 * c + q + s) div 1460) + c =
      s - (24 * c + q + s) div 1460 + 365 * (100 * c + 4 * q)"
    using doe by simp
  also have "\<dots> div 365 = 100 * c + 4 * q + (s - (24 * c + q + s) div 1460) div 365" by simp
  also have "(s - (24 * c + q + s) div 1460) div 365 = min 3 (s div 365)"
  proof (cases "24 * c + q + s < 1460")
    case True
    then have "(24 * c + q + s) div 1460 = 0" using assms(1,3,5) by (intro div_pos_pos_trivial) auto
    then show ?thesis using True assms(1,3,5) by simp
  next
    case False
    then have "(24 * c + q + s) div 1460 = 1"
      using assms(1-6) by (intro int_div_pos_eq [where r = "24 * c + q + s - 1460"]) auto
    moreover have "(s - 1) div 365 = 3" "s div 365 \<ge> 3" using False assms(1-6) by auto
    ultimately show ?thesis by simp
  qed
  finally show ?thesis .
qed

lemma era_day:
  assumes "0 \<le> doe" "doe < 146097"
  obtains c q s where "0 \<le> c" "c \<le> 3" "0 \<le> q" "q \<le> 24" "0 \<le> s" "s \<le> 1460"
    "q = 24 \<Longrightarrow> c < 3 \<Longrightarrow> s < 1460" "doe = 36524 * c + 1461 * q + (s :: int)"
proof -
  define c where "c = min 3 (doe div 36524)"
  define r where "r = doe - 36524 * c"
  have md: "doe = 36524 * (doe div 36524) + doe mod 36524" "0 \<le> doe mod 36524" "doe mod 36524 < 36524" by simp_all
  have c: "0 \<le> c" "c \<le> 3" using assms by (auto simp: c_def pos_imp_zdiv_nonneg_iff)
  have r: "0 \<le> r" "r \<le> 36524" "c < 3 \<Longrightarrow> r < 36524"
    using md assms by (auto simp: r_def c_def min_def)
  have qs: "r = 1461 * (r div 1461) + r mod 1461" "0 \<le> r mod 1461" "r mod 1461 \<le> 1460" by simp_all
  show thesis
  proof (rule that [of c "r div 1461" "r mod 1461"])
    show "r div 1461 \<le> 24" "0 \<le> r div 1461" using r by (auto simp: pos_imp_zdiv_nonneg_iff)
    show "r mod 1461 < 1460" if "r div 1461 = 24" "c < 3" using qs r(3) that by linarith
    show "doe = 36524 * c + 1461 * (r div 1461) + r mod 1461" using qs(1) by (simp add: r_def)
  qed (use c in simp_all)
qed

definition era_day_of_year :: "int \<Rightarrow> int" where
  "era_day_of_year doe = doe - (365 * era_year doe + era_year doe div 4 - era_year doe div 100)"

lemma era_facts:
  assumes "0 \<le> doe" "doe < 146097"
  shows "0 \<le> era_year doe" "era_year doe \<le> 399" "0 \<le> era_day_of_year doe" "era_day_of_year doe \<le> 365"
    and "era_day_of_year doe = 365 \<Longrightarrow> days_in (era_year doe + 1 + k * 400) 2 = 29"
proof -
  from era_day [OF assms] obtain c q s :: int where cq: "0 \<le> c" "c \<le> 3" "0 \<le> q" "q \<le> 24"
    and s: "0 \<le> s" "s \<le> 1460" "q = 24 \<Longrightarrow> c < 3 \<Longrightarrow> s < 1460" and doe: "doe = 36524 * c + 1461 * q + s"
    by metis
  let ?t = "min 3 (s div 365)"
  have t: "0 \<le> ?t" "?t \<le> 3" using s by (auto simp: pos_imp_zdiv_nonneg_iff)
  have year: "era_year doe = 100 * c + 4 * q + ?t" using era_year_cycle [of c q s doe] cq s doe by blast
  have q4: "era_year doe div 4 = 25 * c + q"
    unfolding year using t by (intro int_div_pos_eq [where r = ?t]) auto
  have q100: "era_year doe div 100 = c"
    unfolding year using t cq by (intro int_div_pos_eq [where r = "4 * q + ?t"]) auto
  have doy: "era_day_of_year doe = s - 365 * ?t"
    unfolding era_day_of_year_def q4 q100 unfolding year using doe by simp
  show "0 \<le> era_year doe" "era_year doe \<le> 399" unfolding year using t cq by auto
  have sm: "s = 365 * (s div 365) + s mod 365" "0 \<le> s mod 365" "s mod 365 < 365" by simp_all
  show "0 \<le> era_day_of_year doe" "era_day_of_year doe \<le> 365"
    unfolding doy using sm s by (auto simp: min_def)
  assume "era_day_of_year doe = 365"
  then have s1460: "s = 1460" unfolding doy using sm s by (auto simp: min_def split: if_splits)
  then have y: "era_year doe + 1 + k * 400 = 4 * (25 * c + q + 1 + k * 100)" unfolding year by simp
  have "(4 * (25 * c + q + 1 + k * 100)) mod 100 \<noteq> 0 \<or> (4 * (25 * c + q + 1 + k * 100)) mod 400 = 0"
  proof (cases "q = 24")
    case True
    then have "c = 3" using s(3) s1460 cq(2) by (cases "c < 3") auto
    then show ?thesis using True by simp
  next
    case False
    then have "(4 * (25 * c + q + 1 + k * 100)) mod 100 = 4 * q + 4"
      using cq by (intro int_mod_pos_eq [where q = "c + 4 * k"]) auto
    then show ?thesis using cq by simp
  qed
  then show "days_in (era_year doe + 1 + k * 400) 2 = 29" unfolding y by (simp add: days_in_def)
qed

text \<open>The month and day of a day of the year, and back.\<close>

lemma month_day:
  fixes doy :: int
  assumes "0 \<le> doy" "doy \<le> 365"
  defines "mp \<equiv> (5 * doy + 2) div 153"
  defines "d \<equiv> doy - (153 * mp + 2) div 5 + 1"
  defines "m \<equiv> if mp < 10 then mp + 3 else mp - 9"
  shows "0 \<le> mp" "mp \<le> 11" "1 \<le> d" "1 \<le> m" "m \<le> 12"
    and "m \<noteq> 2 \<Longrightarrow> d \<le> days_in y m" and "m = 2 \<Longrightarrow> d \<le> (if doy = 365 then 29 else 28)"
proof -
  have md: "5 * doy + 2 = 153 * mp + (5 * doy + 2) mod 153" "0 \<le> (5 * doy + 2) mod 153" "(5 * doy + 2) mod 153 < 153"
    by (simp_all add: mp_def)
  then have bounds: "153 * mp \<le> 5 * doy + 2" "5 * doy + 2 < 153 * mp + 153" by linarith+
  show mp: "0 \<le> mp" "mp \<le> 11" using assms(1,2) by (auto simp: mp_def pos_imp_zdiv_nonneg_iff)
  then show "1 \<le> m" "m \<le> 12" by (auto simp: m_def)
  have d5: "153 * mp + 2 = 5 * ((153 * mp + 2) div 5) + (153 * mp + 2) mod 5" "0 \<le> (153 * mp + 2) mod 5"
    by simp_all
  then show "1 \<le> d" using md by (simp add: d_def)
  have "mp = 0 \<or> mp = 1 \<or> mp = 2 \<or> mp = 3 \<or> mp = 4 \<or> mp = 5 \<or> mp = 6 \<or> mp = 7 \<or> mp = 8 \<or> mp = 9 \<or>
      mp = 10 \<or> mp = 11"
    using mp by presburger
  then show "m \<noteq> 2 \<Longrightarrow> d \<le> days_in y m" "m = 2 \<Longrightarrow> d \<le> (if doy = 365 then 29 else 28)"
    using bounds assms(2) by (elim disjE; simp add: d_def m_def days_in_def)+
qed

lemma civil_of_days_eq:
  fixes days :: int
  defines "z \<equiv> days + 719468"
  defines "doe \<equiv> z mod 146097"
  defines "mp \<equiv> (5 * era_day_of_year doe + 2) div 153"
  defines "m \<equiv> (if mp < 10 then mp + 3 else mp - 9)"
  shows "civil_of_days days =
    (era_year doe + z div 146097 * 400 + (if m \<le> 2 then 1 else 0), m, era_day_of_year doe - (153 * mp + 2) div 5 + 1)"
  unfolding civil_of_days_def Let_def z_def doe_def mp_def m_def era_day_of_year_def era_year_def by (rule refl)

lemma civil_of_days_spec:
  assumes "civil_of_days days = (y, m, d)"
  shows "1 \<le> m" "m \<le> 12" "1 \<le> d" "d \<le> days_in y m" "days_of_civil y m d = days"
proof -
  define z where "z = days + 719468"
  define doe where "doe = z mod 146097"
  define doy where "doy = era_day_of_year doe"
  define mp where "mp = (5 * doy + 2) div 153"
  have doe: "0 \<le> doe" "doe < 146097" by (simp_all add: doe_def)
  note era = era_facts [OF doe]
  have doy: "0 \<le> doy" "doy \<le> 365" using era by (simp_all add: doy_def)
  note md = month_day [OF doy, folded mp_def]
  have civ: "m = (if mp < 10 then mp + 3 else mp - 9)" "d = doy - (153 * mp + 2) div 5 + 1"
    "y = era_year doe + z div 146097 * 400 + (if m \<le> 2 then 1 else 0)"
    using assms unfolding civil_of_days_eq [of days, folded z_def, folded doe_def, folded doy_def, folded mp_def]
    by auto
  show "1 \<le> m" "m \<le> 12" "1 \<le> d" using md(3-5) civ by simp_all
  show "d \<le> days_in y m"
  proof (cases "m = 2")
    case True
    then have "y = era_year doe + 1 + z div 146097 * 400" using civ(3) by simp
    then have "doy = 365 \<Longrightarrow> days_in y m = 29" using era(5) True by (simp add: doy_def)
    moreover have "28 \<le> days_in y 2" by (simp add: days_in_def)
    moreover have "d \<le> (if doy = 365 then 29 else 28)" using md(7) True civ by simp
    ultimately show ?thesis using True by (auto split: if_splits)
  qed (use md(6) civ in simp)
  define y' where "y' = (if m \<le> 2 then y - 1 else y)"
  have y': "y' = era_year doe + z div 146097 * 400" using civ(3) by (simp add: y'_def)
  have "y' div 400 = z div 146097" "y' mod 400 = era_year doe"
    unfolding y' using era(1,2) by (simp_all add: mod_pos_pos_trivial)
  moreover have "(if 2 < m then m - 3 else m + 9) = mp" using civ(1) md(1,2) by (auto split: if_splits)
  ultimately have "days_of_civil y m d = z div 146097 * 146097 +
      (era_year doe * 365 + era_year doe div 4 - era_year doe div 100 + doy) - 719468"
    unfolding days_of_civil_def Let_def y'_def [symmetric] by (simp add: civ(2))
  also have "era_year doe * 365 + era_year doe div 4 - era_year doe div 100 + doy = doe"
    by (simp add: doy_def era_day_of_year_def)
  also have "z div 146097 * 146097 + doe - 719468 = days" by (simp add: doe_def z_def)
  finally show "days_of_civil y m d = days" .
qed

section \<open>Numbers of a fixed width\<close>

lemma length_show_nat: "n < 10 ^ w \<Longrightarrow> 0 < w \<Longrightarrow> length (show_nat n) \<le> w"
proof (induction n arbitrary: w rule: show_nat.induct)
  case (1 n)
  show ?case
  proof (cases "n < 10")
    case True
    then show ?thesis using "1.prems" by (subst show_nat.simps) simp
  next
    case False
    obtain v where w: "w = Suc v" using "1.prems"(2) by (cases w) auto
    have "n div 10 < 10 ^ v" using "1.prems"(1) w by (simp add: less_mult_imp_div_less mult.commute)
    moreover have "0 < v" using False "1.prems"(1) w by (cases v) auto
    ultimately show ?thesis using "1.IH" False by (subst show_nat.simps) (simp add: w)
  qed
qed

lemma digits_show_nat: "c \<in> set (show_nat n) \<Longrightarrow> digit_val c \<noteq> None"
proof (induction n rule: show_nat.induct)
  case (1 n)
  have last: "digit_val (digit_char (n mod 10)) \<noteq> None" by simp
  show ?case
  proof (cases "n < 10")
    case True
    then show ?thesis using "1.prems" by (subst (asm) show_nat.simps) auto
  next
    case False
    then show ?thesis using "1.prems" "1.IH" last by (subst (asm) show_nat.simps) auto
  qed
qed

lemma digit_zero [simp]: "digit_val (CHR ''0'') = Some 0"
  by (simp add: digit_val_def)

lemma parse_zeros: "parse_digits 0 (replicate k (CHR ''0'') @ s) = parse_digits 0 s"
  by (induction k) simp_all

lemma pad_nat: "0 \<le> i \<Longrightarrow> pad w i = replicate (w - length (show_nat (nat i))) (CHR ''0'') @ show_nat (nat i)"
  by (simp add: pad_def show_int_def Let_def)

lemma length_pad: "0 \<le> i \<Longrightarrow> i < 10 ^ w \<Longrightarrow> 0 < w \<Longrightarrow> length (pad w i) = w"
proof -
  assume i: "0 \<le> i" "i < 10 ^ w" "0 < w"
  then have "nat i < 10 ^ w" by (simp add: nat_less_iff)
  from length_show_nat [OF this i(3)] show ?thesis using i by (simp add: pad_nat)
qed

lemma parse_pad: "0 \<le> i \<Longrightarrow> parse_digits 0 (pad w i) = Some (nat i)"
  by (simp add: pad_nat parse_zeros)

lemma digits_pad: "0 \<le> i \<Longrightarrow> c \<in> set (pad w i) \<Longrightarrow> digit_val c \<noteq> None"
  using digits_show_nat by (auto simp: pad_nat)

lemma number_pad: "0 \<le> i \<Longrightarrow> i < 10 ^ w \<Longrightarrow> 0 < w \<Longrightarrow> number w (pad w i @ r) = Some (i, r)"
  using length_pad [of i w] by (simp add: number_def parse_pad)

lemma expect_Cons [simp]: "expect c (c # s) = Some s"
  by (simp add: expect_def)

section \<open>The JSON of a time\<close>

definition nano_suffix :: "int \<Rightarrow> string" where
  "nano_suffix n = (if n = 0 then [] else
     CHR ''.'' # rev (dropWhile (\<lambda>c. c = CHR ''0'') (rev (pad 9 n))))"

definition json_time :: "int \<Rightarrow> string option" where
  "json_time t = (case civil_of_days (t div ns_per_day) of (y, _) \<Rightarrow>
     if y < 0 \<or> 9999 < y then None
     else Some (butlast (rfc3339 t) @ nano_suffix (t mod ns_per_s) @ ''Z''))"

lemma takeWhile_zeros: "takeWhile (\<lambda>c. c = x) ys = replicate (length (takeWhile (\<lambda>c. c = x) ys)) x"
  by (induction ys) auto

text \<open>Dropping the zeros at the end of nine digits and filling up with zeros gives the nine digits.\<close>

lemma strip_zeros:
  fixes x :: 'a and ds :: "'a list"
  assumes "length ds = n"
  defines "st \<equiv> rev (dropWhile (\<lambda>c. c = x) (rev ds))"
  shows "take n (st @ replicate n x) = ds"
proof -
  let ?k = "length (takeWhile (\<lambda>c. c = x) (rev ds))"
  have "rev ds = replicate ?k x @ dropWhile (\<lambda>c. c = x) (rev ds)"
    using takeWhile_dropWhile_id [of "\<lambda>c. c = x" "rev ds"] takeWhile_zeros [of x "rev ds"] by metis
  then have ds: "ds = st @ replicate ?k x" unfolding st_def by (metis rev_append rev_replicate rev_rev_ident)
  then have n: "n = length st + ?k" using assms(1) by (metis length_append length_replicate)
  show ?thesis unfolding n by (subst (3) ds) (simp add: min_def)
qed

lemma fraction_nano:
  assumes "0 \<le> n" "n < 10 ^ 9"
  shows "fraction (nano_suffix n @ ''Z'') = Some (n, ''Z'')"
proof (cases "n = 0")
  case True
  then show ?thesis by (simp add: fraction_def nano_suffix_def)
next
  case False
  define st where "st = rev (dropWhile (\<lambda>c. c = CHR ''0'') (rev (pad 9 n)))"
  have len: "length (pad 9 n) = 9" using assms by (simp add: length_pad)
  have nine: "take 9 (st @ replicate 9 (CHR ''0'')) = pad 9 n"
    unfolding st_def by (rule strip_zeros [OF len])
  have digits: "\<forall>c \<in> set st. digit_val c \<noteq> None"
    using digits_pad [OF assms(1), of _ 9] by (auto simp: st_def dest: set_dropWhileD)
  have "digit_val (CHR ''Z'') = None" by (simp add: digit_val_def)
  then have tw: "takeWhile (\<lambda>x. digit_val x \<noteq> None) (st @ ''Z'') = st"
    using digits by (simp add: takeWhile_append2)
  have "st \<noteq> []"
  proof
    assume "st = []"
    then have "pad 9 n = replicate 9 (CHR ''0'')" using nine by simp
    then have "parse_digits 0 (pad 9 n) = Some 0" using parse_zeros [of 9 "[]"] by simp
    then show False using parse_pad [OF assms(1), of 9] assms False by simp
  qed
  moreover have "nano_suffix n @ ''Z'' = CHR ''.'' # (st @ ''Z'')" using False by (simp add: nano_suffix_def st_def)
  moreover have "parse_digits 0 (pad 9 n) = Some (nat n)" by (rule parse_pad [OF assms(1)])
  ultimately show ?thesis using assms(1) by (simp add: fraction_def tw nine Let_def del: not_None_eq take_append)
qed

lemma parse_written:
  assumes "0 \<le> y" "y \<le> 9999" "1 \<le> m" "m \<le> 12" "1 \<le> d" "d \<le> days_in y m" "0 \<le> h" "h \<le> 23" "0 \<le> mi" "mi \<le> 59"
    "0 \<le> sec" "sec \<le> 59" "0 \<le> n" "n < 10 ^ 9"
  shows "parse_rfc3339 (pad 4 y @ ''-'' @ pad 2 m @ ''-'' @ pad 2 d @ ''T'' @ pad 2 h @ '':'' @ pad 2 mi @ '':'' @ pad 2 sec @
      nano_suffix n @ ''Z'') = Some ((((days_of_civil y m d * 24 + h) * 60 + mi - 0) * 60 + sec) * ns_per_s + n)"
proof -
  have "d \<le> 31" using assms(6) by (simp add: days_in_def split: if_splits)
  then have pads: "number 4 (pad 4 y @ x) = Some (y, x)" "number 2 (pad 2 m @ x) = Some (m, x)"
    "number 2 (pad 2 d @ x) = Some (d, x)" "number 2 (pad 2 h @ x) = Some (h, x)"
    "number 2 (pad 2 mi @ x) = Some (mi, x)" "number 2 (pad 2 sec @ x) = Some (sec, x)" for x
    using assms by (intro number_pad; simp)+
  have ok: "\<not> (m < 1 \<or> 12 < m \<or> d < 1 \<or> days_in y m < d \<or> 23 < h \<or> 59 < mi \<or> 59 < sec)"
    using assms by simp
  have zone: "zone ''Z'' = Some 0" by (simp add: zone_def)
  show ?thesis
    unfolding parse_rfc3339_def append_Cons append_Nil pads expect_Cons Option.bind.simps prod.case
      fraction_nano [OF assms(13,14)] zone if_not_P [OF ok] by (rule refl)
qed

lemma clock:
  fixes secs day h mi sec r m :: int
  assumes "r = 3600 * h + m" and "m = 60 * mi + sec" and "secs = 86400 * day + r"
  shows "((day * 24 + h) * 60 + mi - 0) * 60 + sec = secs"
  using assms by simp

text \<open>Every time of the years 0 to 9999 is written, and reads back.\<close>

lemma rfc3339_roundtrip:
  assumes "json_time t = Some s"
  shows "parse_rfc3339 s = Some t"
proof -
  obtain y m d where civ: "civil_of_days (t div ns_per_day) = (y, m, d)" by (cases "civil_of_days (t div ns_per_day)") auto
  note spec = civil_of_days_spec [OF civ]
  have day: "t div ns_per_s div 86400 = t div ns_per_day"
    by (simp add: ns_per_day_def ns_per_s_def zdiv_zmult2_eq)
  define r where "r = t div ns_per_s mod 86400"
  define n where "n = t mod ns_per_s"
  have y: "0 \<le> y" "y \<le> 9999" and s: "s = pad 4 y @ ''-'' @ pad 2 m @ ''-'' @ pad 2 d @ ''T'' @ pad 2 (r div 3600) @ '':''
       @ pad 2 (r mod 3600 div 60) @ '':'' @ pad 2 (r mod 60) @ nano_suffix n @ ''Z''"
    using assms unfolding json_time_def civ rfc3339_def Let_def day prod.case r_def [symmetric] n_def [symmetric]
    by (simp_all add: butlast_append split: if_splits)
  have r: "0 \<le> r" "r < 86400" by (simp_all add: r_def)
  have h: "0 \<le> r div 3600" "r div 3600 \<le> 23" using r by (auto simp: pos_imp_zdiv_nonneg_iff)
  have mi: "0 \<le> r mod 3600 div 60" "r mod 3600 div 60 \<le> 59" by (auto simp: pos_imp_zdiv_nonneg_iff)
  have sec: "0 \<le> r mod 60" "r mod 60 \<le> 59" by auto
  have n: "0 \<le> n" "n < 10 ^ 9" by (simp_all add: n_def ns_per_s_def)
  have secs: "((t div ns_per_day * 24 + r div 3600) * 60 + r mod 3600 div 60 - 0) * 60 + r mod 60 = t div ns_per_s"
  proof (rule clock)
    show "r = 3600 * (r div 3600) + r mod 3600" by (rule mult_div_mod_eq [symmetric])
    have "r mod 3600 mod 60 = r mod 60" by (simp add: mod_mod_cancel)
    then show "r mod 3600 = 60 * (r mod 3600 div 60) + r mod 60" by (metis mult_div_mod_eq)
    show "t div ns_per_s = 86400 * (t div ns_per_day) + r" unfolding r_def day [symmetric] by (rule mult_div_mod_eq [symmetric])
  qed
  have "parse_rfc3339 s = Some ((((days_of_civil y m d * 24 + r div 3600) * 60 + r mod 3600 div 60 - 0) * 60 + r mod 60) * ns_per_s + n)"
    unfolding s by (rule parse_written [OF y spec(1-4) h mi sec n])
  also have "\<dots> = Some t" by (simp only: spec(5) secs) (simp add: n_def)
  finally show ?thesis .
qed

end
