(* ===== verification/Producer.thy ===== *)
theory Producer
  imports Aggregator Go_Time
begin

text \<open>
  \<^verbatim>\<open>pv-producer\<close>: the generator of page views (\<^verbatim>\<open>internal/generator\<close>), the Kafka producer with its three
  send modes, batch, metrics and reconfiguration (\<^verbatim>\<open>internal/kafka/producer.go\<close>), the control endpoint
  (\<^verbatim>\<open>internal/http/server.go\<close>) and the loop that drives them (\<^verbatim>\<open>runGenerator\<close> of \<^verbatim>\<open>cmd/app/main.go\<close>).
  Random draws, fresh UUIDs, the clock and the outcomes of writes are arguments; \<^verbatim>\<open>rand.Intn(n)\<close> is a raw
  draw modulo \<open>n\<close>, \<^verbatim>\<open>rand.Float64()\<close> the rational drawn. The event type is the one of the aggregator.
\<close>

section \<open>generator/generator.go\<close>

record generator =
  g_mode :: string
  g_rps :: int
  g_duplicate_rate :: rat
  g_last :: "page_view option"
  g_last_id :: string
  g_counter :: int

definition NewGenerator :: "string \<Rightarrow> int \<Rightarrow> generator" where
  "NewGenerator mode rps = \<lparr>g_mode = mode, g_rps = rps, g_duplicate_rate = 1 / 100, g_last = None,
     g_last_id = [], g_counter = 0\<rparr>"

record draws =
  dr_duplicate :: rat
  dr_event_uuid :: string
  dr_user_uuid :: string
  dr_now :: int
  dr_page :: nat
  dr_agent :: nat
  dr_ip :: "nat list"
  dr_region :: nat
  dr_error :: rat
  dr_error_type :: nat
  dr_error_ms :: nat
  dr_bounce :: rat
  dr_bounce_ms :: nat
  dr_view_ms :: nat

definition pages :: "string list" where
  "pages = [''/home'', ''/products'', ''/about'', ''/contact'', ''/cart'',
     ''/checkout'', ''/profile'', ''/settings'', ''/help'', ''/search'']"

definition agents :: "string list" where
  "agents = [''Mozilla/5.0 (Windows NT 10.0; Win64; x64) AppleWebKit/537.36'',
     ''Mozilla/5.0 (Macintosh; Intel Mac OS X 10_15_7) AppleWebKit/537.36'',
     ''Mozilla/5.0 (X11; Linux x86_64) AppleWebKit/537.36'']"

definition regions :: "string list" where
  "regions = [''US'', ''EU'', ''ASIA'', ''LATAM'', ''AFRICA'']"

definition pick :: "'a list \<Rightarrow> nat \<Rightarrow> 'a" where
  "pick xs d = xs ! (d mod length xs)"

definition hex_char :: "nat \<Rightarrow> char" where
  "hex_char d = (if d < 10 then digit_char d else char_of (87 + d))"

fun show_hex :: "nat \<Rightarrow> string" where
  "show_hex n = (if n < 16 then [hex_char n] else show_hex (n div 16) @ [hex_char (n mod 16)])"

declare show_hex.simps [simp del]

definition randomIP :: "nat list \<Rightarrow> string" where
  "randomIP ds = ''2001:db8::'' @ join (CHR '':'') (map (\<lambda>d. show_hex (d mod 65536)) (take 4 ds))"

definition generateErrorEvent :: "draws \<Rightarrow> page_view \<Rightarrow> page_view" where
  "generateErrorEvent d ev = (let k = dr_error_type d mod 3 in
     if k = 0 then ev\<lparr>pv_page_id := []\<rparr>
     else if k = 1 then ev\<lparr>pv_duration := - int (dr_error_ms d mod 1000)\<rparr>
     else ev)"

definition generateNew :: "draws \<Rightarrow> page_view" where
  "generateNew d =
    (let ev = page_view_zero\<lparr>pv_event_id := dr_event_uuid d, pv_page_id := pick pages (dr_page d),
           pv_user_id := take 8 (dr_user_uuid d), pv_timestamp := dr_now d, pv_user_agent := pick agents (dr_agent d),
           pv_ip := randomIP (dr_ip d), pv_region := pick regions (dr_region d)\<rparr>
     in if dr_error d < 5 / 100 then generateErrorEvent d ev
        else if dr_bounce d < 10 / 100
        then ev\<lparr>pv_duration := int (dr_bounce_ms d mod 5000), pv_bounce := True\<rparr>
        else ev\<lparr>pv_duration := 10000 + int (dr_view_ms d mod 590000), pv_bounce := False\<rparr>)"

definition Generate :: "draws \<Rightarrow> generator \<Rightarrow> page_view \<times> generator" where
  "Generate d g0 = (let g = g0\<lparr>g_counter := wrap64 (g_counter g0 + 1)\<rparr>; ev = generateNew d;
       fresh = (ev, g\<lparr>g_last := Some ev, g_last_id := pv_event_id ev\<rparr>)
     in case g_last g of
          None \<Rightarrow> fresh
        | Some l \<Rightarrow> if dr_duplicate d < g_duplicate_rate g then (l\<lparr>pv_event_id := g_last_id g\<rparr>, g) else fresh)"

definition millis :: "int \<Rightarrow> int" where "millis k = wrap64 (k * 10 ^ 6)"

definition GetInterval :: "generator \<Rightarrow> int \<times> generator" where
  "GetInterval g =
    (if g_mode g = ''regular'' then
       (let g' = (if g_rps g \<le> 0 then g\<lparr>g_rps := 5\<rparr> else g); i = 1000 div g_rps g'
        in (millis (if i < 100 then 100 else i), g'))
     else if g_mode g = ''burst'' then (2 * ns_per_s, g)
     else if g_mode g = ''night'' then (10 * ns_per_s, g)
     else (ns_per_s, g))"

definition SetMode :: "string \<Rightarrow> generator \<Rightarrow> generator" where "SetMode m g = g\<lparr>g_mode := m\<rparr>"
definition SetRPS :: "int \<Rightarrow> generator \<Rightarrow> generator" where "SetRPS r g = g\<lparr>g_rps := r\<rparr>"

section \<open>model/event.go: the payload\<close>

definition omitempty :: "string \<Rightarrow> string \<Rightarrow> (string \<times> json) list" where
  "omitempty k v = (if v = [] then [] else [(k, JStr v)])"

definition ToJSON :: "page_view \<Rightarrow> json option" where
  "ToJSON ev = (case json_time (pv_timestamp ev) of None \<Rightarrow> None | Some t \<Rightarrow> Some (JObj (
     [(''event_id'', JStr (pv_event_id ev)), (''page_id'', JStr (pv_page_id ev)),
      (''user_id'', JStr (pv_user_id ev)), (''view_duration_ms'', JInt (pv_duration ev)), (''timestamp'', JStr t)] @
     omitempty ''user_agent'' (pv_user_agent ev) @ omitempty ''ip_address'' (pv_ip ev) @
     omitempty ''region'' (pv_region ev) @ [(''is_bounce'', JBool (pv_bounce ev))])))"

section \<open>kafka/producer.go: metrics\<close>

record prod_metrics =
  sent_count :: int
  failed_count :: int
  latencies :: "int list"

definition RecordSent :: "int \<Rightarrow> prod_metrics \<Rightarrow> prod_metrics" where
  "RecordSent l m = (let m' = m\<lparr>sent_count := wrap64 (sent_count m + 1)\<rparr> in
     if length (latencies m') < 1000 then m'\<lparr>latencies := latencies m' @ [l]\<rparr>
     else m'\<lparr>latencies := tl (latencies m') @ [l]\<rparr>)"

definition RecordFailed :: "prod_metrics \<Rightarrow> prod_metrics" where
  "RecordFailed m = m\<lparr>failed_count := wrap64 (failed_count m + 1)\<rparr>"

text \<open>Division of durations truncates towards zero.\<close>

definition tdiv :: "int \<Rightarrow> int \<Rightarrow> int" where
  "tdiv a b = (if a < 0 then - ((- a) div b) else a div b)"

text \<open>\<^verbatim>\<open>int(float64(n) * 0.95)\<close>\<close>

definition p95_index :: "nat \<Rightarrow> nat" where
  "p95_index n = (case f_mul (round64 (of_nat n)) (round64 (95 / 100)) of Fin x \<Rightarrow> nat \<lfloor>x\<rfloor> | _ \<Rightarrow> 0)"

definition GetStats :: "prod_metrics \<Rightarrow> int \<times> int \<times> int \<times> int" where
  "GetStats m = (let ls = latencies m; n = length ls in
     if ls = [] then (sent_count m, failed_count m, 0, 0)
     else let avg = tdiv (foldl (\<lambda>s l. wrap64 (s + l)) 0 ls) (int n);
              i = p95_index n; i' = (if n \<le> i then n - 1 else i)
       in (sent_count m, failed_count m, avg, ls ! i'))"

section \<open>kafka/producer.go: the producer\<close>

record prod_msg =
  pm_key :: string
  pm_value :: "json option"
  pm_event_id :: string

text \<open>
  \<open>p_ticker\<close> is the flush ticker's interval and whether it runs; \<open>p_loops\<close> counts the flush goroutines;
  \<open>p_topic\<close> is what reached Kafka.
\<close>

record producer =
  p_mode :: string
  p_batch_size :: int
  p_interval :: int
  p_strategy :: string
  p_batch :: "prod_msg list"
  p_ticker :: "(int \<times> bool) option"
  p_loops :: nat
  p_metrics :: prod_metrics
  p_async :: bool
  p_topic :: "prod_msg list"

text \<open>
  \<^verbatim>\<open>make\<close> panics for a negative capacity and \<^verbatim>\<open>time.NewTicker\<close> for an interval that is not positive.
  \<open>None\<close> is the nil producer. \<open>p_async\<close> is the writer's option \<^verbatim>\<open>Async\<close>, which never changes afterwards.
\<close>

definition NewProducer :: "producer_config \<Rightarrow> producer option go_result" where
  "NewProducer cfg = (if cfg_brokers cfg = [] then Done None
    else if cfg_batch_size cfg < 0 then Panic
    else
    (let i = millis (cfg_flush_ms cfg);
         p = \<lparr>p_mode = cfg_mode cfg, p_batch_size = cfg_batch_size cfg, p_interval = i,
           p_strategy = cfg_strategy cfg, p_batch = [], p_ticker = None, p_loops = 0,
           p_metrics = \<lparr>sent_count = 0, failed_count = 0, latencies = []\<rparr>, p_async = (cfg_mode cfg = ''async''),
           p_topic = []\<rparr>
     in if cfg_mode cfg = ''batch'' then
          (if i \<le> 0 then Panic else Done (Some (p\<lparr>p_ticker := Some (i, True), p_loops := 1\<rparr>)))
        else Done (Some p)))"

record send_env =
  se_out :: outcome
  se_latency :: int
  se_in_time :: bool
  se_key :: nat

text \<open>
  \<^verbatim>\<open>writer.WriteMessages\<close> of kafka-go: with the option \<^verbatim>\<open>Async\<close> the caller gets no error, whatever
  becomes of the messages.
\<close>

definition WriteMessages :: "outcome \<Rightarrow> prod_msg list \<Rightarrow> producer \<Rightarrow> bool \<times> producer" where
  "WriteMessages out batch p = (let p' = p\<lparr>p_topic := p_topic p @ batch\<rparr> in case out of
      Acked \<Rightarrow> (True, p') | FailedBefore \<Rightarrow> (p_async p, p) | FailedAfter \<Rightarrow> (p_async p, p'))"

definition on_metrics :: "(prod_metrics \<Rightarrow> prod_metrics) \<Rightarrow> producer \<Rightarrow> producer" where
  "on_metrics f p = p\<lparr>p_metrics := f (p_metrics p)\<rparr>"

text \<open>The results of the send operations are \<open>True\<close> for a nil error.\<close>

definition sendSync :: "send_env \<Rightarrow> prod_msg \<Rightarrow> producer \<Rightarrow> bool \<times> producer" where
  "sendSync e m p = (case WriteMessages (se_out e) [m] p of
      (False, p') \<Rightarrow> (False, on_metrics RecordFailed p')
    | (True, p') \<Rightarrow> (True, on_metrics (RecordSent (se_latency e)) p'))"

text \<open>The write happens in its own goroutine; its error is seen only within 100 milliseconds.\<close>

definition sendAsync :: "send_env \<Rightarrow> prod_msg \<Rightarrow> producer \<Rightarrow> bool \<times> producer" where
  "sendAsync e m p = (case WriteMessages (se_out e) [m] p of
      (False, p') \<Rightarrow> (\<not> se_in_time e, on_metrics RecordFailed p')
    | (True, p') \<Rightarrow> (True, on_metrics (RecordSent (se_latency e)) p'))"

definition Flush :: "send_env \<Rightarrow> producer \<Rightarrow> bool \<times> producer" where
  "Flush e p = (if p_batch p = [] then (True, p)
     else (case WriteMessages (se_out e) (p_batch p) (p\<lparr>p_batch := []\<rparr>) of
        (False, p') \<Rightarrow> (False, on_metrics RecordFailed p')
      | (True, p') \<Rightarrow> (True, on_metrics (RecordSent (se_latency e)) p')))"

definition sendBatch :: "send_env \<Rightarrow> prod_msg \<Rightarrow> producer \<Rightarrow> bool \<times> producer" where
  "sendBatch e m p = (let p' = p\<lparr>p_batch := p_batch p @ [m]\<rparr> in
     if p_batch_size p' \<le> int (length (p_batch p')) then Flush e p' else (True, p'))"

definition getPartitionKey :: "nat \<Rightarrow> page_view \<Rightarrow> producer \<Rightarrow> string" where
  "getPartitionKey d ev p =
    (if p_strategy p = ''key'' then pv_page_id ev
     else if p_strategy p = ''rr'' then []
     else if p_strategy p = ''random'' then replicate (d mod 10) (CHR ''x'')
     else pv_page_id ev)"

text \<open>A corrupted payload does not parse: its value is \<open>None\<close>.\<close>

definition message_of :: "send_env \<Rightarrow> page_view \<Rightarrow> json option \<Rightarrow> producer \<Rightarrow> prod_msg" where
  "message_of e ev payload p = \<lparr>pm_key = getPartitionKey (se_key e) ev p, pm_value = payload, pm_event_id = pv_event_id ev\<rparr>"

definition send_by_mode :: "send_env \<Rightarrow> prod_msg \<Rightarrow> producer \<Rightarrow> bool \<times> producer" where
  "send_by_mode e m p =
    (if p_mode p = ''sync'' then sendSync e m p
     else if p_mode p = ''async'' then sendAsync e m p
     else if p_mode p = ''batch'' then sendBatch e m p
     else sendSync e m p)"

definition Send :: "send_env \<Rightarrow> page_view \<Rightarrow> bool \<Rightarrow> producer \<Rightarrow> bool \<times> producer" where
  "Send e ev corruptJSON p =
    (if corruptJSON then send_by_mode e (message_of e ev None p) p
     else (case ToJSON ev of
        None \<Rightarrow> (False, on_metrics RecordFailed p)
      | Some j \<Rightarrow> send_by_mode e (message_of e ev (Some j) p) p))"

definition UpdateConfig :: "string \<Rightarrow> int \<Rightarrow> int \<Rightarrow> string \<Rightarrow> producer \<Rightarrow> unit go_result \<times> producer" where
  "UpdateConfig mode bsize flushMs strategy p =
    (let p1 = p\<lparr>p_mode := mode, p_batch_size := bsize, p_interval := millis flushMs, p_strategy := strategy,
           p_ticker := map_option (\<lambda>(i, _). (i, False)) (p_ticker p)\<rparr>
     in if mode = ''batch'' then
          (if p_interval p1 \<le> 0 then (Panic, p1)
           else (Done (), p1\<lparr>p_ticker := Some (p_interval p1, True), p_loops := p_loops p1 + 1\<rparr>))
        else (Done (), p1))"

text \<open>A tick of the flush ticker: only a running one ticks.\<close>

definition flush_tick :: "send_env \<Rightarrow> producer \<Rightarrow> producer" where
  "flush_tick e p = (case p_ticker p of Some (_, True) \<Rightarrow> snd (Flush e p) | _ \<Rightarrow> p)"

definition Close :: "send_env \<Rightarrow> producer \<Rightarrow> producer" where
  "Close e p = snd (Flush e (p\<lparr>p_ticker := map_option (\<lambda>(i, _). (i, False)) (p_ticker p)\<rparr>))"

section \<open>http/server.go: control\<close>

record ControlRequest =
  cr_mode :: string
  cr_rps :: int
  cr_batch_size :: int
  cr_flush_ms :: int
  cr_strategy :: string
  cr_send_mode :: string

definition control_fields :: "ControlRequest field list" where
  "control_fields =
    [(''mode'', \<lambda>q v. map_option (\<lambda>s. q\<lparr>cr_mode := s\<rparr>) (dec_string (cr_mode q) v)),
     (''rps'', \<lambda>q v. map_option (\<lambda>i. q\<lparr>cr_rps := i\<rparr>) (dec_int64 (cr_rps q) v)),
     (''batch_size'', \<lambda>q v. map_option (\<lambda>i. q\<lparr>cr_batch_size := i\<rparr>) (dec_int64 (cr_batch_size q) v)),
     (''flush_ms'', \<lambda>q v. map_option (\<lambda>i. q\<lparr>cr_flush_ms := i\<rparr>) (dec_int64 (cr_flush_ms q) v)),
     (''strategy'', \<lambda>q v. map_option (\<lambda>s. q\<lparr>cr_strategy := s\<rparr>) (dec_string (cr_strategy q) v)),
     (''send_mode'', \<lambda>q v. map_option (\<lambda>s. q\<lparr>cr_send_mode := s\<rparr>) (dec_string (cr_send_mode q) v))]"

text \<open>The status, or the panic (which \<^verbatim>\<open>net/http\<close> recovers by closing the connection).\<close>

definition HandleControl ::
  "producer_config \<Rightarrow> string \<Rightarrow> json option \<Rightarrow> generator \<times> producer \<Rightarrow> nat go_result \<times> (generator \<times> producer)" where
  "HandleControl cfg meth body s = (case s of (g, p) \<Rightarrow>
    if meth \<noteq> ''POST'' then (Done 405, s)
    else (case decode_body False control_fields
        \<lparr>cr_mode = [], cr_rps = 0, cr_batch_size = 0, cr_flush_ms = 0, cr_strategy = [], cr_send_mode = []\<rparr> body of
       None \<Rightarrow> (Done 400, s)
     | Some q \<Rightarrow>
        (let g1 = (if cr_mode q \<noteq> [] then SetMode (cr_mode q) g else g);
             g2 = (if 0 < cr_rps q then SetRPS (cr_rps q) g1 else g1)
         in if cr_send_mode q \<noteq> [] \<or> 0 < cr_batch_size q \<or> 0 < cr_flush_ms q \<or> cr_strategy q \<noteq> []
            then (case UpdateConfig (if cr_send_mode q = [] then cfg_mode cfg else cr_send_mode q)
                  (if cr_batch_size q = 0 then cfg_batch_size cfg else cr_batch_size q)
                  (if cr_flush_ms q = 0 then cfg_flush_ms cfg else cr_flush_ms q)
                  (if cr_strategy q = [] then cfg_strategy cfg else cr_strategy q) p of
                (Panic, p') \<Rightarrow> (Panic, (g2, p')) | (Done _, p') \<Rightarrow> (Done 200, (g2, p')))
            else (Done 200, (g2, p)))))"

text \<open>The metrics page: sent, failed, average and 95th percentile in whole milliseconds, generated events.\<close>

definition producer_HandleMetrics :: "string \<Rightarrow> generator \<times> producer \<Rightarrow> nat \<times> (int \<times> int \<times> int \<times> int \<times> int) option" where
  "producer_HandleMetrics meth s = (if meth \<noteq> ''GET'' then (405, None)
     else (case GetStats (p_metrics (snd s)) of (sent, failed, avg, p95) \<Rightarrow>
       (200, Some (sent, failed, tdiv avg (10 ^ 6), tdiv p95 (10 ^ 6), g_counter (fst s)))))"

section \<open>cmd/app/main.go: runGenerator\<close>

record gen_loop =
  burst_active :: bool
  burst_count :: nat
  burst_target :: nat

type_synonym gen_send = "draws \<times> rat \<times> send_env"

definition generate_and_send :: "gen_send \<Rightarrow> generator \<times> producer \<Rightarrow> generator \<times> producer" where
  "generate_and_send x s = (case x of (d, corrupt, e) \<Rightarrow> (case s of (g, p) \<Rightarrow>
     (case Generate d g of (ev, g') \<Rightarrow> (g', snd (Send e ev (corrupt < 5 / 100) p)))))"

text \<open>One tick: the raw draw of the burst's size, and as many generated events as the tick asks for.\<close>

definition gen_tick ::
  "nat \<Rightarrow> (nat \<Rightarrow> gen_send) \<Rightarrow> gen_loop \<times> generator \<times> producer \<Rightarrow> gen_loop \<times> generator \<times> producer" where
  "gen_tick r xs s = (case s of (l, g, p) \<Rightarrow>
    if g_mode g = ''burst'' then
      (let l1 = (if \<not> burst_active l
             then \<lparr>burst_active = True, burst_count = 0, burst_target = 100 + r mod 900\<rparr> else l);
           n = min 10 (burst_target l1 - burst_count l1);
           (g', p') = foldl (\<lambda>s i. generate_and_send (xs i) s) (g, p) [0..<n];
           l2 = l1\<lparr>burst_count := burst_count l1 + n\<rparr>
       in if burst_target l2 \<le> burst_count l2
          then (l2\<lparr>burst_active := False, burst_count := 0\<rparr>, g', p') else (l2, g', p'))
    else (case generate_and_send (xs 0) (g, p) of (g', p') \<Rightarrow> (l, snd (GetInterval g'), p')))"

end
