(* ===== verification/Startup.thy ===== *)
theory Startup
  imports Wallet_Handlers Wallet_Config Notification Producer
begin

text \<open>
  The processes: \<^verbatim>\<open>cmd/app/main.go\<close> of the five services, with the loops and helpers that connect to the
  databases and create the topics. What a start meets (clocks, outcomes of connecting, what is then fetched or
  generated) is an argument; the result is what the process opened, closed and served, in order, with how it
  ended. A \<^verbatim>\<open>log.Fatalf\<close> or \<^verbatim>\<open>os.Exit\<close> ends the process at once, without its deferred calls.
\<close>

datatype resource = Pool nat | ExchangerConn | PublisherWriter | Listener | MongoClient | ClickHouseConn
  | DlqWriter | KafkaReader | KafkaWriter

datatype proc_act = Opened resource | Closed resource | Slept int | Topic string int | Serving string | Stopping

datatype ended = Stopped | Exited int | Panicked

section \<open>Connecting to PostgreSQL\<close>

text \<open>
  \<^verbatim>\<open>connectPGXPoolWithRetry\<close> of the wallet and \<^verbatim>\<open>connectWithRetry\<close> of the exchanger: attempts until the deadline,
  two seconds apart. \<open>ce_now k\<close> is the clock at the test before attempt \<open>k\<close>, \<open>ce_new\<close> and \<open>ce_ping\<close> are the
  outcomes of creating the pool and of the ping. The result is the pool's number, if any.
\<close>

record connect_env =
  ce_dsn_ok :: "string \<Rightarrow> bool"
  ce_start :: int
  ce_now :: "nat \<Rightarrow> int"
  ce_new :: "nat \<Rightarrow> bool"
  ce_ping :: "nat \<Rightarrow> bool"

partial_function (option) connect_loop ::
  "connect_env \<Rightarrow> int \<Rightarrow> nat \<Rightarrow> proc_act list \<Rightarrow> (nat option \<times> proc_act list) option" where
  "connect_loop e deadline k acts =
    (if \<not> ce_now e k < deadline then Some (None, acts)
     else if \<not> ce_new e k then connect_loop e deadline (k + 1) (acts @ [Slept (2 * ns_per_s)])
     else if \<not> ce_ping e k
       then connect_loop e deadline (k + 1) (acts @ [Opened (Pool k), Closed (Pool k), Slept (2 * ns_per_s)])
     else Some (Some k, acts @ [Opened (Pool k)]))"

definition connectWithRetry :: "connect_env \<Rightarrow> string \<Rightarrow> int \<Rightarrow> (nat option \<times> proc_act list) option" where
  "connectWithRetry e dsn timeout =
    (if \<not> ce_dsn_ok e dsn then Some (None, []) else connect_loop e (ce_start e + timeout) 0 [])"

section \<open>The wallet\<close>

text \<open>\<open>wb_dial addr timeout\<close>: does the blocking dial of the exchanger succeed; \<open>wb_listen\<close>: the HTTP port.\<close>

record wallet_boot =
  wb_conn :: connect_env
  wb_dial :: "string \<Rightarrow> int \<Rightarrow> bool"
  wb_listen :: bool

definition wallet_client :: "wallet_boot \<Rightarrow> wallet_config \<Rightarrow> client_error + exch_client option" where
  "wallet_client b cfg = (if wc_exchanger_addr cfg = [] then Inr None
     else case NewExchangerClient (wc_exchanger_addr cfg) (wc_cache_ttl cfg)
         (wb_dial b (wc_exchanger_addr cfg) (wc_exchanger_timeout cfg)) of
       Inl e \<Rightarrow> Inl e | Inr c \<Rightarrow> Inr (Some c))"

definition wallet_publisher :: "wallet_config \<Rightarrow> publisher option" where
  "wallet_publisher cfg = NewPublisher (wc_brokers cfg) (wc_topic cfg) (wc_threshold cfg) (wc_retries cfg)
     (wc_backoff_ms cfg) (wc_timeout_ms cfg)"

text \<open>The handler it serves with and its client, if it came to serving; codec, bcrypt and JWT library are parameters.\<close>

definition wallet_main ::
  "codec \<Rightarrow> bcrypt \<Rightarrow> jwt_lib \<Rightarrow> environ \<Rightarrow> wallet_boot \<Rightarrow>
   ((handler \<times> exch_client option) option \<times> proc_act list \<times> ended) option" where
  "wallet_main px bc jw env b = (case LoadConfig env of
      Inl _ \<Rightarrow> Some (None, [], Exited 1)
    | Inr cfg \<Rightarrow> (case connectWithRetry (wb_conn b) (PostgresDSN cfg) (30 * ns_per_s) of
        None \<Rightarrow> None
      | Some (None, acts) \<Rightarrow> Some (None, acts, Exited 1)
      | Some (Some k, acts) \<Rightarrow> (case wallet_client b cfg of
          Inl _ \<Rightarrow> Some (None, acts, Exited 1)
        | Inr client \<Rightarrow>
            (let pub = wallet_publisher cfg;
                 h = \<lparr>hd_codec = px, hd_bcrypt = bc, hd_jwt = jw, hd_secret = wc_secret cfg, hd_pool = True,
                   hd_publisher = pub\<rparr>;
                 more = (if client = None then [] else [ExchangerConn]) @ (if pub = None then [] else [PublisherWriter]);
                 up = acts @ map Opened more @ [Serving (CHR '':'' # wc_app_port cfg)]
             in if \<not> wb_listen b then Some (Some (h, client), up, Exited 1)
                else Some (Some (h, client), up @ Stopping # map Closed (rev (Pool k # more)), Stopped)))))"

section \<open>The exchanger\<close>

record exchanger_boot =
  xb_conn :: connect_env
  xb_ping :: bool
  xb_listen :: bool
  xb_serve :: bool

definition exchanger_main :: "environ \<Rightarrow> exchanger_boot \<Rightarrow> (proc_act list \<times> ended) option" where
  "exchanger_main env b = (case exchanger_Load env of
      None \<Rightarrow> Some ([], Exited 1)
    | Some cfg \<Rightarrow> (case connectWithRetry (xb_conn b) (exchanger_DSN cfg) (30 * ns_per_s) of
        None \<Rightarrow> None
      | Some (None, acts) \<Rightarrow> Some (acts, Exited 1)
      | Some (Some k, acts) \<Rightarrow>
          if \<not> xb_ping b \<or> \<not> xb_listen b then Some (acts, Exited 1)
          else let up = acts @ [Opened Listener, Serving (CHR '':'' # xc_grpc_port cfg)]
            in if \<not> xb_serve b then Some (up, Exited 1)
               else Some (up @ [Stopping, Closed Listener, Closed (Pool k)], Stopped)))"

section \<open>The notification service\<close>

text \<open>\<^verbatim>\<open>mongo.Connect\<close>: a client that does not answer the ping is disconnected.\<close>

definition mongo_Connect :: "bool \<Rightarrow> bool \<Rightarrow> bool \<times> proc_act list" where
  "mongo_Connect connects pings = (if \<not> connects then (False, [])
     else if \<not> pings then (False, [Opened MongoClient, Closed MongoClient]) else (True, [Opened MongoClient]))"

text \<open>\<^verbatim>\<open>EnsureTopic\<close>: the topic it asks the first broker to create; errors are only logged.\<close>

definition EnsureTopic :: "notification_config \<Rightarrow> proc_act list" where
  "EnsureTopic cfg = (if notification_brokers cfg = [] then [] else [Topic (nc_topic cfg) 1])"

text \<open>What the chosen mode of consumption meets (\<^verbatim>\<open>consumer.Run\<close>); the offset of the group is the broker's.\<close>

record notification_boot =
  nb_connects :: bool
  nb_pings :: bool
  nb_index :: bool
  nb_simple :: "(bool \<times> (int \<Rightarrow> (fetched \<times> save_env) list)) list"
  nb_group :: "(int \<Rightarrow> (fetched \<times> save_env) list) list"

definition consumer_Run ::
  "notification_config \<Rightarrow> notification_boot \<Rightarrow> mongo_store \<times> int \<Rightarrow> mongo_store \<times> int" where
  "consumer_Run cfg b = (\<lambda>(st, committed).
     if nc_use_group cfg then runGroupConsumer (nb_group b) (st, committed)
     else (runSimpleConsumer (nc_topic cfg) (nb_simple b) st, committed))"

definition notification_main ::
  "environ \<Rightarrow> notification_boot \<Rightarrow> mongo_store \<times> int \<Rightarrow> (mongo_store \<times> int) \<times> proc_act list \<times> ended" where
  "notification_main env b s = (case notification_Load env of
      None \<Rightarrow> (s, [], Exited 1)
    | Some cfg \<Rightarrow> (case mongo_Connect (nb_connects b) (nb_pings b) of
        (False, acts) \<Rightarrow> (s, acts, Exited 1)
      | (True, acts) \<Rightarrow>
          if \<not> nb_index b then (s, acts, Exited 1)
          else (consumer_Run cfg b s,
            acts @ [Slept (5 * ns_per_s)] @ EnsureTopic cfg @
              [Serving (CHR '':'' # nc_health_port cfg), Stopping, Closed MongoClient], Stopped)))"

section \<open>The aggregator\<close>

text \<open>\<^verbatim>\<open>clickhouse.NewClient\<close>: an opened connection that does not answer the ping stays open.\<close>

definition clickhouse_NewClient :: "bool \<Rightarrow> bool \<Rightarrow> bool \<times> proc_act list" where
  "clickhouse_NewClient opens pings = (if \<not> opens then (False, []) else (pings, [Opened ClickHouseConn]))"

text \<open>\<open>ab_store\<close>: the rows, errors, dead letters and offsets there are; \<open>ab_events\<close>: what the consumer meets.\<close>

record aggregator_boot =
  ab_opens :: bool
  ab_pings :: bool
  ab_rows :: "page_view_row list"
  ab_errors :: "(kafka_msg \<times> string) list"
  ab_dead :: "dlq_msg list"
  ab_offsets :: "int \<Rightarrow> int"
  ab_events :: "agg_event list"
  ab_close :: flush_env

definition aggregator_main ::
  "environ \<Rightarrow> aggregator_boot \<Rightarrow> consumer option \<times> proc_act list \<times> ended" where
  "aggregator_main env b = (case aggregator_Load env of
      None \<Rightarrow> (None, [], Exited 1)
    | Some cfg \<Rightarrow> (case clickhouse_NewClient (ab_opens b) (ab_pings b) of
        (False, acts) \<Rightarrow> (None, acts, Exited 1)
      | (True, acts) \<Rightarrow>
          (let dlq = NewDlqProducer (ac_kafka cfg) (ac_dlq_topic cfg) (ac_dlq_enabled cfg);
               more = (if dlq = None then [] else [DlqWriter]);
               up = acts @ map Opened more;
               down = map Closed more @ [Closed ClickHouseConn]
           in case NewBuffer (ac_batch_size cfg) (millis (ac_flush_ms cfg)) of
               Panic \<Rightarrow> (None, up @ down, Panicked)
             | Done buf \<Rightarrow> (case NewConsumer cfg buf dlq (ab_rows b) (ab_errors b) (ab_dead b) (ab_offsets b) of
                 None \<Rightarrow> (None, up, Exited 1)
               | Some c \<Rightarrow>
                   (Some (consumer_Close (ab_close b) (run_events (ab_events b) c)),
                    up @ [Opened KafkaReader, Serving (CHR '':'' # ac_health_port cfg), Stopping, Slept (2 * ns_per_s),
                      Closed KafkaReader] @ down, Stopped)))))"

section \<open>The producer\<close>

definition ensureTopics :: "producer_config \<Rightarrow> proc_act list" where
  "ensureTopics cfg = (if cfg_brokers cfg = [] then []
     else map (\<lambda>t. Topic t 3) [cfg_topic cfg, cfg_dlq_topic cfg])"

text \<open>What the producer meets: generator ticks, flush ticks, control requests.\<close>

datatype prod_event = GenTick nat "nat \<Rightarrow> gen_send" | FlushTick send_env | Control string "json option"

definition on_event :: "producer_config \<Rightarrow> gen_loop \<times> generator \<times> producer \<Rightarrow> prod_event \<Rightarrow> gen_loop \<times> generator \<times> producer" where
  "on_event cfg s ev = (case ev of
      GenTick r xs \<Rightarrow> gen_tick r xs s
    | FlushTick e \<Rightarrow> (case s of (l, g, p) \<Rightarrow> (l, g, flush_tick e p))
    | Control meth js \<Rightarrow> (case s of (l, gp) \<Rightarrow> (l, snd (HandleControl cfg meth js gp))))"

record producer_boot =
  pb_events :: "prod_event list"
  pb_close :: send_env

text \<open>
  Starting the generator's ticker reads its interval (which is always positive, \<open>GetInterval_bounds\<close>). A
  signal stops the generator, and the deferred \<^verbatim>\<open>Close\<close> flushes.
\<close>

definition producer_main :: "environ \<Rightarrow> producer_boot \<Rightarrow> (generator \<times> producer) option \<times> proc_act list \<times> ended" where
  "producer_main env b = (let cfg = producer_Load env; topics = ensureTopics cfg in
    case NewProducer cfg of
      Panic \<Rightarrow> (None, topics, Panicked)
    | Done None \<Rightarrow> (None, topics, Exited 1)
    | Done (Some p) \<Rightarrow>
       (let g = snd (GetInterval (NewGenerator (cfg_default_mode cfg) (cfg_default_rps cfg)));
            l = \<lparr>burst_active = False, burst_count = 0, burst_target = 0\<rparr>
        in case foldl (on_event cfg) (l, g, p) (pb_events b) of
            (l', g', p') \<Rightarrow> (Some (g', Close (pb_close b) p'),
              topics @ [Opened KafkaWriter, Serving (CHR '':'' # cfg_http_port cfg), Stopping, Closed KafkaWriter], Stopped)))"

end
