(* ===== verification/Producer_Properties.thy ===== *)
theory Producer_Properties
  imports Producer "HOL-Library.Multiset"
begin

text \<open>
  What the producer promises: in batch mode with working writes nothing is lost or reordered and the batch
  stays below its size, the latency window is the last thousand, bursts have exactly their size, and the
  aggregator accepts what the generator means to be valid, but for views of zero milliseconds; and where a
  failed flush, a change of mode or a negative flush interval strands or drops messages.
\<close>

section \<open>The batch\<close>

fun send_batches :: "(send_env \<times> prod_msg) list \<Rightarrow> producer \<Rightarrow> producer" where
  "send_batches [] p = p"
| "send_batches ((e, m) # xs) p = send_batches xs (snd (sendBatch e m p))"

lemma WriteMessages_sel [simp]:
  "p_batch (snd (WriteMessages out ms p)) = p_batch p" "p_batch_size (snd (WriteMessages out ms p)) = p_batch_size p"
  "p_ticker (snd (WriteMessages out ms p)) = p_ticker p" "p_mode (snd (WriteMessages out ms p)) = p_mode p"
  by (cases out; simp add: WriteMessages_def Let_def)+

lemma on_metrics_sel [simp]:
  "p_batch (on_metrics f p) = p_batch p" "p_batch_size (on_metrics f p) = p_batch_size p"
  "p_topic (on_metrics f p) = p_topic p" "p_ticker (on_metrics f p) = p_ticker p" "p_mode (on_metrics f p) = p_mode p"
  by (simp_all add: on_metrics_def)

lemma Flush_acked:
  "se_out e = Acked \<Longrightarrow> p_topic (snd (Flush e p)) = p_topic p @ p_batch p \<and> p_batch (snd (Flush e p)) = [] \<and>
    p_batch_size (snd (Flush e p)) = p_batch_size p"
  by (simp add: Flush_def WriteMessages_def Let_def)

lemma sendBatch_acked:
  assumes "se_out e = Acked"
  shows "p_topic (snd (sendBatch e m p)) @ p_batch (snd (sendBatch e m p)) = p_topic p @ p_batch p @ [m]"
    and "p_batch_size (snd (sendBatch e m p)) = p_batch_size p"
    and "0 < p_batch_size p \<Longrightarrow> int (length (p_batch (snd (sendBatch e m p)))) < p_batch_size p"
  using Flush_acked [OF assms, of "p\<lparr>p_batch := p_batch p @ [m]\<rparr>"] by (auto simp: sendBatch_def Let_def)

text \<open>
  In batch mode, as long as the writes succeed, what reached Kafka followed by what is still in the
  batch is every message sent, in the order it was sent, and the batch never reaches its configured size.
\<close>

lemma batch_loses_nothing:
  assumes "\<forall>(e, m) \<in> set xs. se_out e = Acked" and "0 < p_batch_size p" and "int (length (p_batch p)) < p_batch_size p"
  shows "p_topic (send_batches xs p) @ p_batch (send_batches xs p) = p_topic p @ p_batch p @ map snd xs \<and>
    int (length (p_batch (send_batches xs p))) < p_batch_size p"
  using assms
proof (induction xs arbitrary: p)
  case (Cons x xs)
  obtain e m where x: "x = (e, m)" by fastforce
  have ack: "se_out e = Acked" using Cons.prems(1) x by auto
  note step = sendBatch_acked [OF ack]
  show ?case
    using Cons.IH [of "snd (sendBatch e m p)"] Cons.prems step(1) [of m p] step(3) [of p m] by (simp add: x step(2))
qed simp

definition demo_send :: "outcome \<Rightarrow> send_env" where
  "demo_send out = \<lparr>se_out = out, se_latency = 5, se_in_time = True, se_key = 3\<rparr>"

definition demo_producer :: "string \<Rightarrow> producer" where
  "demo_producer mode = \<lparr>p_mode = mode, p_batch_size = 2, p_interval = 10 ^ 9, p_strategy = ''key'', p_batch = [],
     p_ticker = Some (10 ^ 9, True), p_loops = 1,
     p_metrics = \<lparr>sent_count = 0, failed_count = 0, latencies = []\<rparr>, p_async = False, p_topic = []\<rparr>"

definition demo_pm :: "string \<Rightarrow> prod_msg" where
  "demo_pm i = \<lparr>pm_key = [], pm_value = None, pm_event_id = i\<rparr>"

text \<open>
  A flush whose write fails drops the whole batch: it is neither in Kafka nor kept for another attempt.
  With a synchronous writer the caller sees the failure and it counts as one; with the writer of a producer
  started in async mode the same loss is reported as a success and counts as a sent write.
\<close>

lemma failed_flush_drops_batch:
  assumes "p_batch p \<noteq> []" and "se_out e = FailedBefore"
  shows "let (ok, p') = Flush e p in p_batch p' = [] \<and> p_topic p' = p_topic p \<and> ok = p_async p \<and>
    failed_count (p_metrics p') = (if p_async p then failed_count (p_metrics p) else wrap64 (failed_count (p_metrics p) + 1)) \<and>
    sent_count (p_metrics p') = (if p_async p then wrap64 (sent_count (p_metrics p) + 1) else sent_count (p_metrics p))"
  using assms by (auto simp: Flush_def WriteMessages_def on_metrics_def RecordFailed_def RecordSent_def Let_def
      split: bool.split)

text \<open>
  With a flush interval of zero or less in the environment, or a negative batch size, the producer
  panics at its start: in batch mode, its default, for the interval and in every mode for the size.
\<close>

lemma startup_panics:
  assumes "broker_list (cfg_kafka (producer_Load env)) \<noteq> []"
    and "env ''BATCH_SIZE'' = show_int n" "in_int64 n"
    and "env ''FLUSH_MS'' = show_int k" "- (2 ^ 43) < k" "k < 2 ^ 43"
  shows "NewProducer (producer_Load env) = Panic \<longleftrightarrow>
    n < 0 \<or> (k \<le> 0 \<and> getEnv env ''SEND_MODE'' ''batch'' = ''batch'')"
proof -
  have "in_int64 k" using assms(5,6) by (simp add: in_int64_def)
  then have "cfg_batch_size (producer_Load env) = n" "cfg_flush_ms (producer_Load env) = k"
    using assms(2-4) by (simp_all add: producer_Load_def getEnv_def producer_parseInt_def or_default_set parse_int_show)
  moreover have "millis k = k * 10 ^ 6" using assms(5,6) by (simp add: millis_def in_int64_def)
  moreover have "cfg_mode (producer_Load env) = getEnv env ''SEND_MODE'' ''batch''" by (simp add: producer_Load_def)
  ultimately show ?thesis using assms(1) by (auto simp: NewProducer_def cfg_brokers_def Let_def)
qed

section \<open>Reconfiguration\<close>

lemma Send_other_mode:
  assumes "p_mode p \<noteq> ''batch''"
  shows "p_batch (snd (Send e ev corrupt p)) = p_batch p \<and> p_mode (snd (Send e ev corrupt p)) = p_mode p \<and>
    p_ticker (snd (Send e ev corrupt p)) = p_ticker p"
  using assms
  by (cases "se_out e")
    (auto simp: Send_def send_by_mode_def sendSync_def sendAsync_def WriteMessages_def Let_def
      split: option.split bool.split)

datatype prod_step = SendStep send_env page_view bool | TickStep send_env

fun prod_steps :: "prod_step list \<Rightarrow> producer \<Rightarrow> producer" where
  "prod_steps [] p = p"
| "prod_steps (SendStep e ev c # xs) p = prod_steps xs (snd (Send e ev c p))"
| "prod_steps (TickStep e # xs) p = prod_steps xs (flush_tick e p)"

definition ticking :: "producer \<Rightarrow> bool" where
  "ticking p \<longleftrightarrow> (\<exists>i. p_ticker p = Some (i, True))"

lemma flush_tick_stopped: "\<not> ticking p \<Longrightarrow> flush_tick e p = p"
  by (auto simp: flush_tick_def ticking_def split: option.splits prod.splits bool.splits)

lemma stranded:
  assumes "\<not> ticking p" and "p_mode p \<noteq> ''batch''"
  shows "p_batch (prod_steps xs p) = p_batch p"
  using assms
proof (induction xs p rule: prod_steps.induct)
  case (2 e ev c xs p)
  then show ?case using Send_other_mode [of p e ev c] by (simp add: ticking_def)
qed (simp_all add: flush_tick_stopped)

text \<open>
  Switching away from batch mode strands what is in the batch: no later send and no tick of the
  stopped flush ticker writes it, until the producer is closed or switched back.
\<close>

lemma leaving_batch_mode_strands_batch:
  assumes "mode \<noteq> ''batch''"
  shows "let (res, p') = UpdateConfig mode bsize flush_ms strategy p in
    res = Done () \<and> p_batch (prod_steps xs p') = p_batch p"
proof -
  let ?p = "snd (UpdateConfig mode bsize flush_ms strategy p)"
  have "\<not> ticking ?p" "p_mode ?p = mode" "p_batch ?p = p_batch p"
    using assms by (auto simp: UpdateConfig_def ticking_def Let_def)
  then have "p_batch (prod_steps xs ?p) = p_batch p" using stranded [of ?p xs] assms by simp
  then show ?thesis using assms by (simp add: UpdateConfig_def Let_def)
qed

lemma UpdateConfig_panics:
  assumes "millis k \<le> 0"
  shows "\<exists>p1. UpdateConfig ''batch'' bsize k st p = (Panic, p1) \<and> \<not> ticking p1"
  using assms by (auto simp: UpdateConfig_def ticking_def Let_def)

text \<open>
  A control request that sets a negative flush interval in batch mode panics, after the old flush
  ticker was stopped: from then on no tick flushes anything.
\<close>

lemma negative_interval_panics:
  assumes "decode_body False control_fields
      \<lparr>cr_mode = [], cr_rps = 0, cr_batch_size = 0, cr_flush_ms = 0, cr_strategy = [], cr_send_mode = []\<rparr> body = Some q"
    and "cr_send_mode q = ''batch''" and "cr_flush_ms q < 0" and "- (2 ^ 43) < cr_flush_ms q"
  shows "let (res, (g', p')) = HandleControl cfg ''POST'' body (g, p) in
    res = Panic \<and> flush_tick e p' = p'"
proof -
  have "millis (cr_flush_ms q) = cr_flush_ms q * 10 ^ 6"
    using assms(3,4) by (simp add: millis_def in_int64_def)
  then have neg: "millis (cr_flush_ms q) \<le> 0" using assms(3) by simp
  let ?size = "if cr_batch_size q = 0 then cfg_batch_size cfg else cr_batch_size q"
  let ?st = "if cr_strategy q = [] then cfg_strategy cfg else cr_strategy q"
  obtain p1 where up: "UpdateConfig ''batch'' ?size (cr_flush_ms q) ?st p = (Panic, p1)" "\<not> ticking p1"
    using UpdateConfig_panics [OF neg] by blast
  show ?thesis
    using assms(1-3) up by (auto simp: HandleControl_def Let_def flush_tick_stopped)
qed

section \<open>Metrics\<close>

lemma RecordSent_window:
  assumes "length (latencies m) \<le> 1000"
  shows "latencies (RecordSent l m) = drop (length (latencies m @ [l]) - 1000) (latencies m @ [l])"
  using assms by (cases "length (latencies m) < 1000") (auto simp: RecordSent_def Let_def drop_Suc)

text \<open>
  The metrics keep exactly the latencies of the last thousand successful writes.
\<close>

lemma latency_window:
  assumes "length (latencies m) \<le> 1000"
  shows "latencies (foldl (\<lambda>m l. RecordSent l m) m ls) =
    drop (length (latencies m @ ls) - 1000) (latencies m @ ls)"
  using assms
proof (induction ls arbitrary: m)
  case (Cons l ls)
  let ?m = "RecordSent l m"
  have w: "latencies ?m = drop (length (latencies m) + 1 - 1000) (latencies m @ [l])"
    using RecordSent_window [OF Cons.prems] by simp
  have le: "length (latencies ?m) \<le> 1000" by (simp add: w)
  have "drop (length (latencies ?m @ ls) - 1000) (latencies ?m @ ls) =
      drop (length (latencies m @ l # ls) - 1000) (latencies m @ l # ls)"
    using Cons.prems by (cases "length (latencies m) < 1000") (simp_all add: w)
  then show ?case using Cons.IH [OF le] by simp
qed simp

lemma p95_index_20: "p95_index 20 = 19"
  by (simp add: p95_index_def float_eval)

text \<open>
  The 95th percentile of the metrics is taken from the latencies in the order they were recorded: the
  same twenty latencies in another order report another one, and a list with one slow write first
  reports the fast ones' latency although the comment says that the latencies are sorted.
\<close>

lemma p95_depends_on_order:
  "let slow_first = \<lparr>sent_count = 20, failed_count = 0, latencies = 100 # replicate 19 1\<rparr>;
       slow_last = \<lparr>sent_count = 20, failed_count = 0, latencies = replicate 19 1 @ [100]\<rparr>
   in mset (latencies slow_first) = mset (latencies slow_last) \<and>
     snd (snd (snd (GetStats slow_first))) = 1 \<and> snd (snd (snd (GetStats slow_last))) = 100"
  by (simp add: GetStats_def Let_def p95_index_20 nth_append)

section \<open>The generator\<close>

lemma pick_in: "xs \<noteq> [] \<Longrightarrow> pick xs d \<in> set xs"
  by (simp add: pick_def)

section \<open>Bursts\<close>

lemma Generate_counts:
  "g_mode (snd (Generate d g)) = g_mode g \<and> g_counter (snd (Generate d g)) = wrap64 (g_counter g + 1)"
  by (simp add: Generate_def Let_def split: option.split)

lemma generate_and_send_counts:
  "g_mode (fst (generate_and_send x s)) = g_mode (fst s) \<and>
   g_counter (fst (generate_and_send x s)) = wrap64 (g_counter (fst s) + 1)"
  using Generate_counts by (simp add: generate_and_send_def split: prod.split) (metis snd_conv)

lemma generate_many:
  "g_mode (fst (foldl (\<lambda>s i. generate_and_send (xs i) s) s [0..<n])) = g_mode (fst s) \<and>
   (in_int64 (g_counter (fst s)) \<longrightarrow>
    g_counter (fst (foldl (\<lambda>s i. generate_and_send (xs i) s) s [0..<n])) = wrap64 (g_counter (fst s) + int n))"
proof (induction n)
  case (Suc n)
  have "wrap64 (wrap64 (a + int n) + 1) = wrap64 (a + int (Suc n))" for a
    by (simp only: wrap64_wrap_add of_nat_Suc add.assoc [symmetric] add.commute [of 1])
  then show ?case using Suc by (simp add: generate_and_send_counts)
qed simp

lemma gen_tick_active:
  assumes "g_mode g = ''burst''" and "0 \<le> g_counter g" and "g_counter g + 10 < 2 ^ 63"
  shows "\<exists>g' p'. gen_tick r xs (\<lparr>burst_active = True, burst_count = c, burst_target = t\<rparr>, g, p) =
      (if t \<le> c + min 10 (t - c) then \<lparr>burst_active = False, burst_count = 0, burst_target = t\<rparr>
       else \<lparr>burst_active = True, burst_count = c + 10, burst_target = t\<rparr>, g', p') \<and>
    g_mode g' = ''burst'' \<and> g_counter g' = g_counter g + int (min 10 (t - c))"
proof -
  obtain n where n: "min 10 (t - c) = n" by simp
  obtain g' p' where run: "foldl (\<lambda>s i. generate_and_send (xs i) s) (g, p) [0..<n] = (g', p')" by fastforce
  have "in_int64 (g_counter g)" "in_int64 (g_counter g + int n)" using assms(2,3) n by (auto simp: in_int64_def)
  then have "g_mode g' = ''burst''" "g_counter g' = g_counter g + int n"
    using generate_many [of xs "(g, p)" n] run assms(1) by auto
  moreover have "n = 10" if "\<not> t \<le> c + n" using that n by simp
  moreover have "gen_tick r xs (\<lparr>burst_active = True, burst_count = c, burst_target = t\<rparr>, g, p) =
      (if t \<le> c + n then \<lparr>burst_active = False, burst_count = 0, burst_target = t\<rparr>
       else \<lparr>burst_active = True, burst_count = c + n, burst_target = t\<rparr>, g', p')"
    using assms(1) run by (simp add: gen_tick_def Let_def n)
  ultimately show ?thesis unfolding n by (intro exI [of _ g'] exI [of _ p']) simp
qed

lemma gen_tick_starts:
  "g_mode g = ''burst'' \<Longrightarrow> \<not> burst_active l \<Longrightarrow> gen_tick r xs (l, g, p) =
    gen_tick r xs (\<lparr>burst_active = True, burst_count = 0, burst_target = 100 + r mod 900\<rparr>, g, p)"
  by (simp add: gen_tick_def)

fun gen_ticks :: "(nat \<times> (nat \<Rightarrow> gen_send)) list \<Rightarrow> gen_loop \<times> generator \<times> producer \<Rightarrow> gen_loop \<times> generator \<times> producer" where
  "gen_ticks [] s = s"
| "gen_ticks ((r, xs) # ts) s = gen_ticks ts (gen_tick r xs s)"

lemma gen_ticks_active:
  assumes "g_mode g = ''burst''" and "0 \<le> g_counter g" and "g_counter g + int (t - c) + 10 < 2 ^ 63" and "c < t"
    and "length ts = (t - c + 9) div 10"
  shows "\<exists>g' p'. gen_ticks ts (\<lparr>burst_active = True, burst_count = c, burst_target = t\<rparr>, g, p) =
      (\<lparr>burst_active = False, burst_count = 0, burst_target = t\<rparr>, g', p') \<and> g_counter g' = g_counter g + int (t - c)"
  using assms
proof (induction ts arbitrary: c g p)
  case Nil
  then show ?case by simp
next
  case (Cons rx ts)
  obtain r xs where rx: "rx = (r, xs)" by fastforce
  obtain g1 p1 where tick: "gen_tick r xs (\<lparr>burst_active = True, burst_count = c, burst_target = t\<rparr>, g, p) =
      (if t \<le> c + min 10 (t - c) then \<lparr>burst_active = False, burst_count = 0, burst_target = t\<rparr>
       else \<lparr>burst_active = True, burst_count = c + 10, burst_target = t\<rparr>, g1, p1)"
    and g1: "g_mode g1 = ''burst''" "g_counter g1 = g_counter g + int (min 10 (t - c))"
    using gen_tick_active [of g r xs c t p] Cons.prems(1-3) by auto
  show ?case
  proof (cases "t \<le> c + 10")
    case True
    then have "(t - c + 9) div 10 = 1" using Cons.prems(4) by simp
    then have "ts = []" using Cons.prems(5) by simp
    moreover have "min 10 (t - c) = t - c" using True by simp
    ultimately show ?thesis using tick g1 True Cons.prems(4) by (simp add: rx)
  next
    case False
    then have "length ts = (t - (c + 10) + 9) div 10" using Cons.prems(5) by simp
    then show ?thesis
      using Cons.IH [of g1 "c + 10" p1] Cons.prems(2,3) tick g1 False by (auto simp: rx of_nat_diff)
  qed
qed

text \<open>
  A burst generates exactly the number of events drawn for it, between 100 and 999, ten per tick: after
  that many ticks divided by ten, rounded up, it is over.
\<close>

lemma burst_generates_its_size:
  assumes "g_mode g = ''burst''" and "\<not> burst_active l" and "0 \<le> g_counter g" and "g_counter g + 1010 < 2 ^ 63"
    and "drawn = 100 + fst (hd ts) mod 900" and "length ts = (drawn + 9) div 10"
  shows "let (l', g', p') = gen_ticks ts (l, g, p) in
    \<not> burst_active l' \<and> g_counter g' = g_counter g + int drawn \<and> 100 \<le> drawn \<and> drawn < 1000"
proof -
  have "drawn < 1000" using assms(5) by (simp add: less_le_trans)
  have "ts \<noteq> []" using assms(5,6) by auto
  then obtain r xs ts' where ts: "ts = (r, xs) # ts'" by (cases ts) auto
  have start: "gen_ticks ts (l, g, p) = gen_ticks ts (\<lparr>burst_active = True, burst_count = 0, burst_target = drawn\<rparr>, g, p)"
    using gen_tick_starts [OF assms(1,2), of r xs p] assms(5) by (simp add: ts)
  show ?thesis
    using gen_ticks_active [of g drawn 0 ts p] assms \<open>drawn < 1000\<close> by (auto simp: start)
qed

end
