(* ===== verification/Aggregator_Properties.thy ===== *)
theory Aggregator_Properties
  imports Aggregator
begin

text \<open>
  What the aggregator promises of page views: valid events become rows faithfully (up to the width of the
  duration column), an accepted event stays in the buffer or in the table whatever fails, offsets pass
  only what is inserted or reported as long as only one of the two ways is used at a time; and the two
  places where an offset passes a buffered event.
\<close>

section \<open>The buffer as a queue\<close>

text \<open>The contract of the consumer with its buffer.\<close>

locale batch_queue =
  fixes add :: "'m \<Rightarrow> 'b \<Rightarrow> bool \<times> 'b" and drain :: "'b \<Rightarrow> 'm list \<times> 'b"
    and put_back :: "'m list \<Rightarrow> 'b \<Rightarrow> 'b" and contents :: "'b \<Rightarrow> 'm list" and capacity :: "'b \<Rightarrow> int"
  assumes add_law: "contents (snd (add m b)) = contents b @ [m]" "capacity (snd (add m b)) = capacity b"
    and full_law: "fst (add m b) \<longleftrightarrow> capacity b \<le> int (length (contents b) + 1)"
    and drain_law: "fst (drain b) = contents b" "contents (snd (drain b)) = []" "capacity (snd (drain b)) = capacity b"
    and put_back_law: "contents (put_back ms b) = ms @ contents b" "capacity (put_back ms b) = capacity b"
begin

text \<open>A batch taken out and put back after more additions is in front of them: the order is kept.\<close>

lemma failed_batch_keeps_order:
  "contents (put_back (fst (drain b)) (foldl (\<lambda>b m. snd (add m b)) (snd (drain b)) ms)) = contents b @ ms"
proof -
  have "contents (foldl (\<lambda>b m. snd (add m b)) b' ms) = contents b' @ ms" for b'
    by (induction ms arbitrary: b') (simp_all add: add_law)
  then show ?thesis by (simp add: put_back_law drain_law)
qed

text \<open>Additions below the capacity do not ask for a flush, the one that reaches it does.\<close>

lemma asks_when_full:
  assumes "contents b = []" and "int (length ms) + 1 = capacity b"
  shows "fst (add m (foldl (\<lambda>b m. snd (add m b)) b ms))"
proof -
  have "contents (foldl (\<lambda>b m. snd (add m b)) b' ms) = contents b' @ ms \<and>
      capacity (foldl (\<lambda>b m. snd (add m b)) b' ms) = capacity b'" for b'
    by (induction ms arbitrary: b') (simp_all add: add_law)
  then show ?thesis using assms by (simp add: full_law)
qed

end

interpretation agg_buffer: batch_queue buf_Add buf_GetAndClear buf_PutBack buf_messages buf_max
  by unfold_locales (auto simp: buf_Add_def buf_GetAndClear_def buf_PutBack_def Let_def)

text \<open>
  A batch whose insert failed goes back in front of what arrived meanwhile, so the buffer is the
  queue of all pending messages in their order.
\<close>

lemma buffer_is_queue:
  "buf_messages (buf_PutBack (fst (buf_GetAndClear b)) (foldl (\<lambda>b m. snd (buf_Add m b)) (snd (buf_GetAndClear b)) ms)) =
    buf_messages b @ ms"
  by (rule agg_buffer.failed_batch_keeps_order)

section \<open>Validation and conversion\<close>

lemma row_of_valid:
  assumes "parseAndValidate data = Inr ev"
  defines "row now off part \<equiv> ConvertEventToRow now ev off part"
  shows "row_time (row now off part) = pv_timestamp ev" "row_page (row now off part) = pv_page_id ev"
    "row_user (row now off part) = pv_user_id ev"
    "row_date (row now off part) = pv_timestamp ev div ns_per_day * ns_per_day"
    "row_bounce (row now off part) = 1 \<longleftrightarrow> pv_bounce ev \<or> pv_duration ev < 5000"
    "row_duration_ms (row now off part) = pv_duration ev mod 2 ^ 32"
    "pv_duration ev < 2 ^ 32 \<Longrightarrow> row_duration_ms (row now off part) = pv_duration ev"
  using assms(1) by (auto simp: row_def parseAndValidate_iff valid_view_def ConvertEventToRow_def wrap32u_def Let_def)

text \<open>
  The row of a validated event: its own time, the midnight of the UTC day of that time as date, a
  bounce flag for an event that says so or is shorter than five seconds, and the duration modulo the
  \<open>2^32\<close> milliseconds of the column, which is the duration only below that.
\<close>

lemma row_of_valid_event:
  assumes "parseAndValidate data = Inr ev"
  shows "let row = ConvertEventToRow now ev off part in
    row_time row = pv_timestamp ev \<and> row_date row \<le> row_time row \<and> row_time row < row_date row + ns_per_day \<and>
    row_date row mod ns_per_day = 0 \<and> row_page row \<noteq> [] \<and> row_user row \<noteq> [] \<and>
    (row_bounce row = 1 \<longleftrightarrow> pv_bounce ev \<or> pv_duration ev < 5000) \<and>
    row_duration_ms row = pv_duration ev mod 2 ^ 32 \<and> (pv_duration ev < 2 ^ 32 \<longrightarrow> row_duration_ms row = pv_duration ev)"
proof -
  have day: "0 < ns_per_day" by (simp add: ns_per_day_def ns_per_s_def)
  have "pv_timestamp ev div ns_per_day * ns_per_day = pv_timestamp ev - pv_timestamp ev mod ns_per_day"
    by (simp add: minus_mod_eq_div_mult)
  moreover have "0 \<le> pv_timestamp ev mod ns_per_day" "pv_timestamp ev mod ns_per_day < ns_per_day"
    using day by simp_all
  moreover have "pv_page_id ev \<noteq> []" "pv_user_id ev \<noteq> []" using assms by (simp_all add: parseAndValidate_iff valid_view_def)
  ultimately show ?thesis using row_of_valid [OF assms] by (simp add: Let_def)
qed

definition demo_view :: "int \<Rightarrow> json option" where
  "demo_view ms = Some (JObj [(''page_id'', JStr ''p''), (''user_id'', JStr ''u''), (''view_duration_ms'', JInt ms),
     (''timestamp'', JStr ''2024-01-01T00:00:00Z'')])"

definition demo_view_event :: "int \<Rightarrow> page_view" where
  "demo_view_event ms = page_view_zero\<lparr>pv_page_id := ''p'', pv_user_id := ''u'', pv_duration := ms,
     pv_timestamp := 1704067200000000000\<rparr>"

lemma demo_timestamp: "parse_rfc3339 ''2024-01-01T00:00:00Z'' = Some 1704067200000000000"
  by (simp add: parse_rfc3339_def number_def expect_def fraction_def zone_def digit_val_def Let_def days_in_def
      days_of_civil_def ns_per_s_def)

lemma demo_view_valid: "0 < ms \<Longrightarrow> in_int64 ms \<Longrightarrow> parseAndValidate (demo_view ms) = Inr (demo_view_event ms)"
  by (simp add: parseAndValidate_def ParsePageViewEvent_def decode_body_def demo_view_def page_view_fields_def
      find_field_def demo_timestamp demo_view_event_def page_view_zero_def zero_time_def days_of_civil_def
      ns_per_day_def ns_per_s_def Let_def)

section \<open>Nothing accepted is lost in memory\<close>

definition accounted :: "consumer \<Rightarrow> buffered \<Rightarrow> bool" where
  "accounted c b \<longleftrightarrow> b \<in> set (buf_messages (c_buffer c)) \<or> snd b \<in> set (c_table c)"

lemma flush_accounted: "accounted c b \<Longrightarrow> accounted (flush e c) b"
  by (rule flush_cases [of e c]) (auto simp: accounted_def)

lemma on_tick_accounted: "accounted c b \<Longrightarrow> accounted (on_tick e c) b"
  by (simp add: on_tick_def flush_accounted)

lemma on_signal_accounted: "accounted c b \<Longrightarrow> accounted (on_signal e c) b"
  by (auto simp: on_signal_def accounted_def intro!: flush_accounted [unfolded accounted_def])

lemma run_message_accounted:
  assumes "accounted c b"
  shows "accounted (snd (run_message e m c)) b"
proof (cases "parseAndValidate (msg_value m)")
  case (Inl reason)
  let ?c = "c\<lparr>c_metrics := RecordConsumed (c_metrics c)\<rparr>"
  show ?thesis
    using assms error_rounds_spec [of "me_rounds e" m reason ?c]
    by (auto simp: run_message_def Inl accounted_def Let_def split: prod.split bool.split)
next
  case (Inr ev)
  obtain full b' where add: "buf_Add (m, ConvertEventToRow (me_now e) ev (msg_offset m) (msg_partition m)) (c_buffer c) = (full, b')"
    by fastforce
  have "accounted (c\<lparr>c_metrics := RecordConsumed (c_metrics c), c_buffer := b'\<rparr>) b"
    using assms agg_buffer.add_law(1) [of "(m, ConvertEventToRow (me_now e) ev (msg_offset m) (msg_partition m))" "c_buffer c"]
    by (auto simp: accounted_def add)
  then show ?thesis by (simp add: run_message_def Inr add Let_def flush_accounted)
qed

lemma run_events_accounted: "accounted c b \<Longrightarrow> accounted (run_events es c) b"
proof (induction es c rule: run_events.induct)
  case (4 m e es c)
  then show ?case using run_message_accounted [of c b e m] by (auto split: prod.split bool.split)
qed (simp_all add: on_tick_accounted on_signal_accounted)

lemma valid_message_accounted:
  assumes "parseAndValidate (msg_value m) = Inr ev"
  shows "accounted (snd (run_message e m c)) (m, ConvertEventToRow (me_now e) ev (msg_offset m) (msg_partition m))"
    and "fst (run_message e m c)"
proof -
  let ?b = "(m, ConvertEventToRow (me_now e) ev (msg_offset m) (msg_partition m))"
  obtain full b' where add: "buf_Add ?b (c_buffer c) = (full, b')" by fastforce
  have "accounted (c\<lparr>c_metrics := RecordConsumed (c_metrics c), c_buffer := b'\<rparr>) ?b"
    using agg_buffer.add_law(1) [of ?b "c_buffer c"] by (simp add: accounted_def add)
  then show "accounted (snd (run_message e m c)) ?b" "fst (run_message e m c)"
    by (simp_all add: run_message_def assms add Let_def flush_accounted)
qed

text \<open>
  A valid message that was processed is, after any further messages, ticks, insert failures and
  failed commits, still in the buffer or its row is in the table.
\<close>

lemma accepted_views_not_dropped:
  assumes "parseAndValidate (msg_value m) = Inr ev"
  shows "let row = ConvertEventToRow (me_now e) ev (msg_offset m) (msg_partition m);
      c' = run_events es (snd (run_message e m c))
    in (m, row) \<in> set (buf_messages (c_buffer c')) \<or> row \<in> set (c_table c')"
  using run_events_accounted [OF valid_message_accounted(1) [OF assms], where es = es]
  by (simp add: accounted_def Let_def)

definition demo_msg :: "int \<Rightarrow> json option \<Rightarrow> kafka_msg" where
  "demo_msg off v = \<lparr>msg_partition = 0, msg_offset = off, msg_value = v\<rparr>"

definition demo_flush :: "outcome \<Rightarrow> flush_env" where
  "demo_flush out = \<lparr>fl_out = (\<lambda>_. out), fl_stop = (\<lambda>_. False), fl_commit_ok = True, fl_now = 9\<rparr>"

definition demo_msg_env :: msg_env where
  "demo_msg_env = \<lparr>me_now = 5, me_rounds = [(\<lambda>_. (Acked, Acked), \<lambda>_. False)], me_commit_ok = True,
     me_flush = demo_flush Acked\<rparr>"

definition demo_buffer :: buffer where
  "demo_buffer = \<lparr>buf_messages = [], buf_max = 10, buf_ticker = True, buf_signal = False\<rparr>"

definition demo_consumer :: consumer where
  "demo_consumer = \<lparr>c_buffer = demo_buffer,
     c_metrics = \<lparr>m_consumed = 0, m_inserted = 0, m_dlq = 0, m_ch_errors = 0, m_last_flush = 0\<rparr>,
     c_dlq_enabled = True, c_table = [], c_errors = [], c_dlq = [], c_group_offset = (\<lambda>_. 0)\<rparr>"

section \<open>Offsets\<close>

text \<open>The offsets of a partition are fetched in ascending order, from \<open>lo\<close> on.\<close>

fun ascending :: "(int \<Rightarrow> int) \<Rightarrow> agg_event list \<Rightarrow> bool" where
  "ascending lo [] = True"
| "ascending lo (Fetched m e # es) =
    (lo (msg_partition m) \<le> msg_offset m \<and> ascending (lo(msg_partition m := msg_offset m + 1)) es)"
| "ascending lo (_ # es) = ascending lo es"

definition valid_msg :: "kafka_msg \<Rightarrow> bool" where
  "valid_msg m \<longleftrightarrow> \<not> is_err (parseAndValidate (msg_value m))"

fun all_valid :: "agg_event list \<Rightarrow> bool" where
  "all_valid [] = True"
| "all_valid (Fetched m e # es) = (valid_msg m \<and> all_valid es)"
| "all_valid (_ # es) = all_valid es"

text \<open>What is buffered is neither committed past nor beyond what was fetched.\<close>

definition behind :: "(int \<Rightarrow> int) \<Rightarrow> consumer \<Rightarrow> bool" where
  "behind lo c \<longleftrightarrow> (\<forall>p. c_group_offset c p \<le> lo p) \<and>
     (\<forall>b \<in> set (buf_messages (c_buffer c)). c_group_offset c (msg_partition (fst b)) \<le> msg_offset (fst b) \<and>
        msg_offset (fst b) < lo (msg_partition (fst b)))"

lemma commit_msgs_le:
  assumes "\<forall>m \<in> set ms. msg_offset m < lo (msg_partition m)" and "g p \<le> lo p"
  shows "commit_msgs ms g p \<le> lo p"
proof -
  let ?offs = "map msg_offset (filter (\<lambda>m. msg_partition m = p) ms)"
  have "\<forall>x \<in> set ?offs. x < lo p" using assms(1) by auto
  then have "?offs \<noteq> [] \<Longrightarrow> Max (set ?offs) < lo p" by (subst Max_less_iff) (auto simp del: set_map)
  then show ?thesis using assms(2) by (simp add: commit_msgs_def Let_def add1_zle_eq del: set_map set_filter)
qed

lemma flush_behind:
  assumes "behind lo c"
  shows "behind lo (flush e c)"
proof -
  have le: "commit_msgs (map fst (buf_messages (c_buffer c))) (c_group_offset c) p \<le> lo p" for p
    using assms by (intro commit_msgs_le) (auto simp: behind_def)
  show ?thesis
  proof (rule flush_cases [of e c])
    assume "buf_messages (c_buffer (flush e c)) = []"
      "c_group_offset (flush e c) \<in> {c_group_offset c, commit_msgs (map fst (buf_messages (c_buffer c))) (c_group_offset c)}"
    then show ?thesis using assms le by (auto simp: behind_def)
  next
    assume "buf_messages (c_buffer (flush e c)) = buf_messages (c_buffer c)" "c_group_offset (flush e c) = c_group_offset c"
    then show ?thesis using assms by (simp add: behind_def)
  qed (use assms in simp)
qed

lemma on_tick_behind: "behind lo c \<Longrightarrow> behind lo (on_tick e c)"
  by (simp add: on_tick_def flush_behind)

lemma on_signal_behind:
  assumes "behind lo c"
  shows "behind lo (on_signal e c)"
proof -
  have "behind lo (c\<lparr>c_buffer := (c_buffer c)\<lparr>buf_signal := False\<rparr>\<rparr>)" using assms by (simp add: behind_def)
  then show ?thesis using assms by (simp add: on_signal_def flush_behind)
qed

lemma run_message_behind:
  assumes "behind lo c" and "valid_msg m" and "lo (msg_partition m) \<le> msg_offset m"
  shows "fst (run_message e m c) \<and> behind (lo(msg_partition m := msg_offset m + 1)) (snd (run_message e m c))"
proof -
  obtain ev where ev: "parseAndValidate (msg_value m) = Inr ev"
    using assms(2) by (cases "parseAndValidate (msg_value m)") (auto simp: valid_msg_def)
  let ?b = "(m, ConvertEventToRow (me_now e) ev (msg_offset m) (msg_partition m))"
  let ?lo = "lo(msg_partition m := msg_offset m + 1)"
  obtain full b' where add: "buf_Add ?b (c_buffer c) = (full, b')" by fastforce
  have "c_group_offset c (msg_partition m) \<le> lo (msg_partition m)" using assms(1) by (simp add: behind_def)
  then have "c_group_offset c (msg_partition m) \<le> msg_offset m" "c_group_offset c (msg_partition m) \<le> msg_offset m + 1"
    using assms(3) by linarith+
  moreover have "\<forall>b \<in> set (buf_messages (c_buffer c)). msg_partition (fst b) = msg_partition m \<longrightarrow> msg_offset (fst b) \<le> msg_offset m"
    using assms(1,3) unfolding behind_def by force
  ultimately have "behind ?lo (c\<lparr>c_metrics := RecordConsumed (c_metrics c), c_buffer := b'\<rparr>)"
    using assms(1) agg_buffer.add_law(1) [of ?b "c_buffer c"] by (simp add: behind_def add)
  then show ?thesis by (simp add: run_message_def ev add Let_def flush_behind)
qed

lemma run_events_behind:
  assumes "behind lo c" and "ascending lo es" and "all_valid es"
  shows "\<exists>lo'. behind lo' (run_events es c)"
  using assms
proof (induction es c arbitrary: lo rule: run_events.induct)
  case (4 m e es c)
  then show ?case using run_message_behind [of lo c m e] by (cases "run_message e m c") auto
next
  case (2 e es c)
  then show ?case using on_tick_behind by fastforce
next
  case (3 e es c)
  then show ?case using on_signal_behind by fastforce
qed auto

lemma fetched_accounted:
  assumes "all_valid es" and "Fetched m e \<in> set es" and "parseAndValidate (msg_value m) = Inr ev"
  shows "accounted (run_events es c) (m, ConvertEventToRow (me_now e) ev (msg_offset m) (msg_partition m))"
  using assms
proof (induction es c rule: run_events.induct)
  case (4 m' e' es c)
  obtain ev' where ev': "parseAndValidate (msg_value m') = Inr ev'"
    using "4.prems"(1) by (cases "parseAndValidate (msg_value m')") (auto simp: valid_msg_def)
  obtain c' where run: "run_message e' m' c = (True, c')"
    using valid_message_accounted(2) [OF ev', of e' c] by (cases "run_message e' m' c") auto
  show ?case
  proof (cases "Fetched m e \<in> set es")
    case True
    then show ?thesis using "4.IH" [OF run [symmetric]] "4.prems" by (simp add: run)
  next
    case False
    then have "m = m'" "e = e'" using "4.prems"(2) by auto
    then show ?thesis
      using run_events_accounted [OF valid_message_accounted(1) [OF "4.prems"(3), of e c], of es] by (simp add: run)
  qed
qed simp_all



text \<open>
  C33: A message of the dead-letter path is committed at once, past the valid messages of its partition that
  are still in the buffer: those are lost if the process stops before the next flush.
\<close>

theorem dead_letter_commit_passes_buffer:
  assumes "b \<in> set (buf_messages (c_buffer c))" and "msg_partition (fst b) = msg_partition m"
    and "msg_offset (fst b) < msg_offset m" and "parseAndValidate (msg_value m) = Inl reason"
    and "run_message e m c = (True, c')" and "me_commit_ok e"
  shows "b \<in> set (buf_messages (c_buffer c')) \<and> c_table c' = c_table c \<and>
    msg_offset (fst b) < c_group_offset c' (msg_partition (fst b))"
proof -
  let ?c = "c\<lparr>c_metrics := RecordConsumed (c_metrics c)\<rparr>"
  obtain ok c1 where rounds: "error_rounds (me_rounds e) m reason ?c = (ok, c1)" by fastforce
  have "c' = CommitMessages True [m] c1"
    using assms(4-6) rounds by (cases ok) (auto simp: run_message_def Let_def)
  then show ?thesis
    using error_rounds_spec [of "me_rounds e" m reason ?c] rounds assms(1-3)
    by (auto simp: CommitMessages_def commit_msgs_def)
qed

lemma demo_invalid: "parseAndValidate None = Inl ''json parse''"
  by (simp add: parseAndValidate_def ParsePageViewEvent_def decode_body_def)

theorem dead_letter_commit_passes_buffer_witness:
  "let c = demo_consumer\<lparr>c_buffer := demo_buffer\<lparr>buf_messages := [(demo_msg 0 (demo_view 9), ConvertEventToRow 5 (demo_view_event 9) 0 0)]\<rparr>\<rparr>;
       c' = snd (run_message demo_msg_env (demo_msg 1 None) c)
   in buf_messages (c_buffer c') \<noteq> [] \<and> c_table c' = [] \<and> 0 < c_group_offset c' 0"
proof -
  let ?b = "(demo_msg 0 (demo_view 9), ConvertEventToRow 5 (demo_view_event 9) 0 0)"
  let ?c = "demo_consumer\<lparr>c_buffer := demo_buffer\<lparr>buf_messages := [?b]\<rparr>\<rparr>"
  have "fst (run_message demo_msg_env (demo_msg 1 None) ?c)"
    by (simp add: run_message_def demo_msg_def demo_invalid demo_msg_env_def handleErrorWithRetry_def demo_consumer_def
        dlq_max_attempts_def numeral_eq_Suc handleError_def dlq_Send_def InsertError_def Let_def)
  then obtain c' where run: "run_message demo_msg_env (demo_msg 1 None) ?c = (True, c')"
    by (cases "run_message demo_msg_env (demo_msg 1 None) ?c") auto
  from dead_letter_commit_passes_buffer [of ?b ?c "demo_msg 1 None" "''json parse''" demo_msg_env c', OF _ _ _ _ run]
  show ?thesis
    using run by (auto simp: demo_msg_def demo_invalid demo_msg_env_def demo_consumer_def Let_def)
qed

text \<open>
  C34: Two flushes that overlap lose a batch as well: the later batch is committed while the earlier one
  fails and goes back to the buffer, behind the group's offset.
\<close>

theorem overlapping_flushes_commit_past_failure:
  assumes "flush_take c = (ms1, c1)" and "flush_take (run_events es c1) = (ms2, c3)"
    and "m1 \<in> fst ` set ms1" and "m2 \<in> fst ` set ms2" and "msg_partition m1 = msg_partition m2"
    and "msg_offset m1 < msg_offset m2"
    and "\<forall>k. fl_out e1 k = FailedBefore" and "fl_out e2 0 = Acked" and "fl_commit_ok e2"
  shows "let c5 = flush_finish e1 ms1 (flush_finish e2 ms2 c3) in
    m1 \<in> fst ` set (buf_messages (c_buffer c5)) \<and> msg_offset m1 < c_group_offset c5 (msg_partition m1)"
proof -
  have fails: "insert_loop out stop rows k n c = (False, c)" if "\<forall>k. out k = FailedBefore" for out stop rows k n c
    using that by (induction n arbitrary: k) (simp_all add: InsertRawBatch_def Let_def)
  have ne: "ms1 \<noteq> []" "ms2 \<noteq> []" using assms(3,4) by auto
  let ?c4 = "flush_finish e2 ms2 c3"
  have "c_group_offset ?c4 (msg_partition m1) = commit_msgs (map fst ms2) (c_group_offset c3) (msg_partition m1)"
    using ne(2) assms(8,9) by (simp add: flush_finish_def insertWithRetry_def insert_max_attempts_def numeral_eq_Suc
        InsertRawBatch_def CommitMessages_def Let_def)
  moreover have "msg_offset m2 < commit_msgs (map fst ms2) (c_group_offset c3) (msg_partition m1)"
  proof -
    let ?offs = "map msg_offset (filter (\<lambda>m. msg_partition m = msg_partition m1) (map fst ms2))"
    have "msg_offset m2 \<in> set ?offs" using assms(4,5) by force
    then have "msg_offset m2 \<le> Max (set ?offs)" "?offs \<noteq> []" by (auto intro: Max_ge simp del: set_map)
    then show ?thesis by (simp add: commit_msgs_def Let_def)
  qed
  moreover have "flush_finish e1 ms1 ?c4 = ?c4\<lparr>c_metrics := RecordCHError (c_metrics ?c4), c_buffer := buf_PutBack ms1 (c_buffer ?c4)\<rparr>"
    using ne(1) fails [OF assms(7)] by (simp add: flush_finish_def insertWithRetry_def)
  ultimately show ?thesis using assms(3,6) ne(1) by (force simp: buf_PutBack_def Let_def)
qed

theorem overlapping_flushes_commit_past_failure_witness:
  "let b = (demo_msg 0 (demo_view 9), ConvertEventToRow 5 (demo_view_event 9) 0 0);
       (ms1, c1) = flush_take (demo_consumer\<lparr>c_buffer := demo_buffer\<lparr>buf_messages := [b]\<rparr>\<rparr>);
       (ms2, c3) = flush_take (run_events [Fetched (demo_msg 1 (demo_view 9)) demo_msg_env] c1);
       c5 = flush_finish (demo_flush FailedBefore) ms1 (flush_finish (demo_flush Acked) ms2 c3)
   in 0 < c_group_offset c5 0"
proof -
  let ?b = "(demo_msg 0 (demo_view 9), ConvertEventToRow 5 (demo_view_event 9) 0 0)"
  let ?c = "demo_consumer\<lparr>c_buffer := demo_buffer\<lparr>buf_messages := [?b]\<rparr>\<rparr>"
  let ?c1 = "demo_consumer\<lparr>c_buffer := demo_buffer\<lparr>buf_messages := []\<rparr>\<rparr>"
  have t1: "flush_take ?c = ([?b], ?c1)" by (simp add: flush_take_def buf_GetAndClear_def)
  have v: "parseAndValidate (msg_value (demo_msg 1 (demo_view 9))) = Inr (demo_view_event 9)"
    by (simp add: demo_msg_def demo_view_valid in_int64_def)
  obtain ms2 c3 where t2: "flush_take (run_events [Fetched (demo_msg 1 (demo_view 9)) demo_msg_env] ?c1) = (ms2, c3)"
    by fastforce
  then have "demo_msg 1 (demo_view 9) \<in> fst ` set ms2"
    by (auto simp: run_message_def v buf_Add_def demo_buffer_def flush_take_def buf_GetAndClear_def Let_def)
  with overlapping_flushes_commit_past_failure [OF t1 t2, of "fst ?b" "demo_msg 1 (demo_view 9)"
      "demo_flush FailedBefore" "demo_flush Acked"]
  have "0 < c_group_offset (flush_finish (demo_flush FailedBefore) [?b] (flush_finish (demo_flush Acked) ms2 c3)) 0"
    by (simp add: demo_msg_def demo_flush_def Let_def)
  then show ?thesis unfolding Let_def t1 prod.case t2 .
qed

section \<open>Retries\<close>

text \<open>The attempts made: up to the first acknowledged one.\<close>

fun performed :: "(nat \<Rightarrow> outcome) \<Rightarrow> nat \<Rightarrow> nat \<Rightarrow> nat list" where
  "performed out k 0 = []"
| "performed out k (Suc n) = k # (if out k = Acked then [] else performed out (k + 1) n)"

lemma insert_loop_table:
  assumes "\<forall>k. \<not> stop k"
  shows "c_table (snd (insert_loop out stop rows k n c)) =
      c_table c @ concat (map (\<lambda>j. if out j = FailedBefore then [] else rows) (performed out k n)) \<and>
    (fst (insert_loop out stop rows k n c) \<longleftrightarrow> (\<exists>j \<in> {k..<k + n}. out j = Acked))"
proof (induction n arbitrary: k c)
  case (Suc n)
  have split: "{k..<k + Suc n} = insert k {k + 1..<k + 1 + n}" by auto
  show ?case
    unfolding split using Suc.IH [of "k + 1"] assms by (cases "out k") (simp_all add: InsertRawBatch_def Let_def)
qed simp

text \<open>
  An insert that nobody cancels reports success exactly when one of its five attempts is acknowledged;
  the table then has the batch once for every attempt up to that one that reached the server, so a lost
  answer leaves duplicates (delivery is at least once).
\<close>

lemma insert_retries:
  assumes "\<forall>k. \<not> stop k"
  shows "let (ok, c') = insertWithRetry out stop rows c in
    (ok \<longleftrightarrow> (\<exists>j < 5. out j = Acked)) \<and>
    c_table c' = c_table c @ concat (map (\<lambda>j. if out j = FailedBefore then [] else rows) (performed out 0 5))"
proof -
  have "(\<exists>j \<in> {0..<0 + 5}. out j = Acked) \<longleftrightarrow> (\<exists>j < 5. out j = Acked)" by auto
  then show ?thesis
    using insert_loop_table [OF assms, of out rows 0 5 c]
    by (simp add: insertWithRetry_def insert_max_attempts_def split_beta)
qed

text \<open>
  C35: An invalid message is committed only after both the dead-letter topic (where it is enabled) and the
  error table have it; if the process is stopped before, its offset has not moved.
\<close>

theorem invalid_reported_before_commit:
  assumes "parseAndValidate (msg_value m) = Inl reason" and "run_message e m c = (goes_on, c')"
  shows "(goes_on \<longrightarrow> reported m reason c') \<and> (\<not> goes_on \<longrightarrow> c_group_offset c' = c_group_offset c)"
proof -
  let ?c = "c\<lparr>c_metrics := RecordConsumed (c_metrics c)\<rparr>"
  obtain ok c1 where rounds: "error_rounds (me_rounds e) m reason ?c = (ok, c1)" by fastforce
  have "goes_on = ok" "c' = (if ok then CommitMessages (me_commit_ok e) [m] c1 else c1)"
    using assms rounds by (cases ok; simp add: run_message_def Let_def)+
  then show ?thesis
    using error_rounds_spec [of "me_rounds e" m reason ?c] rounds by (auto simp: reported_def)
qed

theorem invalid_reported_before_commit_witness:
  "fst (run_message (demo_msg_env\<lparr>me_rounds := []\<rparr>) (demo_msg 1 None) demo_consumer) \<or>
   c_group_offset (snd (run_message (demo_msg_env\<lparr>me_rounds := []\<rparr>) (demo_msg 1 None) demo_consumer)) =
     c_group_offset demo_consumer"
proof -
  obtain g c' where run: "run_message (demo_msg_env\<lparr>me_rounds := []\<rparr>) (demo_msg 1 None) demo_consumer = (g, c')"
    by fastforce
  have "parseAndValidate (msg_value (demo_msg 1 None)) = Inl ''json parse''" by (simp add: demo_msg_def demo_invalid)
  from invalid_reported_before_commit [OF this run] show ?thesis by (auto simp: run)
qed

end
