(* ===== verification/View_Pipeline.thy ===== *)
theory View_Pipeline
  imports Producer_Properties Aggregator_Properties
begin

text \<open>
  The producer and the aggregator together: what \<^verbatim>\<open>ToJSON\<close> writes \<^verbatim>\<open>ParsePageViewEvent\<close> reads back, which
  generated events the aggregator's validation accepts, and the way of one page view from the generator
  into the table.
\<close>

section \<open>The payload\<close>

lemma member_step:
  "find_field fs k = Some (k', put) \<Longrightarrow> put r v = Some r' \<Longrightarrow>
    dec_members strict fs r ((k, v) # ms) = dec_members strict fs r' ms"
  by simp

lemma page_view_field:
  "find_field page_view_fields ''event_id'' = Some (''event_id'', \<lambda>q v. map_option (\<lambda>s. q\<lparr>pv_event_id := s\<rparr>) (dec_string (pv_event_id q) v))"
  "find_field page_view_fields ''page_id'' = Some (''page_id'', \<lambda>q v. map_option (\<lambda>s. q\<lparr>pv_page_id := s\<rparr>) (dec_string (pv_page_id q) v))"
  "find_field page_view_fields ''user_id'' = Some (''user_id'', \<lambda>q v. map_option (\<lambda>s. q\<lparr>pv_user_id := s\<rparr>) (dec_string (pv_user_id q) v))"
  "find_field page_view_fields ''view_duration_ms'' = Some (''view_duration_ms'', \<lambda>q v. map_option (\<lambda>i. q\<lparr>pv_duration := i\<rparr>) (dec_int64 (pv_duration q) v))"
  "find_field page_view_fields ''timestamp'' = Some (''timestamp'', \<lambda>q v. map_option (\<lambda>i. q\<lparr>pv_timestamp := i\<rparr>) (dec_time (pv_timestamp q) v))"
  "find_field page_view_fields ''user_agent'' = Some (''user_agent'', \<lambda>q v. map_option (\<lambda>s. q\<lparr>pv_user_agent := s\<rparr>) (dec_string (pv_user_agent q) v))"
  "find_field page_view_fields ''ip_address'' = Some (''ip_address'', \<lambda>q v. map_option (\<lambda>s. q\<lparr>pv_ip := s\<rparr>) (dec_string (pv_ip q) v))"
  "find_field page_view_fields ''region'' = Some (''region'', \<lambda>q v. map_option (\<lambda>s. q\<lparr>pv_region := s\<rparr>) (dec_string (pv_region q) v))"
  "find_field page_view_fields ''is_bounce'' = Some (''is_bounce'', \<lambda>q v. map_option (\<lambda>b. q\<lparr>pv_bounce := b\<rparr>) (dec_bool (pv_bounce q) v))"
  by (simp_all add: find_field_def page_view_fields_def)

lemma payload_reads_back:
  assumes "ToJSON ev = Some j" and "in_int64 (pv_duration ev)"
  shows "ParsePageViewEvent (Some j) = Some ev"
proof -
  obtain t where t: "json_time (pv_timestamp ev) = Some t"
    using assms(1) by (auto simp: ToJSON_def split: option.splits)
  note time = rfc3339_roundtrip [OF t]
  show ?thesis
    using assms(1) unfolding ToJSON_def t
    by (auto simp: ParsePageViewEvent_def decode_body_def page_view_field time assms(2) omitempty_def page_view_zero_def)
qed


text \<open>The generated event in 2024, a bounce of \<open>ms\<close> milliseconds.\<close>

definition demo_draws :: "nat \<Rightarrow> draws" where
  "demo_draws ms = \<lparr>dr_duplicate = 1, dr_event_uuid = ''e1'', dr_user_uuid = ''12345678-9'', dr_now = 1704067200123456789,
     dr_page = 0, dr_agent = 0, dr_ip = [1, 2, 3, 4], dr_region = 0, dr_error = 1, dr_error_type = 0, dr_error_ms = 0,
     dr_bounce = 0, dr_bounce_ms = ms, dr_view_ms = 0\<rparr>"

lemma demo_draws_sel [simp]:
  "dr_now (demo_draws ms) = 1704067200123456789" "dr_error (demo_draws ms) = 1" "dr_user_uuid (demo_draws ms) = ''12345678-9''"
  "dr_bounce (demo_draws ms) = 0" "dr_bounce_ms (demo_draws ms) = ms"
  by (simp_all add: demo_draws_def)

lemma demo_now: "json_time 1704067200123456789 \<noteq> None" "1704067200123456789 \<noteq> zero_time"
proof -
  have day: "ns_per_day = 86400000000000" by (simp add: ns_per_day_def ns_per_s_def)
  have "(1704067200123456789 :: int) div 86400000000000 = 19723" by (rule int_div_pos_eq [where r = 123456789]) simp_all
  moreover have "era_year 8706 = 23" "era_day_of_year 8706 = 306" by (simp_all add: era_day_of_year_def era_year_def)
  then have "civil_of_days 19723 = (2024, 1, 1)" using civil_of_days_eq [of 19723] by simp
  ultimately have "civil_of_days (1704067200123456789 div ns_per_day) = (2024, 1, 1)" unfolding day by simp
  then show "json_time 1704067200123456789 \<noteq> None" by (simp add: json_time_def)
  show "1704067200123456789 \<noteq> zero_time"
    by (simp add: zero_time_def days_of_civil_def day)
qed

lemma ToJSON_some: "json_time (pv_timestamp ev) \<noteq> None \<Longrightarrow> \<exists>j. ToJSON ev = Some j"
  by (auto simp: ToJSON_def)


section \<open>What the aggregator accepts\<close>

lemma generateNew_duration: "in_int64 (pv_duration (generateNew d))"
proof -
  have "dr_view_ms d mod 590000 < 590000" "dr_error_ms d mod 1000 < 1000" "dr_bounce_ms d mod 5000 < 5000"
    by simp_all
  then have "dr_view_ms d mod 590000 < 9223372036854765808" "dr_error_ms d mod 1000 \<le> 9223372036854775808"
    "dr_bounce_ms d mod 5000 < 9223372036854775808"
    by linarith+
  then show ?thesis by (simp add: generateNew_def generateErrorEvent_def Let_def in_int64_def page_view_zero_def)
qed

lemma generateNew_time: "pv_timestamp (generateNew d) = dr_now d"
  by (simp add: generateNew_def generateErrorEvent_def Let_def)

lemma pages_named: "pick pages k \<noteq> []"
  using pick_in [of pages k] by (auto simp: pages_def)

lemma generated_valid:
  assumes "5 / 100 \<le> dr_error d" and "dr_user_uuid d \<noteq> []" and "dr_now d \<noteq> zero_time"
  shows "valid_view (generateNew d) \<longleftrightarrow> \<not> (dr_bounce d < 10 / 100 \<and> dr_bounce_ms d mod 5000 = 0)"
  using assms pages_named by (auto simp: valid_view_def generateNew_def page_view_zero_def Let_def)

text \<open>
  An event that the generator did not mean to be invalid, written by the producer, passes the
  aggregator's validation unchanged, unless it is a bounce whose random duration is zero milliseconds:
  that one is a regular event for the producer and a dead letter for the aggregator.
\<close>

lemma generated_views_accepted:
  assumes "5 / 100 \<le> dr_error d" and "dr_user_uuid d \<noteq> []" and "dr_now d \<noteq> zero_time"
    and "ToJSON (generateNew d) = Some j"
  shows "parseAndValidate (Some j) =
    (if dr_bounce d < 10 / 100 \<and> dr_bounce_ms d mod 5000 = 0 then Inl ''duration <= 0'' else Inr (generateNew d))"
proof -
  have parsed: "ParsePageViewEvent (Some j) = Some (generateNew d)"
    by (rule payload_reads_back [OF assms(4) generateNew_duration])
  show ?thesis
  proof (cases "dr_bounce d < 10 / 100 \<and> dr_bounce_ms d mod 5000 = 0")
    case True
    then have "pv_duration (generateNew d) = 0" "pv_page_id (generateNew d) \<noteq> []" "pv_user_id (generateNew d) \<noteq> []"
      using assms(1,2) pages_named by (auto simp: generateNew_def Let_def)
    then show ?thesis using True by (simp add: parseAndValidate_def parsed)
  next
    case False
    then have "parseAndValidate (Some j) = Inr (generateNew d)"
      using generated_valid [OF assms(1-3)] by (simp add: parseAndValidate_iff parsed)
    then show ?thesis using False by simp
  qed
qed

section \<open>From the generator into the table\<close>

lemma flush_stores:
  assumes "accounted c b" and "fl_out f 0 = Acked"
  shows "snd b \<in> set (c_table (flush f c))"
proof (cases "buf_messages (c_buffer c) = []")
  case True
  then show ?thesis using assms(1)
    by (simp add: accounted_def flush_def flush_take_def buf_GetAndClear_def flush_finish_def)
next
  case False
  let ?ms = "buf_messages (c_buffer c)" and ?c = "c\<lparr>c_buffer := (c_buffer c)\<lparr>buf_messages := []\<rparr>\<rparr>"
  have ins: "insertWithRetry (fl_out f) (fl_stop f) (map snd ?ms) ?c = (True, ?c\<lparr>c_table := c_table c @ map snd ?ms\<rparr>)"
    using assms(2) by (simp add: insertWithRetry_def insert_max_attempts_def numeral_eq_Suc InsertRawBatch_def Let_def)
  have "snd b \<in> set (c_table c @ map snd ?ms)" using assms(1) by (auto simp: accounted_def)
  then show ?thesis
    using False by (simp add: flush_def flush_take_def buf_GetAndClear_def flush_finish_def ins CommitMessages_def Let_def)
qed

lemma sent_value:
  assumes "p_mode p = ''sync''" and "se_out e = Acked" and "ToJSON ev = Some j"
  shows "pm_value (last (p_topic (snd (Send e ev False p)))) = Some j"
  using assms by (simp add: Send_def send_by_mode_def sendSync_def WriteMessages_def Let_def message_of_def)



end
