(* ===== verification/Wallet_Requests.thy ===== *)
theory Wallet_Requests
  imports Wallet_Handlers
begin

text \<open>
  What requests do to the wallet: the status and state of every branch of the handlers the
  properties rest on, and the invariants of the statements (locale \<open>stmt_invariant\<close>) lifted through
  every handler to arbitrary sequences of requests with arbitrary database, RPC and Kafka failures.
\<close>

section \<open>Effects of the helpers\<close>

lemma on_db_eq: "on_db f s = (fst (f (ws_db s)), s\<lparr>ws_db := snd (f (ws_db s))\<rparr>)"
  by (simp add: on_db_def split: prod.splits)

lemma publish_large_sel [simp]:
  "ws_db (publish_large h e u t c a s) = ws_db s"
  "ws_client (publish_large h e u t c a s) = ws_client s"
  by (simp_all add: publish_large_def)

lemma on_client_eq: "on_client f c s = (fst (f c), s\<lparr>ws_client := Some (snd (f c))\<rparr>)"
  by (simp add: on_client_def split: prod.splits)

section \<open>Which credits a request can make\<close>

definition client_nonneg :: "wallet_state \<Rightarrow> bool" where
  "client_nonneg s \<longleftrightarrow> (\<forall>c. ws_client s = Some c \<longrightarrow> rates_nonneg (cacheRates c))"

text \<open>The driver keeps signs (documented behaviour of its numeric encoding).\<close>

definition codec_nonneg :: "codec \<Rightarrow> bool" where
  "codec_nonneg px \<longleftrightarrow> (\<forall>x. \<not> f_neg x \<longrightarrow> num_nonneg (enc px x))"

lemma not_f_le_0: "\<not> f_le x (Fin 0) \<Longrightarrow> \<not> f_neg x"
  by (cases x) auto

lemma exchanged_amount_nonneg: "\<not> f_neg a \<Longrightarrow> \<not> f_neg r \<Longrightarrow> \<not> f_neg (exchanged_amount a r)"
  by (simp add: exchanged_amount_def f_div100_nonneg f_round_nonneg f_mul_nonneg)

section \<open>The branches of the exchange\<close>

definition exchange_request :: "http_request \<Rightarrow> ExchangeRequest option" where
  "exchange_request r =
     decode_body True exchange_fields \<lparr>er_from = [], er_to = [], er_amount = Fin 0\<rparr> (req_body r)"

definition exchange_accepts :: "ExchangeRequest \<Rightarrow> bool" where
  "exchange_accepts q \<longleftrightarrow> \<not> f_le (er_amount q) (Fin 0) \<and> er_from q \<noteq> er_to q \<and>
     allowedCurrencies (er_from q) \<and> allowedCurrencies (er_to q)"

lemma HandleExchange_rejects:
  assumes "req_method r \<noteq> ''POST'' \<or> UserIDFromContext r = None \<or> exchange_request r = None \<or>
    (\<exists>q. exchange_request r = Some q \<and> \<not> exchange_accepts q)"
  shows "snd (HandleExchange h e r s) = s"
  using assms
  by (auto simp: HandleExchange_def exchange_request_def exchange_accepts_def split: option.split)

lemma HandleExchange_accepted:
  assumes "req_method r = ''POST''" and "UserIDFromContext r = Some uid"
    and "exchange_request r = Some q" and "exchange_accepts q"
  shows "HandleExchange h e r s = (case on_db (GetWalletIDByUserID uid) s of
      (Inl err, s1) \<Rightarrow>
        if err = ErrNotFound then (write_error 404 ''wallet not found'', s1) else (internal_error, s1)
    | (Inr wid, s1) \<Rightarrow> (case ws_client s1 of
        None \<Rightarrow> (write_error 503 ''exchange rate service unavailable'', s1)
      | Some c \<Rightarrow> (case on_client (GetRateWithSource (we_exch e) (er_from q) (er_to q)) c s1 of
          (Inl err, s2) \<Rightarrow>
            (write_error 400 (''exchange rate not available for '' @ er_from q @ ''_'' @ er_to q), s2)
        | (Inr (rt, src), s2) \<Rightarrow> (case on_db (Exchange (hd_codec h) wid (er_from q) (er_to q) (er_amount q)
              (exchanged_amount (er_amount q) rt)) s2 of
            (Inl err, s3) \<Rightarrow>
              if err = ErrInsufficientFunds then (write_error 400 ''insufficient funds'', s3)
              else (internal_error, s3)
          | (Inr newBalance, s3) \<Rightarrow>
              (write_json 200 (ExchangeBody ''Exchange successful'' rt
                 (exchanged_amount (er_amount q) rt) newBalance src),
               publish_large h e uid ''exchange'' (er_from q) (er_amount q) s3)))))"
  using assms by (simp add: HandleExchange_def exchange_request_def exchange_accepts_def)

lemma HandleExchange_cases:
  obtains "ws_db (snd (HandleExchange h e r s)) = ws_db s"
  | uid where "ws_db (snd (HandleExchange h e r s)) = snd (GetWalletIDByUserID uid (ws_db s))"
  | uid and q :: ExchangeRequest and wid c rt src where "\<not> f_le (er_amount q) (Fin 0)" "ws_client s = Some c"
      "fst (GetRateWithSource (we_exch e) (er_from q) (er_to q) c) = Inr (rt, src)"
      "ws_db (snd (HandleExchange h e r s)) = snd (Exchange (hd_codec h) wid (er_from q) (er_to q)
        (er_amount q) (exchanged_amount (er_amount q) rt) (snd (GetWalletIDByUserID uid (ws_db s))))"
proof (cases "req_method r \<noteq> ''POST'' \<or> UserIDFromContext r = None \<or> exchange_request r = None \<or>
    (\<exists>q. exchange_request r = Some q \<and> \<not> exchange_accepts q)")
  case True
  then show thesis using that(1) HandleExchange_rejects [OF True] by simp
next
  case False
  then obtain uid q where acc: "req_method r = ''POST''" "UserIDFromContext r = Some uid"
    "exchange_request r = Some q" "exchange_accepts q" by auto
  note run = HandleExchange_accepted [OF acc, of h e s]
  obtain res d where w: "GetWalletIDByUserID uid (ws_db s) = (res, d)" by fastforce
  show thesis
  proof (cases res)
    case (Inl err)
    then show thesis using that(2) [of uid] run w by (simp add: on_db_eq)
  next
    case (Inr wid)
    show thesis
    proof (cases "ws_client s")
      case None
      then show thesis using that(2) [of uid] run w Inr by (simp add: on_db_eq)
    next
      case (Some c)
      show thesis
      proof (cases "fst (GetRateWithSource (we_exch e) (er_from q) (er_to q) c)")
        case (Inl err)
        then show thesis using that(2) [of uid] run w Inr Some by (simp add: on_db_eq on_client_eq)
      next
        case rt: (Inr p)
        obtain rt src where p: "p = (rt, src)" by fastforce
        have "ws_db (snd (HandleExchange h e r s)) = snd (Exchange (hd_codec h) wid (er_from q) (er_to q)
          (er_amount q) (exchanged_amount (er_amount q) rt) (snd (GetWalletIDByUserID uid (ws_db s))))"
          using run w Inr Some rt p by (simp add: on_db_eq on_client_eq split: sum.split)
        then show thesis using that(3) [OF _ Some, of q rt src wid uid] rt p acc(4)
          by (simp add: exchange_accepts_def)
      qed
    qed
  qed
qed

section \<open>The branches of deposits and withdrawals\<close>

definition amount_request :: "http_request \<Rightarrow> AmountCurrencyRequest option" where
  "amount_request r = decode_body True amount_fields \<lparr>acr_amount = Fin 0, acr_currency = []\<rparr> (req_body r)"

definition amount_accepts :: "AmountCurrencyRequest \<Rightarrow> bool" where
  "amount_accepts q \<longleftrightarrow> \<not> f_le (acr_amount q) (Fin 0) \<and> allowedCurrencies (acr_currency q)"

lemma HandleDeposit_accepted:
  assumes "req_method r = ''POST''" and "UserIDFromContext r = Some uid"
    and "amount_request r = Some q" and "amount_accepts q" and "faults (ws_db s) = []"
    and "wallet_of (ws_db s) uid = Some w"
  shows "HandleDeposit h e r s =
    (case on_db (Deposit (hd_codec h) w (acr_currency q) (acr_amount q)) s of
       (Inl err, s2) \<Rightarrow>
         if err = ErrNotFound then (write_error 404 ''currency not found'', s2) else (internal_error, s2)
     | (Inr newAmount, s2) \<Rightarrow>
         (write_json 200 (AmountBody (acr_currency q) newAmount),
          publish_large h e uid ''deposit'' (acr_currency q) (acr_amount q) s2))"
  using assms
  by (simp add: HandleDeposit_def amount_request_def amount_accepts_def on_db_eq GetWalletIDByUserID_ok)

lemma HandleWithdraw_accepted:
  assumes "req_method r = ''POST''" and "UserIDFromContext r = Some uid"
    and "amount_request r = Some q" and "amount_accepts q" and "faults (ws_db s) = []"
    and "wallet_of (ws_db s) uid = Some w"
  shows "HandleWithdraw h e r s =
    (case on_db (Withdraw (hd_codec h) w (acr_currency q) (acr_amount q)) s of
       (Inl err, s2) \<Rightarrow>
         if err = ErrInsufficientFunds then (write_error 400 ''Insufficient funds'', s2)
         else if err = ErrNotFound then (write_error 404 ''currency not found'', s2)
         else (internal_error, s2)
     | (Inr newAmount, s2) \<Rightarrow>
         (write_json 200 (AmountBody (acr_currency q) newAmount),
          publish_large h e uid ''withdraw'' (acr_currency q) (acr_amount q) s2))"
  using assms
  by (simp add: HandleWithdraw_def amount_request_def amount_accepts_def on_db_eq GetWalletIDByUserID_ok)

section \<open>Invariants of the statements, through the handlers\<close>

context stmt_invariant begin

definition credits_ok :: "handler \<Rightarrow> wallet_env \<Rightarrow> wallet_state \<Rightarrow> bool" where
  "credits_ok h e s \<longleftrightarrow> (\<forall>x. creditable (enc (hd_codec h) x)) \<or>
     (\<forall>x. \<not> f_neg x \<longrightarrow> creditable (enc (hd_codec h) x)) \<and> env_nonneg (we_exch e) \<and> client_nonneg s"

lemma credits_ok_amount: "credits_ok h e s \<Longrightarrow> \<not> f_neg x \<Longrightarrow> creditable (enc (hd_codec h) x)"
  by (auto simp: credits_ok_def)

lemma credits_ok_rate:
  assumes "credits_ok h e s" and "ws_client s = Some c" and "\<not> f_neg a"
    and "fst (GetRateWithSource (we_exch e) f t c) = Inr (r, src)"
  shows "creditable (enc (hd_codec h) (exchanged_amount a r))"
proof -
  have "\<not> f_neg r" if "env_nonneg (we_exch e)" "client_nonneg s"
    using GetRateWithSource_nonneg [OF _ that(1) assms(4)] that(2) assms(2) by (simp add: client_nonneg_def)
  then show ?thesis using assms(1,3) exchanged_amount_nonneg by (auto simp: credits_ok_def)
qed

lemmas repo_keeps = CreateUser_keeps GetUserByUsername_keeps CreateWalletForUser_keeps CreateBalances_keeps
  GetWalletID_keeps GetBalances_keeps Withdraw_keeps

lemma on_db_keeps: "on_db f s = (x, s') \<Longrightarrow> I (ws_db s) \<Longrightarrow> (\<And>d. I d \<Longrightarrow> I (snd (f d))) \<Longrightarrow> I (ws_db s')"
  by (auto simp: on_db_eq)

lemma HandleRegister_keeps: "I (ws_db s) \<Longrightarrow> I (ws_db (snd (HandleRegister h e r s)))"
  by (auto simp: HandleRegister_def on_db_eq Let_def repo_keeps split: option.splits sum.splits)

lemma HandleLogin_keeps: "I (ws_db s) \<Longrightarrow> I (ws_db (snd (HandleLogin h e r s)))"
  by (auto simp: HandleLogin_def on_db_eq repo_keeps split: option.splits sum.splits prod.splits)

lemma HandleBalance_keeps: "I (ws_db s) \<Longrightarrow> I (ws_db (snd (HandleBalance h e r s)))"
  by (auto simp: HandleBalance_def on_db_eq repo_keeps split: option.splits sum.splits)

lemma HandleDeposit_keeps:
  "I (ws_db s) \<Longrightarrow> credits_ok h e s \<Longrightarrow> I (ws_db (snd (HandleDeposit h e r s)))"
  by (auto simp: HandleDeposit_def on_db_eq repo_keeps Deposit_keeps credits_ok_amount not_f_le_0
      split: option.splits sum.splits)

lemma HandleWithdraw_keeps: "I (ws_db s) \<Longrightarrow> I (ws_db (snd (HandleWithdraw h e r s)))"
  by (auto simp: HandleWithdraw_def on_db_eq repo_keeps split: option.splits sum.splits)

lemma HandleExchangeRates_keeps: "I (ws_db s) \<Longrightarrow> I (ws_db (snd (HandleExchangeRates h e r s)))"
  by (auto simp: HandleExchangeRates_def on_client_eq split: option.splits sum.splits)

lemma HandleHealth_keeps: "I (ws_db s) \<Longrightarrow> I (ws_db (snd (HandleHealth h e r s)))"
  using run_keeps [of "ws_db s" "\<lambda>d. (Inr (), d)"]
  by (auto simp: HandleHealth_def ping_db_def on_client_eq Let_def split: option.splits prod.splits)

lemma HandleExchange_keeps:
  assumes d: "I (ws_db s)" and cr: "credits_ok h e s"
  shows "I (ws_db (snd (HandleExchange h e r s)))"
proof (rule HandleExchange_cases [of h e r s])
  fix uid wid c rt src and q :: ExchangeRequest
  assume amt: "\<not> f_le (er_amount q) (Fin 0)" and c: "ws_client s = Some c"
    and rt: "fst (GetRateWithSource (we_exch e) (er_from q) (er_to q) c) = Inr (rt, src)"
    and eq: "ws_db (snd (HandleExchange h e r s)) = snd (Exchange (hd_codec h) wid (er_from q) (er_to q)
      (er_amount q) (exchanged_amount (er_amount q) rt) (snd (GetWalletIDByUserID uid (ws_db s))))"
  show ?thesis
    unfolding eq
    by (intro Exchange_keeps GetWalletID_keeps d credits_ok_rate [OF cr c not_f_le_0 [OF amt] rt])
qed (simp_all add: d GetWalletID_keeps)

lemma protected_keeps:
  assumes "I (ws_db s)" and "\<And>r. I (ws_db (snd (f h e r s)))"
  shows "I (ws_db (snd (protected f h e r s)))"
  unfolding protected_def
  by (rule AuthMiddleware_cases [of "hd_jwt h" "we_now e" "hd_secret h" "f h e" r s, OF refl])
    (use assms in auto)

lemma route_keeps: "I (ws_db s) \<Longrightarrow> credits_ok h e s \<Longrightarrow> I (ws_db (snd (route h e r s)))"
  by (simp add: route_def HandleRegister_keeps HandleLogin_keeps HandleHealth_keeps protected_keeps
      HandleBalance_keeps HandleDeposit_keeps HandleWithdraw_keeps HandleExchange_keeps HandleExchangeRates_keeps)

end

section \<open>The client state through the handlers\<close>

lemma on_client_rate_state:
  "on_client (GetRateWithSource e f t) c s =
    (fst (GetRateWithSource e f t c), s\<lparr>ws_client := Some (snd (GetAllRates e c))\<rparr>)"
  by (simp add: on_client_eq GetRateWithSource_client)

definition client_step :: "wallet_env \<Rightarrow> wallet_state \<Rightarrow> wallet_state \<Rightarrow> bool" where
  "client_step e s s' \<longleftrightarrow> ws_client s' = ws_client s \<or>
     (\<exists>c. ws_client s = Some c \<and> ws_client s' = Some (snd (GetAllRates (we_exch e) c)))"

lemma client_step_same: "ws_client s' = ws_client s \<Longrightarrow> client_step e s s'"
  by (simp add: client_step_def)

lemma client_step_get:
  "ws_client s = Some c \<Longrightarrow> ws_client s' = Some (snd (GetAllRates (we_exch e) c)) \<Longrightarrow> client_step e s s'"
  by (simp add: client_step_def)

lemma HandleExchange_client: "client_step e s (snd (HandleExchange h e r s))"
proof (cases "req_method r \<noteq> ''POST'' \<or> UserIDFromContext r = None \<or> exchange_request r = None \<or>
    (\<exists>q. exchange_request r = Some q \<and> \<not> exchange_accepts q)")
  case True
  then show ?thesis using HandleExchange_rejects [OF True] by (simp add: client_step_same)
next
  case False
  then obtain uid q where acc: "req_method r = ''POST''" "UserIDFromContext r = Some uid"
    "exchange_request r = Some q" "exchange_accepts q" by auto
  note run = HandleExchange_accepted [OF acc, of h e s]
  show ?thesis
  proof (cases "ws_client s")
    case None
    then show ?thesis by (intro client_step_same) (simp add: run on_db_eq split: sum.split)
  next
    case (Some c)
    show ?thesis
    proof (cases "fst (GetWalletIDByUserID uid (ws_db s))")
      case (Inl err)
      then show ?thesis by (intro client_step_same) (simp add: run on_db_eq)
    next
      case (Inr wid)
      with Some show ?thesis
        by (intro client_step_get [OF Some]) (simp add: run on_db_eq on_client_rate_state split: sum.split)
    qed
  qed
qed

lemma protected_client:
  assumes "\<And>r. client_step e s (snd (f h e r s))"
  shows "client_step e s (snd (protected f h e r s))"
  unfolding protected_def
  by (rule AuthMiddleware_cases [of "hd_jwt h" "we_now e" "hd_secret h" "f h e" r s, OF refl])
    (use assms in \<open>auto simp: client_step_same\<close>)

lemma handlers_same_client:
  "ws_client (snd (HandleRegister h e r s)) = ws_client s"
  "ws_client (snd (HandleLogin h e r s)) = ws_client s"
  "ws_client (snd (HandleBalance h e r s)) = ws_client s"
  "ws_client (snd (HandleDeposit h e r s)) = ws_client s"
  "ws_client (snd (HandleWithdraw h e r s)) = ws_client s"
  by (simp_all add: HandleRegister_def HandleLogin_def HandleBalance_def HandleDeposit_def
      HandleWithdraw_def on_db_eq split: sum.split option.split prod.split)

lemma HandleExchangeRates_client: "client_step e s (snd (HandleExchangeRates h e r s))"
  by (cases "ws_client s")
    (auto simp: HandleExchangeRates_def on_client_eq client_step_def split: sum.split)

lemma HandleHealth_client: "client_step e s (snd (HandleHealth h e r s))"
  by (cases "ws_client s")
    (auto simp: HandleHealth_def on_client_eq client_step_def Let_def split: prod.split)

lemmas handlers_client = handlers_same_client [THEN client_step_same] HandleExchangeRates_client
  HandleHealth_client HandleExchange_client

lemma route_client: "client_step e s (snd (route h e r s))"
  by (simp add: route_def handlers_client protected_client client_step_same)

lemma route_client_nonneg:
  assumes "client_nonneg s" and "env_nonneg (we_exch e)"
  shows "client_nonneg (snd (route h e r s))"
  using route_client [of e s h r] assms GetAllRates_nonneg(1)
  by (auto simp: client_step_def client_nonneg_def)

section \<open>Sequences of requests\<close>

lemma serve_solvent:
  assumes "bal_nonneg (ws_db s)" and "client_nonneg s" and "codec_nonneg (hd_codec h)"
    and "\<forall>(e, r) \<in> set rs. env_nonneg (we_exch e)"
  shows "bal_nonneg (ws_db (serve h rs s)) \<and> client_nonneg (serve h rs s)"
  using assms(1,2,4)
proof (induction rs arbitrary: s)
  case (Cons er rs)
  obtain e r where er: "er = (e, r)" by fastforce
  have "solvent.credits_ok h e s"
    using Cons.prems assms(3) er by (auto simp: solvent.credits_ok_def codec_nonneg_def)
  then have "bal_nonneg (ws_db (snd (route h e r s)))" using Cons.prems(1) by (intro solvent.route_keeps)
  moreover have "client_nonneg (snd (route h e r s))"
    using Cons.prems er by (auto intro: route_client_nonneg)
  ultimately show ?case using Cons.IH Cons.prems(3) er by simp
qed simp

section \<open>Kafka\<close>

text \<open>A response and the state it leaves, without what was sent to Kafka.\<close>

lemma handlers_kafka_env:
  fixes e :: wallet_env
  shows "HandleRegister h (e\<lparr>we_pub := p\<rparr>) r s = HandleRegister h e r s"
    "HandleLogin h (e\<lparr>we_pub := p\<rparr>) r s = HandleLogin h e r s"
    "HandleBalance h (e\<lparr>we_pub := p\<rparr>) r s = HandleBalance h e r s"
    "HandleExchangeRates h (e\<lparr>we_pub := p\<rparr>) r s = HandleExchangeRates h e r s"
    "HandleHealth h (e\<lparr>we_pub := p\<rparr>) r s = HandleHealth h e r s"
  by (simp_all add: HandleRegister_def HandleLogin_def HandleBalance_def HandleExchangeRates_def
      HandleHealth_def Let_def on_db_eq on_client_eq split: option.split sum.split prod.split)

definition forget_kafka :: "http_response \<times> wallet_state \<Rightarrow> http_response \<times> wallet_state" where
  "forget_kafka out = (fst out, (snd out)\<lparr>ws_kafka := []\<rparr>)"

lemma forget_publish [simp]:
  "forget_kafka (resp, publish_large h e uid t c a s) = forget_kafka (resp, s)"
  by (simp add: forget_kafka_def publish_large_def)

lemma money_kafka_env:
  fixes e :: wallet_env
  shows "forget_kafka (HandleDeposit h (e\<lparr>we_pub := p\<rparr>) r s) = forget_kafka (HandleDeposit h e r s)"
    "forget_kafka (HandleWithdraw h (e\<lparr>we_pub := p\<rparr>) r s) = forget_kafka (HandleWithdraw h e r s)"
    "forget_kafka (HandleExchange h (e\<lparr>we_pub := p\<rparr>) r s) = forget_kafka (HandleExchange h e r s)"
  by (simp_all add: HandleDeposit_def HandleWithdraw_def HandleExchange_def on_db_eq on_client_eq
      split: option.split sum.split)

end
