(* ===== verification/Wallet_Accounts.thy ===== *)
theory Wallet_Accounts
  imports Wallet_Requests
begin

text \<open>
  Registration and login: the request the handlers decode, what a registration without failures
  leaves in the database (\<open>registered\<close>), and what the other operations then read there.
\<close>

section \<open>Registration\<close>

definition register_request :: "http_request \<Rightarrow> RegisterRequest option" where
  "register_request r = decode_body True register_fields
     \<lparr>rr_username = [], rr_email = [], rr_password = []\<rparr> (req_body r)"

definition register_accepts :: "RegisterRequest \<Rightarrow> bool" where
  "register_accepts q \<longleftrightarrow> rr_username q \<noteq> [] \<and> rr_email q \<noteq> [] \<and> rr_password q \<noteq> []"

lemma HandleRegister_accepted:
  assumes "req_method r = ''POST''" and "register_request r = Some q" and "register_accepts q"
    and "HashPassword (hd_bcrypt h) (rr_password q) = Some hash"
  shows "HandleRegister h e r s =
    (case on_db (CreateUser (rr_username q) (rr_email q) hash) s of
       (Inl err, s1) \<Rightarrow>
         if err = ErrUserExists then (write_error 409 (err_text ErrUserExists), s1) else (internal_error, s1)
     | (Inr uid, s1) \<Rightarrow>
        (case on_db (CreateWalletForUser uid) s1 of
           (Inl err, s2) \<Rightarrow> (internal_error, s2)
         | (Inr wid, s2) \<Rightarrow>
            (case on_db (CreateBalancesForWallet wid) s2 of
               (Inl err, s3) \<Rightarrow> (internal_error, s3)
             | (Inr _, s3) \<Rightarrow> (write_json 201 (MessageBody ''registered''), s3))))"
  using assms by (auto simp: HandleRegister_def register_request_def register_accepts_def)

definition new_user :: "db \<Rightarrow> string \<Rightarrow> string \<Rightarrow> bool" where
  "new_user d name mail \<longleftrightarrow> user_seq d < max_bigint \<and> wallet_seq d \<le> max_bigint \<and>
     list_all (\<lambda>u. username u \<noteq> name \<and> email u \<noteq> mail) (users d)"

lemma new_user_faults [simp]: "new_user (d\<lparr>faults := fs\<rparr>) name mail = new_user d name mail"
  by (simp add: new_user_def)

lemma insert_user_new:
  assumes "new_user d name mail"
  shows "insert_user name mail hash d = (Inr (user_seq d), d\<lparr>user_seq := user_seq d + 1, users := users d @
      [\<lparr>user_id = user_seq d, username = name, email = mail, password_hash = hash\<rparr>]\<rparr>)"
  using assms by (auto simp: insert_user_def new_user_def list_ex_iff list_all_iff Let_def)

lemma no_wallet_yet:
  assumes "db_ok d"
  shows "find (\<lambda>w. wallet_user w = user_seq d) (wallets d) = None"
  using assms by (force simp: ok_defs find_None_iff)

definition registered :: "db \<Rightarrow> string \<Rightarrow> string \<Rightarrow> string \<Rightarrow> db" where
  "registered d name mail hash = d\<lparr>user_seq := user_seq d + 1, wallet_seq := wallet_seq d + 1,
     users := users d @
       [\<lparr>user_id = user_seq d, username = name, email = mail, password_hash = hash\<rparr>],
     wallets := wallets d @ [\<lparr>wallet_id = wallet_seq d, wallet_user = user_seq d\<rparr>],
     balances := balances d @ map (\<lambda>c. \<lparr>bal_wallet = wallet_seq d, bal_currency = c, bal_amount = Num 0\<rparr>)
       [''USD'', ''RUB'', ''EUR'']\<rparr>"

lemma no_balances_yet:
  assumes "db_ok d" and "r \<in> set (balances d)"
  shows "bal_wallet r \<noteq> wallet_seq d"
  using assms by (force simp: ok_defs)

lemma insert_wallet_new_user:
  assumes "db_ok d" and "wallet_seq d \<le> max_bigint"
  shows "insert_wallet (user_seq d) (d\<lparr>user_seq := n, users := users d @ [\<lparr>user_id = user_seq d, username = nm, email = m, password_hash = hs\<rparr>]\<rparr>)
    = (Inr (wallet_seq d), d\<lparr>user_seq := n, users := users d @ [\<lparr>user_id = user_seq d, username = nm, email = m, password_hash = hs\<rparr>],
        wallet_seq := wallet_seq d + 1, wallets := wallets d @ [\<lparr>wallet_id = wallet_seq d, wallet_user = user_seq d\<rparr>]\<rparr>)"
proof -
  have "\<not> list_ex (\<lambda>w. wallet_user w = user_seq d) (wallets d)"
    using assms(1) by (force simp: ok_defs list_ex_iff)
  then show ?thesis using assms(2) by (simp add: insert_wallet_def Let_def)
qed

lemma HandleRegister_success:
  assumes ok: "db_ok (ws_db s)" and nf: "faults (ws_db s) = []"
    and acc: "req_method r = ''POST''" "register_request r = Some q" "register_accepts q"
      "HashPassword (hd_bcrypt h) (rr_password q) = Some hash"
    and new: "new_user (ws_db s) (rr_username q) (rr_email q)"
  shows "HandleRegister h e r s = (write_json 201 (MessageBody ''registered''),
    s\<lparr>ws_db := registered (ws_db s) (rr_username q) (rr_email q) hash\<rparr>)"
proof -
  let ?d = "ws_db s"
  have no: "list_ex (bal_key (wallet_seq ?d) c) (balances ?d) = False" for c
    using no_balances_yet [OF ok] by (auto simp: list_ex_iff bal_key_def)
  have "wallet_seq ?d \<le> max_bigint" using new by (simp add: new_user_def)
  then show ?thesis
    by (simp add: HandleRegister_accepted [OF acc] on_db_eq CreateUser_def CreateWalletForUser_def nf
        insert_user_new [OF new] insert_wallet_new_user [OF ok] CreateBalancesForWallet_def supportedCurrencies_def
        insert_balance_def no chk_currency_def bal_key_def registered_def)
qed


definition login_request :: "http_request \<Rightarrow> LoginRequest option" where
  "login_request r = decode_body True login_fields \<lparr>lr_username = [], lr_password = []\<rparr> (req_body r)"

lemma find_registered:
  assumes "new_user d name mail"
  shows "find (\<lambda>u. username u = name) (users (registered d name mail hash)) =
    Some \<lparr>user_id = user_seq d, username = name, email = mail, password_hash = hash\<rparr>"
proof -
  have "find (\<lambda>u. username u = name) (users d) = None"
    using assms by (simp add: find_None_iff new_user_def list_all_iff)
  then show ?thesis by (simp add: registered_def find_append)
qed

lemma registered_wallet:
  assumes "db_ok d"
  shows "wallet_of (registered d name mail hash) (user_seq d) = Some (wallet_seq d)"
  using no_wallet_yet [OF assms] by (simp add: wallet_of_def registered_def find_append)

lemma registered_balances:
  assumes "db_ok d"
  shows "balance_of (registered d name mail hash) (wallet_seq d) c =
    (if chk_currency c then Some (Num 0) else None)"
proof -
  have "find (bal_key (wallet_seq d) c) (balances d) = None"
    using no_balances_yet [OF assms] by (auto simp: find_None_iff bal_key_def)
  then show ?thesis by (auto simp: balance_of_def registered_def find_append bal_key_def chk_currency_def)
qed

end
