(* ===== verification/Wallet_Access.thy ===== *)
theory Wallet_Access
  imports Wallet_Requests
begin

text \<open>
  Which requests reach which wallet. Every statement of the repository names one wallet and
  touches only the rows of that wallet; the handlers name the wallet of the user in the request's
  context; the middleware puts there the user of a valid token. Composed: a request changes at
  most the balances of the user whose token it carries.
\<close>

section \<open>Statements touch one wallet\<close>

definition wallet_rows :: "int \<Rightarrow> db \<Rightarrow> balance_row list" where
  "wallet_rows w d = filter (\<lambda>r. bal_wallet r = w) (balances d)"

lemma balance_of_rows: "balance_of d w c = map_option bal_amount (find (\<lambda>r. bal_currency r = c) (wallet_rows w d))"
  by (simp add: balance_of_def wallet_rows_def find_filter bal_key_def [abs_def])

lemma wallet_rows_sel [simp]:
  "wallet_rows w (d\<lparr>faults := fs\<rparr>) = wallet_rows w d"
  "wallet_rows w (d\<lparr>users := us\<rparr>) = wallet_rows w d"
  "wallet_rows w (d\<lparr>user_seq := i\<rparr>) = wallet_rows w d"
  "wallet_rows w (d\<lparr>wallets := ws\<rparr>) = wallet_rows w d"
  "wallet_rows w (d\<lparr>wallet_seq := i\<rparr>) = wallet_rows w d"
  "wallet_rows w (rollback d d') = wallet_rows w d"
  by (simp_all add: wallet_rows_def rollback_def)

lemma update_rows_filter:
  assumes "update_rows P f rs = Inr (rs', us)" and "\<And>r. P r \<Longrightarrow> bal_wallet r \<noteq> w"
  shows "filter (\<lambda>r. bal_wallet r = w) rs' = filter (\<lambda>r. bal_wallet r = w) rs"
  using assms(1)
proof (induction rs arbitrary: rs' us)
  case (Cons r rs)
  then show ?case using assms(2) [of r] by (auto split: sum.splits if_splits)
qed simp

lemma update_stmts_rows [simp]:
  "w' \<noteq> w \<Longrightarrow> wallet_rows w' (snd (credit_stmt w c x d)) = wallet_rows w' d"
  "w' \<noteq> w \<Longrightarrow> wallet_rows w' (snd (debit_stmt w c x d)) = wallet_rows w' d"
  by (auto simp: credit_stmt_def debit_stmt_def update_balances_def wallet_rows_def bal_key_def
      split: sum.split dest!: update_rows_filter [where w = w'])

lemma insert_rows [simp]:
  "wallet_rows w' (snd (insert_user n m h d)) = wallet_rows w' d"
  "wallet_rows w' (snd (insert_wallet u d)) = wallet_rows w' d"
  "w' \<noteq> w \<Longrightarrow> wallet_rows w' (snd (insert_balance w c d)) = wallet_rows w' d"
  by (auto simp: insert_user_def insert_wallet_def insert_balance_def Let_def)
    (simp add: wallet_rows_def)

lemma select_rows [simp]:
  "snd (select_user n d) = d" "snd (select_wallet u d) = d" "snd (select_balances w d) = d" "snd (tx_begin d) = d"
  by (auto simp: select_user_def select_wallet_def select_balances_def tx_begin_def split: option.splits)

lemma run_stmt_rows:
  assumes "\<And>d. wallet_rows w (snd (st d)) = wallet_rows w d"
  shows "wallet_rows w (snd (run_stmt st d)) = wallet_rows w d"
  by (rule run_stmt_keeps [where I = "\<lambda>d'. wallet_rows w d' = wallet_rows w d"]) (simp_all add: assms)

lemma run_stmt_rows_eq:
  "run_stmt st d = (r, d') \<Longrightarrow> (\<And>d. wallet_rows w (snd (st d)) = wallet_rows w d) \<Longrightarrow>
    wallet_rows w d' = wallet_rows w d"
  using run_stmt_rows [of w st d] by simp

lemma reading_rows [simp]:
  "wallet_rows w' (snd (CreateUser n m h d)) = wallet_rows w' d"
  "wallet_rows w' (snd (GetUserByUsername n d)) = wallet_rows w' d"
  "wallet_rows w' (snd (CreateWalletForUser u d)) = wallet_rows w' d"
  "wallet_rows w' (snd (GetWalletIDByUserID u d)) = wallet_rows w' d"
  "wallet_rows w' (snd (GetBalances px w d)) = wallet_rows w' d"
  "wallet_rows w' (snd (ping_db d)) = wallet_rows w' d"
  by (auto simp: CreateUser_def GetUserByUsername_def CreateWalletForUser_def GetWalletIDByUserID_def
      GetBalances_def ping_db_def run_stmt_rows split: prod.splits sum.splits
      dest!: run_stmt_rows_eq [where w = w'])

lemma create_balances_rows: "w' \<noteq> w \<Longrightarrow> wallet_rows w' (snd (create_balances w cs d)) = wallet_rows w' d"
  by (induction cs arbitrary: d)
    (auto split: prod.splits sum.splits dest!: run_stmt_rows_eq [where w = w'])

lemma money_rows:
  assumes "w' \<noteq> w"
  shows "wallet_rows w' (snd (CreateBalancesForWallet w d)) = wallet_rows w' d"
    and "wallet_rows w' (snd (Deposit px w c x d)) = wallet_rows w' d"
    and "wallet_rows w' (snd (Withdraw px w c x d)) = wallet_rows w' d"
  using assms
  by (auto simp: CreateBalancesForWallet_def create_balances_rows Deposit_def Withdraw_def
      split: prod.splits sum.splits dest!: run_stmt_rows_eq [where w = w'])

lemma Exchange_rows:
  assumes "w' \<noteq> w"
  shows "wallet_rows w' (snd (Exchange px w cf ct x y d)) = wallet_rows w' d"
  using assms reading_rows(5) [of w' px w]
  by (auto simp: Exchange_def split: prod.splits sum.splits list.splits fault.splits
      dest!: run_stmt_rows_eq [where w = w'])

section \<open>Handlers touch the wallet of their user\<close>

lemma GetWalletIDByUserID_sound:
  assumes "fst (GetWalletIDByUserID uid d) = Inr wid"
  shows "\<exists>w \<in> set (wallets d). wallet_id w = wid \<and> wallet_user w = uid"
proof -
  obtain d' where run: "run_stmt (select_wallet uid) d = (Inr wid, d')"
    using assms by (auto simp: GetWalletIDByUserID_def split: prod.splits sum.splits)
  then obtain fs where "select_wallet uid (d\<lparr>faults := fs\<rparr>) = (Inr wid, d')"
    using run_stmt_result [OF run] by blast
  then show ?thesis by (auto simp: select_wallet_def find_Some_iff split: option.splits)
qed

lemma other_wallet:
  assumes "db_ok d" and "w \<in> set (wallets d)" and "fst (GetWalletIDByUserID uid d) = Inr wid"
    and "uid \<noteq> wallet_user w"
  shows "wallet_id w \<noteq> wid"
proof -
  obtain w0 where w0: "w0 \<in> set (wallets d)" "wallet_id w0 = wid" "wallet_user w0 = uid"
    using GetWalletIDByUserID_sound [OF assms(3)] by auto
  then have "w0 \<noteq> w" using assms(4) by auto
  then show ?thesis using assms(1,2) w0 by (auto simp: ok_defs distinct_map inj_on_def)
qed

text \<open>A new wallet has a new number.\<close>

lemma insert_wallet_new: "fst (insert_wallet u d) = Inr wid \<Longrightarrow> wid = wallet_seq d"
  by (auto simp: insert_wallet_def Let_def split: if_splits)

lemma CreateWalletForUser_new:
  assumes "fst (CreateWalletForUser u d) = Inr wid"
  shows "wid = wallet_seq d"
proof -
  obtain d' where run: "run_stmt (insert_wallet u) d = (Inr wid, d')"
    using assms by (auto simp: CreateWalletForUser_def split: prod.splits sum.splits)
  then obtain fs where "insert_wallet u (d\<lparr>faults := fs\<rparr>) = (Inr wid, d')"
    using run_stmt_result [OF run] by blast
  then show ?thesis using insert_wallet_new [of u "d\<lparr>faults := fs\<rparr>" wid] by simp
qed

lemma CreateUser_wallet_seq: "wallet_seq (snd (CreateUser n m h d)) = wallet_seq d"
proof -
  have "wallet_seq (snd (run_stmt (insert_user n m h) d)) = wallet_seq d"
    by (rule run_stmt_keeps [where I = "\<lambda>d'. wallet_seq d' = wallet_seq d"])
      (simp_all add: insert_user_def Let_def)
  then show ?thesis by (auto simp: CreateUser_def split: prod.splits sum.splits)
qed

lemma HandleRegister_rows:
  assumes "db_ok (ws_db s)" and "w \<in> set (wallets (ws_db s))"
  shows "wallet_rows (wallet_id w) (ws_db (snd (HandleRegister h e r s))) = wallet_rows (wallet_id w) (ws_db s)"
proof -
  have old: "wallet_id w < wallet_seq (ws_db s)" using assms by (simp add: ok_defs)
  have "wallet_id w \<noteq> wid" if "fst (CreateWalletForUser u (snd (CreateUser n m hs (ws_db s)))) = Inr wid"
    for u n m hs wid
    using CreateWalletForUser_new [OF that] old by (simp add: CreateUser_wallet_seq)
  then show ?thesis
    by (auto simp: HandleRegister_def on_db_eq money_rows Let_def split: option.split sum.split)
qed

text \<open>A handler that acts for another user leaves the wallet alone.\<close>

definition leaves_wallet :: "endpoint \<Rightarrow> bool" where
  "leaves_wallet f \<longleftrightarrow> (\<forall>h e r s w. db_ok (ws_db s) \<longrightarrow> w \<in> set (wallets (ws_db s)) \<longrightarrow>
     UserIDFromContext r \<noteq> Some (wallet_user w) \<longrightarrow>
     wallet_rows (wallet_id w) (ws_db (snd (f h e r s))) = wallet_rows (wallet_id w) (ws_db s))"

lemma leaves_walletI:
  assumes "\<And>h e r s w uid. db_ok (ws_db s) \<Longrightarrow> w \<in> set (wallets (ws_db s)) \<Longrightarrow>
      UserIDFromContext r \<noteq> Some (wallet_user w) \<Longrightarrow>
      (\<And>uid wid. UserIDFromContext r = Some uid \<Longrightarrow>
         fst (GetWalletIDByUserID uid (ws_db s)) = Inr wid \<Longrightarrow> wallet_id w \<noteq> wid) \<Longrightarrow>
      wallet_rows (wallet_id w) (ws_db (snd (f h e r s))) = wallet_rows (wallet_id w) (ws_db s)"
  shows "leaves_wallet f"
  unfolding leaves_wallet_def using assms other_wallet by blast

lemma simple_leave_wallet:
  "leaves_wallet HandleBalance" "leaves_wallet HandleDeposit" "leaves_wallet HandleWithdraw"
  by (rule leaves_walletI; auto simp: HandleBalance_def HandleDeposit_def HandleWithdraw_def on_db_eq money_rows
      split: option.split sum.split)+

lemma HandleExchangeRates_leaves_wallet: "leaves_wallet HandleExchangeRates"
  by (rule leaves_walletI)
    (auto simp: HandleExchangeRates_def on_client_eq split: option.split sum.split)

lemma HandleExchange_leaves_wallet: "leaves_wallet HandleExchange"
proof (rule leaves_walletI)
  fix h e r w and s :: wallet_state
  assume other: "\<And>uid wid. UserIDFromContext r = Some uid \<Longrightarrow>
    fst (GetWalletIDByUserID uid (ws_db s)) = Inr wid \<Longrightarrow> wallet_id w \<noteq> wid"
  show "wallet_rows (wallet_id w) (ws_db (snd (HandleExchange h e r s))) = wallet_rows (wallet_id w) (ws_db s)"
  proof (cases "req_method r \<noteq> ''POST'' \<or> UserIDFromContext r = None \<or> exchange_request r = None \<or>
      (\<exists>q. exchange_request r = Some q \<and> \<not> exchange_accepts q)")
    case True
    then show ?thesis using HandleExchange_rejects [OF True] by simp
  next
    case False
    then obtain uid q where acc: "req_method r = ''POST''" "UserIDFromContext r = Some uid"
      "exchange_request r = Some q" "exchange_accepts q" by auto
    show ?thesis
      using other [OF acc(2)]
      by (auto simp: HandleExchange_accepted [OF acc] on_db_eq on_client_eq Exchange_rows
          split: option.split sum.split)
  qed
qed

lemma HandleLogin_rows: "wallet_rows w (ws_db (snd (HandleLogin h e r s))) = wallet_rows w (ws_db s)"
  by (auto simp: HandleLogin_def on_db_eq split: option.split sum.split)

lemma HandleHealth_rows: "wallet_rows w (ws_db (snd (HandleHealth h e r s))) = wallet_rows w (ws_db s)"
  using reading_rows(6) [of w "ws_db s"]
  by (auto simp: HandleHealth_def on_client_eq Let_def simp del: reading_rows split: option.split prod.split)

section \<open>The routes behind the middleware\<close>

definition protected_route :: "string \<Rightarrow> endpoint option" where
  "protected_route p = map_of
     [(''/api/v1/balance'', HandleBalance), (''/api/v1/wallet/deposit'', HandleDeposit),
      (''/api/v1/wallet/withdraw'', HandleWithdraw), (''/api/v1/exchange'', HandleExchange),
      (''/api/v1/exchange/rates'', HandleExchangeRates)] p"

lemma route_protected: "protected_route (req_path r) = Some f \<Longrightarrow> route h e r s = protected f h e r s"
  by (auto simp: protected_route_def route_def split: if_splits)

lemma protected_route_leaves_wallet: "protected_route p = Some f \<Longrightarrow> leaves_wallet f"
  by (auto simp: protected_route_def simple_leave_wallet HandleExchangeRates_leaves_wallet
      HandleExchange_leaves_wallet split: if_splits)

lemma route_open:
  "protected_route (req_path r) = None \<Longrightarrow> route h e r s \<in>
     {HandleHealth h e r s, HandleRegister h e r s, HandleLogin h e r s, (status_only 404, s)}"
  by (auto simp: protected_route_def route_def split: if_splits)

lemma route_rows:
  assumes ok: "db_ok (ws_db s)" and w: "w \<in> set (wallets (ws_db s))"
    and tok: "\<And>tok c. req_auth r = bearer @ tok \<Longrightarrow>
      ValidateToken (hd_jwt h) (we_now e) (hd_secret h) tok = Inr c \<Longrightarrow> claim_user c \<noteq> wallet_user w"
  shows "wallet_rows (wallet_id w) (ws_db (snd (route h e r s))) = wallet_rows (wallet_id w) (ws_db s)"
proof (cases "protected_route (req_path r)")
  case None
  then show ?thesis
    using route_open [OF None, of h e s] HandleRegister_rows [OF ok w]
    by (auto simp: HandleLogin_rows HandleHealth_rows)
next
  case (Some f)
  note leaves = protected_route_leaves_wallet [OF Some, unfolded leaves_wallet_def]
  show ?thesis
    unfolding route_protected [OF Some] protected_def
  proof (rule AuthMiddleware_cases [of "hd_jwt h" "we_now e" "hd_secret h" "f h e" r s, OF refl])
    fix t c
    assume "req_auth r = bearer @ t" "ValidateToken (hd_jwt h) (we_now e) (hd_secret h) t = Inr c"
      and out: "AuthMiddleware (hd_jwt h) (we_now e) (hd_secret h) (f h e) r s =
        f h e (r\<lparr>req_ctx_user := Some (CtxInt64 (claim_user c))\<rparr>) s"
    then have "claim_user c \<noteq> wallet_user w" using tok by blast
    then have "UserIDFromContext (r\<lparr>req_ctx_user := Some (CtxInt64 (claim_user c))\<rparr>) \<noteq> Some (wallet_user w)"
      by (simp add: UserIDFromContext_def)
    with out leaves ok w show "wallet_rows (wallet_id w) (ws_db (snd (AuthMiddleware (hd_jwt h) (we_now e)
        (hd_secret h) (f h e) r s))) = wallet_rows (wallet_id w) (ws_db s)"
      by simp
  qed simp
qed

end
