(* ===== verification/Wallet_Demo.thy ===== *)
theory Wallet_Demo
  imports Wallet_Accounts Wallet_Access
begin

text \<open>
  Concrete instances of what the wallet's model is parameterised by, at which the properties are
  applied: a driver codec, a password hash, a token library that satisfies \<open>jwt_roundtrip\<close> and
  \<open>jwt_sound\<close>, and a small database with one user. None of them stands for code of the repository.
\<close>

section \<open>Driver and password hash\<close>

definition demo_codec :: codec where
  "demo_codec =
     \<lparr>enc = (\<lambda>x. case x of FNaN \<Rightarrow> NumNaN | FInf s \<Rightarrow> NumInf s | Fin q \<Rightarrow> Num q),
      dec = (\<lambda>n. case n of NumNaN \<Rightarrow> FNaN | NumInf s \<Rightarrow> FInf s | Num q \<Rightarrow> round64 q)\<rparr>"

lemma demo_codec_simps [simp]:
  "enc demo_codec FNaN = NumNaN" "enc demo_codec (FInf s) = NumInf s" "enc demo_codec (Fin q) = Num q"
  "dec demo_codec (Num q) = round64 q"
  by (simp_all add: demo_codec_def)

lemma demo_codec_nonneg: "codec_nonneg demo_codec"
  unfolding codec_nonneg_def
proof (intro allI impI)
  fix x assume "\<not> f_neg x"
  then show "num_nonneg (enc demo_codec x)" by (cases x) auto
qed

definition demo_bcrypt :: bcrypt where
  "demo_bcrypt =
     \<lparr>gen_password = (\<lambda>p c. if length p \<le> 72 then Some (CHR ''$'' # p) else None),
      compare_password = (\<lambda>h p. h = CHR ''$'' # p)\<rparr>"

lemma demo_bcrypt_ok: "bcrypt_ok demo_bcrypt"
  by (simp add: bcrypt_ok_def demo_bcrypt_def)

section \<open>A token library\<close>

text \<open>A token is its claims in decimal and the key, separated by dots.\<close>

definition demo_sign :: "jwt_method \<Rightarrow> claims \<Rightarrow> string \<Rightarrow> string option" where
  "demo_sign m c key = (if m = HS256 then
     Some (show_int (expires_at c) @ CHR ''.'' # show_int (issued_at c) @ CHR ''.'' #
       show_int (claim_user c) @ CHR ''.'' # key) else None)"

definition demo_int :: "string \<Rightarrow> int option" where
  "demo_int s = (case s of
      c # cs \<Rightarrow> if c = CHR ''-'' then map_option (\<lambda>n. - int n) (parse_digits 0 cs)
        else map_option int (parse_digits 0 s)
    | [] \<Rightarrow> None)"

definition cut_dot :: "string \<Rightarrow> string \<times> string" where
  "cut_dot s = (takeWhile (\<lambda>c. c \<noteq> CHR ''.'') s, tl (dropWhile (\<lambda>c. c \<noteq> CHR ''.'') s))"

definition demo_parse ::
  "int \<Rightarrow> string \<Rightarrow> (jwt_token \<Rightarrow> jwt_error + string) \<Rightarrow> jwt_error + jwt_token" where
  "demo_parse now s kf =
    (let (a, s1) = cut_dot s; (b, s2) = cut_dot s1; (u, _) = cut_dot s2
     in case (demo_int a, demo_int b, demo_int u) of
       (Some x, Some i, Some uid) \<Rightarrow>
         let c = \<lparr>expires_at = x, issued_at = i, claim_user = uid\<rparr>;
             t = \<lparr>tok_method = HS256, tok_claims = c, tok_valid = False\<rparr>
         in (case kf t of
              Inl e \<Rightarrow> Inl e
            | Inr key \<Rightarrow> if demo_sign HS256 c key \<noteq> Some s then Inl (ParseError ''signature'')
                else if now < x then Inr (t\<lparr>tok_valid := True\<rparr>) else Inl (ParseError ''expired''))
     | _ \<Rightarrow> Inl (ParseError ''malformed''))"

definition demo_jwt :: jwt_lib where
  "demo_jwt = \<lparr>signed_string = demo_sign, parse_with_claims = demo_parse\<rparr>"

lemma show_nat_chars: "c \<in> set (show_nat n) \<Longrightarrow> \<exists>d < 10. c = digit_char d"
proof (induction n rule: show_nat.induct)
  case (1 n)
  then show ?case by (subst (asm) (2) show_nat.simps) (auto split: if_splits intro: exI [of _ "n mod 10"])
qed

lemma dot_not_digit: "d < 10 \<Longrightarrow> digit_char d \<noteq> CHR ''.''"
  using digit_val_char [of d] by (auto simp: digit_val_def Let_def)

lemma dot_not_in_show_int: "CHR ''.'' \<notin> set (show_int i)"
  using show_nat_chars dot_not_digit by (fastforce simp: show_int_def split: if_splits)

lemma demo_int_show [simp]: "demo_int (show_int i) = Some i"
proof (cases "i < 0")
  case True
  then show ?thesis by (simp add: demo_int_def show_int_def)
next
  case False
  obtain c cs where s: "show_nat (nat i) = c # cs" by (cases "show_nat (nat i)") auto
  have "c \<noteq> CHR ''-''" using hd_show_nat [of "nat i"] s by auto
  moreover have "parse_digits 0 (c # cs) = Some (nat i)" using parse_show_nat [of "nat i"] s by simp
  ultimately show ?thesis using False by (simp add: demo_int_def show_int_def s del: parse_digits.simps)
qed

lemma cut_dot_show [simp]: "cut_dot (show_int i @ CHR ''.'' # r) = (show_int i, r)"
proof -
  have "\<forall>c \<in> set (show_int i). c \<noteq> CHR ''.''" using dot_not_in_show_int by metis
  then show ?thesis by (simp add: cut_dot_def takeWhile_append2 dropWhile_append2)
qed

lemma demo_jwt_roundtrip: "jwt_roundtrip demo_jwt"
  unfolding jwt_roundtrip_def
proof (intro allI impI)
  fix c key s now and kf :: "jwt_token \<Rightarrow> jwt_error + string"
  assume "signed_string demo_jwt HS256 c key = Some s" and "now < expires_at c"
    and "kf \<lparr>tok_method = HS256, tok_claims = c, tok_valid = False\<rparr> = Inr key"
  then show "parse_with_claims demo_jwt now s kf =
      Inr \<lparr>tok_method = HS256, tok_claims = c, tok_valid = True\<rparr>"
    by (cases c) (auto simp: demo_jwt_def demo_parse_def demo_sign_def)
qed

lemma demo_jwt_sound: "jwt_sound demo_jwt"
  unfolding jwt_sound_def
  by (auto simp: demo_jwt_def demo_parse_def Let_def split: option.splits sum.splits if_splits prod.splits)

section \<open>A wallet with one user\<close>

definition demo_handler :: handler where
  "demo_handler = \<lparr>hd_codec = demo_codec, hd_bcrypt = demo_bcrypt, hd_jwt = demo_jwt, hd_secret = ''key'',
     hd_pool = True, hd_publisher = None\<rparr>"

definition demo_db :: db where
  "demo_db = \<lparr>users = [\<lparr>user_id = 1, username = ''ann'', email = ''a@x'', password_hash = ''$pw''\<rparr>],
     user_seq = 2, wallets = [\<lparr>wallet_id = 1, wallet_user = 1\<rparr>], wallet_seq = 2,
     balances = [\<lparr>bal_wallet = 1, bal_currency = ''USD'', bal_amount = Num 100\<rparr>,
       \<lparr>bal_wallet = 1, bal_currency = ''RUB'', bal_amount = Num 0\<rparr>,
       \<lparr>bal_wallet = 1, bal_currency = ''EUR'', bal_amount = Num 5\<rparr>],
     legacy = [], faults = []\<rparr>"

definition demo_client :: exch_client where
  "demo_client = \<lparr>has_conn = True, cacheTTL = 60 * ns_per_s, cacheRates = [''USD_RUB'' \<mapsto> Fin 90],
     cacheAt = Some 0\<rparr>"

definition demo_state :: wallet_state where
  "demo_state = \<lparr>ws_db = demo_db, ws_client = Some demo_client, ws_kafka = []\<rparr>"

definition demo_exch :: exch_env where
  "demo_exch = \<lparr>t_rlock = 1, t_lock = 2, t_store = 3, rpc_rates = Inr [''USD_RUB'' \<mapsto> Fin 90],
     rpc_rate = (\<lambda>_ _. Inl NotFound)\<rparr>"

definition demo_pub :: pub_env where
  "demo_pub = \<lparr>fresh_id = ''id'', pub_now = 0, write_ok = (\<lambda>_. True), ctx_done = (\<lambda>_. False)\<rparr>"

definition demo_env :: wallet_env where
  "demo_env = \<lparr>we_now = 1, we_token_exp = 1, we_token_iat = 1, we_exch = demo_exch, we_pub = demo_pub,
     we_dial = (\<lambda>_. True)\<rparr>"

text \<open>\<open>demo_request p m b\<close> reaches a handler behind the middleware as user 1.\<close>

definition demo_request :: "string \<Rightarrow> string \<Rightarrow> json \<Rightarrow> http_request" where
  "demo_request m p b = \<lparr>req_method = m, req_path = p, req_auth = [], req_body = Some b,
     req_ctx_user = Some (CtxInt64 1)\<rparr>"

definition demo_exchange :: "rat \<Rightarrow> http_request" where
  "demo_exchange x = demo_request ''POST'' ''/api/v1/exchange''
     (JObj [(''from_currency'', JStr ''USD''), (''to_currency'', JStr ''RUB''), (''amount'', JDec x)])"

lemmas demo_defs = demo_handler_def demo_db_def demo_client_def demo_state_def demo_exch_def demo_pub_def
  demo_env_def demo_request_def demo_exchange_def

lemma demo_sel [simp]:
  "hd_codec demo_handler = demo_codec" "hd_bcrypt demo_handler = demo_bcrypt" "hd_jwt demo_handler = demo_jwt"
  "hd_publisher demo_handler = None" "hd_secret demo_handler = ''key''"
  "ws_db demo_state = demo_db" "ws_client demo_state = Some demo_client" "ws_kafka demo_state = []"
  "we_exch demo_env = demo_exch" "we_now demo_env = 1" "faults demo_db = []"
  by (simp_all add: demo_handler_def demo_state_def demo_env_def demo_db_def)

lemma demo_db_ok: "db_ok demo_db"
  by (simp add: ok_defs demo_db_def chk_currency_def round2_def round_half_away_def floor_numeral_div)

lemma demo_bal_nonneg: "bal_nonneg demo_db"
  by (simp add: bal_nonneg_def demo_db_def)

lemma demo_rates: "client_nonneg demo_state" "env_nonneg demo_exch"
  by (auto simp: client_nonneg_def rates_nonneg_def demo_client_def env_nonneg_def demo_exch_def split: if_splits)

section \<open>Evaluating the demo\<close>

definition demo_money :: "string \<Rightarrow> rat \<Rightarrow> string \<Rightarrow> http_request" where
  "demo_money p x c = demo_request ''POST'' p (JObj [(''amount'', JDec x), (''currency'', JStr c)])"

lemma demo_request_sel [simp]:
  "req_method (demo_request m p b) = m" "UserIDFromContext (demo_request m p b) = Some 1"
  "req_path (demo_request m p b) = p" "req_body (demo_request m p b) = Some b"
  "req_auth (demo_request m p b) = []"
  by (simp_all add: demo_request_def UserIDFromContext_def)

lemma demo_money_sel [simp]:
  "req_method (demo_money p x c) = ''POST''" "UserIDFromContext (demo_money p x c) = Some 1"
  "req_method (demo_exchange x) = ''POST''" "UserIDFromContext (demo_exchange x) = Some 1"
  "req_path (demo_exchange x) = ''/api/v1/exchange''" "req_auth (demo_exchange x) = []"
  by (simp_all add: demo_money_def demo_exchange_def)

lemma demo_money_request:
  "round64 x = Fin x \<Longrightarrow>
    amount_request (demo_money p x c) = Some \<lparr>acr_amount = Fin x, acr_currency = c\<rparr>"
  by (simp add: demo_money_def amount_request_def decode_body_def amount_fields_def find_field_def)

lemma demo_exchange_request:
  "round64 x = Fin x \<Longrightarrow> exchange_request (demo_exchange x) =
    Some \<lparr>er_from = ''USD'', er_to = ''RUB'', er_amount = Fin x\<rparr>"
  by (simp add: demo_exchange_def exchange_request_def decode_body_def exchange_fields_def find_field_def)

lemma demo_wallet [simp]: "wallet_of demo_db 1 = Some 1"
  by (simp add: wallet_of_def demo_db_def)

lemma demo_balances [simp]:
  "balance_of demo_db 1 ''USD'' = Some (Num 100)" "balance_of demo_db 1 ''RUB'' = Some (Num 0)"
  "balance_of demo_db 1 ''EUR'' = Some (Num 5)"
  by (simp_all add: balance_of_def demo_db_def bal_key_def)

lemma demo_rate_eq: "fst (GetRateWithSource demo_exch ''USD'' ''RUB'' demo_client) = Inr (Fin 90, ''cache'')"
  by (simp add: GetRateWithSource_def GetAllRates_def cache_valid_def demo_client_def demo_exch_def
      ns_per_s_def pair_key_def)

lemma demo_round:
  "round64 10 = Fin 10" "round64 900 = Fin 900" "round64 90000 = Fin 90000"
  "round64 (1 / 256) = Fin (1 / 256)" "round64 (45 / 128) = Fin (45 / 128)"
  "round64 (1125 / 32) = Fin (1125 / 32)"
  by (simp_all add: float_eval)

lemmas num_eval = num_sub_def round2_def round_half_away_def floor_numeral_div

lemma demo_35: "cast_18_2 (num_add (Num 0) (enc demo_codec (round64 (7 / 20)))) = Inr (Num (7 / 20))"
  by (simp add: float_eval round2_def)

lemma demo_reg_facts [simp]:
  "gen_password demo_bcrypt ''pw'' c = Some ''$pw''" "new_user demo_db ''bob'' ''b@x''"
  "user_seq demo_db = 2" "we_token_exp demo_env = 1" "we_token_iat demo_env = 1"
  "1 < numeric_date (1 + defaultExpire)"
  by (simp_all add: demo_bcrypt_def new_user_def demo_db_def max_bigint_def demo_env_def numeric_date_def
      defaultExpire_def ns_per_s_def)

end
