(* ===== verification/Startup_Properties.thy ===== *)
theory Startup_Properties
  imports Startup View_Pipeline Wallet_Demo
begin

text \<open>
  What starting and stopping the services guarantees: connecting ends within its time and keeps no pool it
  does not return, a normal stop closes everything that was opened and stores what was buffered, and what the
  configuration makes of the wallet's handler.
\<close>

section \<open>Connecting\<close>

text \<open>Attempts are two seconds apart, because each failed one sleeps; the first is not before the start.\<close>

definition clock_ok :: "connect_env \<Rightarrow> bool" where
  "clock_ok e \<longleftrightarrow> ce_start e \<le> ce_now e 0 \<and> (\<forall>k. ce_now e k + 2 * ns_per_s \<le> ce_now e (Suc k))"

text \<open>The pools that are open after a run, in the order they were opened.\<close>

fun open_resources :: "resource list \<Rightarrow> proc_act list \<Rightarrow> resource list" where
  "open_resources rs [] = rs"
| "open_resources rs (Opened r # acts) = open_resources (rs @ [r]) acts"
| "open_resources rs (Closed r # acts) = open_resources (remove1 r rs) acts"
| "open_resources rs (_ # acts) = open_resources rs acts"

lemma open_resources_append: "open_resources rs (xs @ ys) = open_resources (open_resources rs xs) ys"
  by (induction rs xs rule: open_resources.induct) simp_all

lemma open_resources_opened: "r \<in> set (open_resources rs acts) \<Longrightarrow> r \<in> set rs \<or> Opened r \<in> set acts"
proof (induction rs acts rule: open_resources.induct)
  case (3 rs r' acts)
  then show ?case using set_remove1_subset [of r' rs] by auto
qed auto

text \<open>Each failed attempt sleeps.\<close>

definition failed_attempts :: "proc_act list \<Rightarrow> nat" where
  "failed_attempts acts = length (filter (\<lambda>a. a = Slept (2 * ns_per_s)) acts)"

lemma clock_lower:
  assumes "clock_ok e"
  shows "ce_start e + 2 * ns_per_s * int k \<le> ce_now e k"
proof (induction k)
  case (Suc k)
  have "ce_now e k + 2 * ns_per_s \<le> ce_now e (Suc k)" using assms by (simp add: clock_ok_def)
  with Suc show ?case by (simp add: algebra_simps)
qed (use assms in \<open>simp add: clock_ok_def\<close>)

lemma connect_loop_result:
  assumes "clock_ok e" and "open_resources [] acts = []" and "failed_attempts acts = k"
    and "k + n = 15"
  shows "\<exists>r acts'. connect_loop e (ce_start e + 30 * ns_per_s) k acts = Some (r, acts') \<and>
    open_resources [] acts' = (case r of None \<Rightarrow> [] | Some i \<Rightarrow> [Pool i]) \<and> failed_attempts acts' \<le> 15 \<and>
    (case r of None \<Rightarrow> True | Some i \<Rightarrow> i < 15 \<and> ce_new e i \<and> ce_ping e i)"
  using assms(2-4)
proof (induction n arbitrary: k acts)
  case 0
  then have "k = 15" by simp
  then have "\<not> ce_now e k < ce_start e + 30 * ns_per_s" using clock_lower [OF assms(1), of 15] by simp
  then show ?case using 0 by (subst connect_loop.simps) simp
next
  case (Suc n)
  let ?s = "[Slept (2 * ns_per_s)]" and ?c = "[Opened (Pool k), Closed (Pool k), Slept (2 * ns_per_s)]"
  have next1: "open_resources [] (acts @ ?s) = []" "failed_attempts (acts @ ?s) = k + 1"
    and next2: "open_resources [] (acts @ ?c) = []" "failed_attempts (acts @ ?c) = k + 1"
    using Suc.prems by (simp_all add: open_resources_append failed_attempts_def)
  have "k + 1 + n = 15" and k: "k < 15" using Suc.prems(3) by simp_all
  note ih1 = Suc.IH [OF next1 this(1)] and ih2 = Suc.IH [OF next2 this(1)]
  show ?case
  proof (cases "ce_now e k < ce_start e + 30 * ns_per_s")
    case False
    then show ?thesis using Suc.prems k by (subst connect_loop.simps) simp
  next
    case True
    consider "\<not> ce_new e k" | "ce_new e k" "\<not> ce_ping e k" | "ce_new e k" "ce_ping e k" by blast
    then show ?thesis
    proof cases
      case 1
      then show ?thesis using True ih1 by (subst connect_loop.simps) simp
    next
      case 2
      then show ?thesis using True ih2 by (subst connect_loop.simps) simp
    next
      case 3
      then show ?thesis using True Suc.prems k
        by (subst connect_loop.simps) (simp add: open_resources_append failed_attempts_def)
    qed
  qed
qed

lemma connecting_pool:
  assumes "clock_ok e"
  shows "\<exists>r acts. connectWithRetry e dsn (30 * ns_per_s) = Some (r, acts) \<and> failed_attempts acts \<le> 15 \<and>
    open_resources [] acts = (case r of None \<Rightarrow> [] | Some i \<Rightarrow> [Pool i]) \<and>
    (case r of None \<Rightarrow> True | Some i \<Rightarrow> i < 15 \<and> ce_new e i \<and> ce_ping e i)"
proof (cases "ce_dsn_ok e dsn")
  case True
  have "failed_attempts [] = 0" by (simp add: failed_attempts_def)
  from connect_loop_result [OF assms _ this, of 15] True show ?thesis
    unfolding connectWithRetry_def by simp blast
qed (simp add: connectWithRetry_def failed_attempts_def)

text \<open>
  C29: Connecting to PostgreSQL always returns: with a clock that sees each two-second sleep, the 30-second
  loop makes at most 15 attempts; a returned pool has answered its ping, and no other pool stays open.
\<close>

theorem connecting_returns:
  assumes "clock_ok e"
  shows "\<exists>r acts. connectWithRetry e dsn (30 * ns_per_s) = Some (r, acts) \<and> failed_attempts acts \<le> 15 \<and>
    open_resources [] acts = (case r of None \<Rightarrow> [] | Some i \<Rightarrow> [Pool i]) \<and>
    (case r of None \<Rightarrow> True | Some i \<Rightarrow> i < 15 \<and> ce_new e i \<and> ce_ping e i)"
  using connecting_pool [OF assms] .

text \<open>A database that answers at the third attempt.\<close>

definition demo_connect :: connect_env where
  "demo_connect = \<lparr>ce_dsn_ok = (\<lambda>_. True), ce_start = 0, ce_now = (\<lambda>k. 2 * ns_per_s * int k), ce_new = (\<lambda>k. k \<noteq> 0),
     ce_ping = (\<lambda>k. k = 2)\<rparr>"

lemma demo_connects:
  "connectWithRetry demo_connect dsn (30 * ns_per_s) = Some (Some 2, [Slept (2 * ns_per_s), Opened (Pool 1),
     Closed (Pool 1), Slept (2 * ns_per_s), Opened (Pool 2)])"
  by (simp add: connectWithRetry_def demo_connect_def ns_per_s_def connect_loop.simps numeral_2_eq_2)

lemma demo_clock: "clock_ok demo_connect"
  by (simp add: clock_ok_def demo_connect_def algebra_simps)

theorem connecting_returns_witness:
  "\<exists>acts. connectWithRetry demo_connect [] (30 * ns_per_s) = Some (Some 2, acts) \<and> open_resources [] acts = [Pool 2]"
  using connecting_returns [OF demo_clock, of "[]"] demo_connects [of "[]"] by simp

section \<open>A normal stop\<close>

lemma wallet_main_cases:
  assumes "wallet_main px bc jw env b = Some (Some (h, client), acts, x)"
  obtains cfg k acts0 where "LoadConfig env = Inr cfg"
    and "connectWithRetry (wb_conn b) (PostgresDSN cfg) (30 * ns_per_s) = Some (Some k, acts0)"
    and "wallet_client b cfg = Inr client"
    and "h = \<lparr>hd_codec = px, hd_bcrypt = bc, hd_jwt = jw, hd_secret = wc_secret cfg, hd_pool = True,
      hd_publisher = wallet_publisher cfg\<rparr>"
    and "let more = (if client = None then [] else [ExchangerConn]) @ (if hd_publisher h = None then [] else [PublisherWriter]);
        up = acts0 @ map Opened more @ [Serving (CHR '':'' # wc_app_port cfg)]
      in acts = (if wb_listen b then up @ Stopping # map Closed (rev (Pool k # more)) else up) \<and>
        x = (if wb_listen b then Stopped else Exited 1)"
  using assms by (auto simp: wallet_main_def Let_def split: sum.splits option.splits if_splits)

lemma connected_pool:
  assumes "clock_ok e" and "connectWithRetry e dsn (30 * ns_per_s) = Some (Some k, acts)"
  shows "open_resources [] acts = [Pool k]" "ce_ping e k"
  using connecting_pool [OF assms(1), of dsn] assms(2) by auto

lemma wallet_stop_closes:
  assumes "clock_ok (wb_conn b)" and "wallet_main px bc jw env b = Some (srv, acts, Stopped)"
  shows "open_resources [] acts = []"
proof (cases srv)
  case None
  then show ?thesis using assms(2) by (auto simp: wallet_main_def Let_def split: sum.splits option.splits if_splits)
next
  case (Some hc)
  obtain h client where srv: "srv = Some (h, client)" using Some by (cases hc) auto
  from assms(2) [unfolded srv] show ?thesis
    by (rule wallet_main_cases)
      (use connected_pool(1) [OF assms(1)] in \<open>auto simp: Let_def open_resources_append split: if_splits\<close>)
qed

lemma exchanger_stop_closes:
  assumes "clock_ok (xb_conn b)" and "exchanger_main env b = Some (acts, Stopped)"
  shows "open_resources [] acts = []"
  using assms connected_pool(1) [OF assms(1)]
  by (auto simp: exchanger_main_def Let_def open_resources_append split: option.splits if_splits)

lemma notification_stop_closes:
  "notification_main env b s = (s', acts, Stopped) \<Longrightarrow> open_resources [] acts = []"
  by (auto simp: notification_main_def mongo_Connect_def EnsureTopic_def split: option.splits if_splits)

lemma aggregator_stop_closes:
  "aggregator_main env b = (c, acts, Stopped) \<Longrightarrow> open_resources [] acts = []"
  by (auto simp: aggregator_main_def clickhouse_NewClient_def Let_def split: option.splits if_splits go_result.splits bool.splits)

lemma ensureTopics_open: "open_resources rs (ensureTopics cfg @ acts) = open_resources rs acts"
  by (simp add: ensureTopics_def)

lemma producer_stop_closes:
  "producer_main env b = (s, acts, Stopped) \<Longrightarrow> open_resources [] acts = []"
  by (auto simp: producer_main_def Let_def ensureTopics_open split: option.splits go_result.splits prod.splits)

text \<open>
  A service that is stopped by a signal has closed every connection, writer and reader that it had opened,
  each of the five services.
\<close>

lemma normal_stop_closes_everything:
  assumes "clock_ok (wb_conn wb)" and "clock_ok (xb_conn xb)"
  shows "(wallet_main px bc jw wenv wb = Some (srv, wacts, Stopped) \<longrightarrow> open_resources [] wacts = []) \<and>
    (exchanger_main xenv xb = Some (xacts, Stopped) \<longrightarrow> open_resources [] xacts = []) \<and>
    (notification_main nenv nb s = (s', nacts, Stopped) \<longrightarrow> open_resources [] nacts = []) \<and>
    (aggregator_main aenv ab = (c, aacts, Stopped) \<longrightarrow> open_resources [] aacts = []) \<and>
    (producer_main penv pb = (p, pacts, Stopped) \<longrightarrow> open_resources [] pacts = [])"
  by (intro conjI impI)
    (rule wallet_stop_closes [OF assms(1)] exchanger_stop_closes [OF assms(2)] notification_stop_closes
      aggregator_stop_closes producer_stop_closes; assumption)+

section \<open>What the wallet serves with\<close>

lemma NewPublisher_fields:
  assumes "NewPublisher brokers topic th retries bo tm = Some p"
  shows "pub_threshold p = th" "0 < pub_retries p" "pub_brokers p = broker_list brokers" "pub_topic p = topic"
  using assms by (auto simp: NewPublisher_def broker_list_def Let_def split: if_splits)

lemma NewPublisher_None: "NewPublisher brokers topic th retries bo tm = None \<longleftrightarrow> broker_list brokers = [] \<or> topic = []"
  by (auto simp: NewPublisher_def broker_list_def Let_def)

lemma wallet_client_fields:
  assumes "wallet_client b cfg = Inr client"
  shows "client = None \<longleftrightarrow> wc_exchanger_addr cfg = []"
    and "client = Some c \<Longrightarrow> has_conn c \<and> cacheTTL c = wc_cache_ttl cfg \<and> cacheAt c = None \<and>
      wb_dial b (wc_exchanger_addr cfg) (wc_exchanger_timeout cfg)"
  using assms by (auto simp: wallet_client_def NewExchangerClient_def split: if_splits sum.splits)


text \<open>
  The threshold of large transactions is read as far as the number goes: one written with a separator
  (\<^verbatim>\<open>40,000\<close>) is the number before it (40), without an error.
\<close>

lemma threshold_stops_at_separator:
  assumes "wallet_main px bc jw env b = Some (Some (h, client), acts, x)" and "hd_publisher h = Some p"
    and "env ''LARGE_TRANSACTION_THRESHOLD'' = show_nat n @ CHR '','' # rest" and "round64 (of_nat n) = Fin t"
  shows "pub_threshold p = Fin t"
  using assms(1)
proof (rule wallet_main_cases)
  fix cfg
  assume cfg: "LoadConfig env = Inr cfg" and h: "h = \<lparr>hd_codec = px, hd_bcrypt = bc, hd_jwt = jw,
    hd_secret = wc_secret cfg, hd_pool = True, hd_publisher = wallet_publisher cfg\<rparr>"
  have "ends_number (CHR '','' # rest)" by (simp add: ends_number_def)
  then have "wc_threshold cfg = Fin t"
    using LoadConfig_fields(7) [OF cfg] assms(3) parseFloat_prefix [OF _ assms(4)] by simp
  then show ?thesis using NewPublisher_fields(1) assms(2) by (simp add: h wallet_publisher_def)
qed

text \<open>A start in a small environment, with the database of \<open>demo_connect\<close>.\<close>

definition demo_environ :: environ where
  "demo_environ k = (if k = ''JWT_SECRET'' \<or> k = ''DB_HOST'' \<or> k = ''DB_PORT'' \<or> k = ''DB_USER'' \<or> k = ''DB_NAME'' then ''s''
     else if k = ''KAFKA_BROKERS'' then ''k'' else if k = ''LARGE_TRANSACTION_THRESHOLD'' then ''40,000'' else [])"

definition demo_boot :: wallet_boot where
  "demo_boot = \<lparr>wb_conn = demo_connect, wb_dial = (\<lambda>_ _. True), wb_listen = True\<rparr>"

lemma demo_boot_sel [simp]: "wb_conn demo_boot = demo_connect" "wb_listen demo_boot"
  by (simp_all add: demo_boot_def)

lemma demo_start:
  obtains h acts p where "wallet_main demo_codec demo_bcrypt demo_jwt demo_environ demo_boot = Some (Some (h, None), acts, Stopped)"
    and "hd_publisher h = Some p"
proof -
  have "\<not> is_err (LoadConfig demo_environ)" by (simp add: LoadConfig_iff demo_environ_def)
  then obtain cfg where cfg: "LoadConfig demo_environ = Inr cfg" by (cases "LoadConfig demo_environ") auto
  note f = LoadConfig_fields [OF cfg]
  have client: "wallet_client demo_boot cfg = Inr None" using f(5) by (simp add: wallet_client_def demo_environ_def)
  have "broker_list ''k'' = [''k'']" by (simp add: broker_list_def trim_space_def is_space_def)
  then obtain p where p: "wallet_publisher cfg = Some p"
    using f(3,6) NewPublisher_None unfolding wallet_publisher_def
    by (cases "wallet_publisher cfg") (auto simp: wallet_publisher_def demo_environ_def)
  show thesis
    by (rule that [where p = p and h = "\<lparr>hd_codec = demo_codec, hd_bcrypt = demo_bcrypt, hd_jwt = demo_jwt,
        hd_secret = wc_secret cfg, hd_pool = True, hd_publisher = Some p\<rparr>"])
      (simp_all add: wallet_main_def cfg client demo_connects p)
qed

lemma round64_40: "round64 (of_nat 40) = Fin 40"
  by (simp add: float_eval)

lemma show_nat_40: "show_nat 40 = ''40''"
  by (simp add: show_nat.simps digit_char_def char_of_def bit_0)


section \<open>What a normal stop stores\<close>

text \<open>The generator's ticker never panics: its interval is between a tenth of a second and ten seconds.\<close>

lemma GetInterval_bounds: "10 ^ 8 \<le> fst (GetInterval g) \<and> fst (GetInterval g) \<le> 10 ^ 10"
proof -
  have "millis k = k * 10 ^ 6" if "100 \<le> k" "k \<le> 1000" for k
    using that by (simp add: millis_def in_int64_def)
  moreover have "1000 div r \<le> 1000" if "0 < r" for r :: int using that zdiv_mono2 [of 1000 1 r] by simp
  then have "\<not> g_rps g \<le> 0 \<Longrightarrow> 1000 div g_rps g \<le> 1000" by simp
  ultimately show ?thesis by (auto simp: GetInterval_def ns_per_s_def Let_def)
qed


definition demo_aggregator_boot :: aggregator_boot where
  "demo_aggregator_boot = \<lparr>ab_opens = True, ab_pings = True, ab_rows = [], ab_errors = [], ab_dead = [],
     ab_offsets = (\<lambda>_. 0),
     ab_events = [Fetched (demo_msg 3 (demo_view 9)) demo_msg_env, Tick (demo_flush FailedBefore)],
     ab_close = demo_flush Acked\<rparr>"


text \<open>The producer: the generator counts its events; each is in Kafka or in the batch.\<close>

definition held :: "producer \<Rightarrow> nat" where
  "held p = length (p_topic p) + length (p_batch p)"

definition tally :: "generator \<times> producer \<Rightarrow> bool" where
  "tally = (\<lambda>(g, p). g_counter g = wrap64 (int (held p)) \<and>
     (\<forall>l. g_last g = Some l \<longrightarrow> json_time (pv_timestamp l) \<noteq> None))"

text \<open>Working writes and a clock in the years 0 to 9999.\<close>

definition works :: "prod_event \<Rightarrow> bool" where
  "works ev \<longleftrightarrow> (case ev of
      GenTick r xs \<Rightarrow> \<forall>i. (case xs i of (d, _, e) \<Rightarrow> se_out e = Acked \<and> json_time (dr_now d) \<noteq> None)
    | FlushTick e \<Rightarrow> se_out e = Acked
    | Control _ _ \<Rightarrow> True)"

lemma held_metrics [simp]: "held (on_metrics f p) = held p"
  by (simp add: held_def)

lemma held_Flush: "se_out e = Acked \<Longrightarrow> held (snd (Flush e p)) = held p"
  using Flush_acked [of e p] by (simp add: held_def)

lemma held_send: "se_out e = Acked \<Longrightarrow> held (snd (send_by_mode e m p)) = held p + 1"
  using held_Flush [of e "p\<lparr>p_batch := p_batch p @ [m]\<rparr>"]
  by (auto simp: send_by_mode_def sendSync_def sendAsync_def sendBatch_def WriteMessages_def held_def Let_def)

lemma held_Send:
  assumes "se_out e = Acked" and "json_time (pv_timestamp ev) \<noteq> None"
  shows "held (snd (Send e ev corrupt p)) = held p + 1"
  using held_send [OF assms(1)] ToJSON_some [OF assms(2)] by (auto simp: Send_def)

lemma tally_generate:
  assumes "tally s" and "case x of (d, _, e) \<Rightarrow> se_out e = Acked \<and> json_time (dr_now d) \<noteq> None"
  shows "tally (generate_and_send x s)"
proof -
  obtain g p where s: "s = (g, p)" by fastforce
  obtain d c e where x: "x = (d, c, e)" by (cases x) auto
  obtain ev g' where gen: "Generate d g = (ev, g')" by fastforce
  have time: "json_time (pv_timestamp ev) \<noteq> None" "\<forall>l. g_last g' = Some l \<longrightarrow> json_time (pv_timestamp l) \<noteq> None"
    and count: "g_counter g' = wrap64 (g_counter g + 1)"
    using gen assms by (auto simp: Generate_def s x tally_def generateNew_time Let_def split: option.splits if_splits)
  have "held (snd (Send e ev (c < 5 / 100) p)) = held p + 1" by (rule held_Send) (use assms(2) time in \<open>auto simp: x\<close>)
  moreover have "g_counter g' = wrap64 (int (held p + 1))"
    using assms(1) count wrap64_wrap_add [of "int (held p)" 1] by (simp add: tally_def s add.commute)
  ultimately show ?thesis using time(2) by (simp add: generate_and_send_def x s gen tally_def)
qed

lemma GetInterval_sel [simp]: "g_counter (snd (GetInterval g)) = g_counter g" "g_last (snd (GetInterval g)) = g_last g"
  by (simp_all add: GetInterval_def Let_def)

lemma burst_tick:
  assumes "g_mode g = ''burst''"
  obtains n where "snd (gen_tick r xs (l, g, p)) = foldl (\<lambda>s i. generate_and_send (xs i) s) (g, p) [0..<n]"
proof -
  define l1 where "l1 = (if \<not> burst_active l then \<lparr>burst_active = True, burst_count = 0, burst_target = 100 + r mod 900\<rparr> else l)"
  define n where "n = min 10 (burst_target l1 - burst_count l1)"
  obtain g' p' where run: "foldl (\<lambda>s i. generate_and_send (xs i) s) (g, p) [0..<n] = (g', p')" by fastforce
  have "snd (gen_tick r xs (l, g, p)) = (g', p')"
    unfolding gen_tick_def prod.case if_P [OF assms] Let_def l1_def [symmetric] n_def [symmetric] run
    by (simp split: if_split)
  then show thesis using that run by metis
qed

lemma plain_tick:
  "g_mode g \<noteq> ''burst'' \<Longrightarrow> snd (gen_tick r xs (l, g, p)) =
    (snd (GetInterval (fst (generate_and_send (xs 0) (g, p)))), snd (generate_and_send (xs 0) (g, p)))"
  by (simp add: gen_tick_def split_beta)

lemma tally_tick:
  assumes "tally (g, p)" and "\<forall>i. (case xs i of (d, _, e) \<Rightarrow> se_out e = Acked \<and> json_time (dr_now d) \<noteq> None)"
  shows "tally (snd (gen_tick r xs (l, g, p)))"
proof (cases "g_mode g = ''burst''")
  case True
  obtain n where n: "snd (gen_tick r xs (l, g, p)) = foldl (\<lambda>s i. generate_and_send (xs i) s) (g, p) [0..<n]"
    by (rule burst_tick [OF True])
  show ?thesis unfolding n
  proof (rule foldl_invariant [where I = tally, OF assms(1)])
    show "tally (generate_and_send (xs i) s)" if "tally s" for i s
      by (rule tally_generate [OF that spec [OF assms(2)]])
  qed
next
  case False
  have "tally (generate_and_send (xs 0) (g, p))"
    by (rule tally_generate [OF assms(1) spec [OF assms(2)]])
  then show ?thesis unfolding plain_tick [OF False] tally_def split_beta fst_conv snd_conv GetInterval_sel .
qed

lemma held_UpdateConfig: "held (snd (UpdateConfig m n f st p)) = held p"
  by (simp add: UpdateConfig_def held_def Let_def)

lemma control_frame:
  "\<exists>g' p'. snd (HandleControl cfg meth js (g, p)) = (g', p') \<and> g_counter g' = g_counter g \<and> g_last g' = g_last g \<and>
    held p' = held p"
proof (cases "meth = ''POST''")
  case True
  show ?thesis
  proof (cases "decode_body False control_fields
      \<lparr>cr_mode = [], cr_rps = 0, cr_batch_size = 0, cr_flush_ms = 0, cr_strategy = [], cr_send_mode = []\<rparr> js")
    case None
    then show ?thesis by (simp add: HandleControl_def)
  next
    case (Some q)
    define g1 where "g1 = (if cr_mode q \<noteq> [] then SetMode (cr_mode q) g else g)"
    define g2 where "g2 = (if 0 < cr_rps q then SetRPS (cr_rps q) g1 else g1)"
    have g: "g_counter g2 = g_counter g" "g_last g2 = g_last g" by (simp_all add: g2_def g1_def SetMode_def SetRPS_def)
    obtain res p' where up: "UpdateConfig (if cr_send_mode q = [] then cfg_mode cfg else cr_send_mode q)
        (if cr_batch_size q = 0 then cfg_batch_size cfg else cr_batch_size q)
        (if cr_flush_ms q = 0 then cfg_flush_ms cfg else cr_flush_ms q)
        (if cr_strategy q = [] then cfg_strategy cfg else cr_strategy q) p = (res, p')" by fastforce
    then have h: "held p' = held p" by (metis held_UpdateConfig snd_conv)
    have "snd (HandleControl cfg meth js (g, p)) = (g2, p') \<or> snd (HandleControl cfg meth js (g, p)) = (g2, p)"
      unfolding HandleControl_def prod.case Some option.case Let_def g1_def [symmetric] g2_def [symmetric] up
      by (cases res) (simp_all add: True)
    with g h show ?thesis by auto
  qed
qed (simp add: HandleControl_def)

lemma tally_control: "tally s \<Longrightarrow> tally (snd (HandleControl cfg meth js s))"
  using control_frame [of cfg meth js "fst s" "snd s"] by (auto simp: tally_def split_beta)

lemma tally_step: "tally (snd s) \<Longrightarrow> works ev \<Longrightarrow> tally (snd (on_event cfg s ev))"
proof (cases ev)
  case (GenTick r xs)
  assume "tally (snd s)" "works ev"
  then show ?thesis using tally_tick [of "fst (snd s)" "snd (snd s)" xs r "fst s"] GenTick
    by (simp add: on_event_def works_def)
next
  case (FlushTick e)
  assume "tally (snd s)" "works ev"
  then show ?thesis using held_Flush [of e] FlushTick
    by (auto simp: on_event_def works_def tally_def flush_tick_def split: prod.splits option.splits bool.splits)
next
  case (Control meth js)
  assume "tally (snd s)"
  then show ?thesis using tally_control Control by (cases s) (simp add: on_event_def)
qed


text \<open>In batch mode, one generated event.\<close>

definition demo_producer_boot :: producer_boot where
  "demo_producer_boot = \<lparr>pb_events = [GenTick 0 (\<lambda>_. (demo_draws 9, 1, demo_send Acked))], pb_close = demo_send Acked\<rparr>"


end
