(* ===== verification/Wallet_Legacy.thy ===== *)
theory Wallet_Legacy
  imports Wallet_Repo Http "HOL-Library.Multiset"
begin

text \<open>
  The wallet's older, UUID-keyed interface: \<^verbatim>\<open>models.go\<close>, \<^verbatim>\<open>repo.go\<close> (the interface
  \<^verbatim>\<open>WalletRepository\<close>, here the locale \<open>wallet_repository\<close>), \<^verbatim>\<open>repo_postgres.go\<close>, \<^verbatim>\<open>service.go\<close> and
  the two handlers of \<^verbatim>\<open>handler.go\<close> that use it. A UUID is its 128-bit number, the nil UUID is 0;
  parsing one is the google/uuid package, a parameter. The service is proved once against the
  interface and rests on the PostgreSQL repository by the interpretation at the end.
\<close>

section \<open>models.go\<close>

abbreviation op_deposit :: string where "op_deposit \<equiv> ''DEPOSIT''"
abbreviation op_withdraw :: string where "op_withdraw \<equiv> ''WITHDRAW''"

record OperationRequest =
  or_wallet :: int
  or_operation :: string
  or_amount :: int

section \<open>The statements on wallet\_legacy\<close>

definition legacy_find :: "int \<Rightarrow> db \<Rightarrow> int option" where
  "legacy_find i d = map_option legacy_balance (find (\<lambda>r. legacy_id r = i) (legacy d))"

definition legacy_put :: "int \<Rightarrow> int \<Rightarrow> db \<Rightarrow> db" where
  "legacy_put i b d = d\<lparr>legacy := map (\<lambda>r. if legacy_id r = i then r\<lparr>legacy_balance := b\<rparr> else r) (legacy d)\<rparr>"

definition legacy_select :: "int \<Rightarrow> int sql" where
  "legacy_select i d = (case legacy_find i d of None \<Rightarrow> (Inl PgNoRows, d) | Some b \<Rightarrow> (Inr b, d))"

definition legacy_exists :: "int \<Rightarrow> bool sql" where
  "legacy_exists i d = (Inr (legacy_find i d \<noteq> None), d)"

text \<open>\<^verbatim>\<open>BIGINT\<close> arithmetic overflows with code 22003; the check constraint refuses with 23514.\<close>

definition legacy_write :: "int \<Rightarrow> int \<Rightarrow> int sql" where
  "legacy_write i b d = (if \<not> in_int64 b then (Inl (PgCode ''22003''), d)
     else if b < 0 then (Inl (PgCode ''23514''), d) else (Inr b, legacy_put i b d))"

definition legacy_add :: "int \<Rightarrow> int \<Rightarrow> int sql" where
  "legacy_add i x d = (case legacy_find i d of None \<Rightarrow> (Inl PgNoRows, d) | Some b \<Rightarrow> legacy_write i (b + x) d)"

definition legacy_sub :: "int \<Rightarrow> int \<Rightarrow> int sql" where
  "legacy_sub i x d = (case legacy_find i d of None \<Rightarrow> (Inl PgNoRows, d)
     | Some b \<Rightarrow> if x \<le> b then legacy_write i (b - x) d else (Inl PgNoRows, d))"

section \<open>repo\_postgres.go\<close>

definition pg_GetBalance :: "int \<Rightarrow> int repo" where
  "pg_GetBalance i d = (case run_stmt (legacy_select i) d of
      (Inl e, d') \<Rightarrow> (Inl (if e = PgNoRows then ErrNotFound else Wrapped ''get balance'' e), d')
    | (Inr b, d') \<Rightarrow> (Inr b, d'))"

definition pg_deposit :: "int \<Rightarrow> int \<Rightarrow> int repo" where
  "pg_deposit i x d = (case run_stmt (legacy_add i x) d of
      (Inl e, d') \<Rightarrow> (Inl (if e = PgNoRows then ErrNotFound else Wrapped ''deposit'' e), d')
    | (Inr b, d') \<Rightarrow> (Inr b, d'))"

definition pg_withdraw :: "int \<Rightarrow> int \<Rightarrow> int repo" where
  "pg_withdraw i x d = (case run_stmt (legacy_sub i x) d of
      (Inr b, d') \<Rightarrow> (Inr b, d')
    | (Inl e, d') \<Rightarrow>
        if e = PgNoRows then
          (case run_stmt (legacy_exists i) d' of
             (Inl e', d'') \<Rightarrow> (Inl (Wrapped ''withdraw exists-check'' e'), d'')
           | (Inr ex, d'') \<Rightarrow> if \<not> ex then (Inl ErrNotFound, d'') else (Inl ErrInsufficientFunds, d''))
        else (Inl (Wrapped ''withdraw'' e), d'))"

definition pg_ApplyOperation :: "int \<Rightarrow> string \<Rightarrow> int \<Rightarrow> int repo" where
  "pg_ApplyOperation i op x d =
    (if op = op_deposit then pg_deposit i x d
     else if op = op_withdraw then pg_withdraw i x d
     else (Inl ErrInvalidOperation, d))"

section \<open>service.go\<close>

definition svc_Apply ::
  "(int \<Rightarrow> string \<Rightarrow> int \<Rightarrow> 's \<Rightarrow> (repo_error + int) \<times> 's) \<Rightarrow> int \<Rightarrow> string \<Rightarrow> int \<Rightarrow> 's \<Rightarrow> (repo_error + int) \<times> 's" where
  "svc_Apply apply_op i op x s =
    (if x \<le> 0 then (Inl ErrInvalidAmount, s)
     else if op \<noteq> op_deposit \<and> op \<noteq> op_withdraw then (Inl ErrInvalidOperation, s)
     else apply_op i op x s)"

definition svc_GetBalance ::
  "(int \<Rightarrow> 's \<Rightarrow> (repo_error + int) \<times> 's) \<Rightarrow> int \<Rightarrow> 's \<Rightarrow> (repo_error + int) \<times> 's" where
  "svc_GetBalance get_balance i s = get_balance i s"

section \<open>handler.go\<close>

fun write_domain_error :: "repo_error \<Rightarrow> http_response" where
  "write_domain_error ErrInvalidAmount = write_error 400 (err_text ErrInvalidAmount)"
| "write_domain_error ErrInvalidOperation = write_error 400 (err_text ErrInvalidOperation)"
| "write_domain_error ErrNotFound = write_error 404 (err_text ErrNotFound)"
| "write_domain_error ErrInsufficientFunds = write_error 409 (err_text ErrInsufficientFunds)"
| "write_domain_error _ = write_error 500 ''internal error''"

fun dec_uuid :: "(string \<Rightarrow> int option) \<Rightarrow> int \<Rightarrow> json \<Rightarrow> int option" where
  "dec_uuid parse old JNull = Some old"
| "dec_uuid parse old (JStr s) = parse s"
| "dec_uuid parse old _ = None"

definition operation_fields :: "(string \<Rightarrow> int option) \<Rightarrow> OperationRequest field list" where
  "operation_fields parse =
    [(''walletId'', \<lambda>q v. map_option (\<lambda>u. q\<lparr>or_wallet := u\<rparr>) (dec_uuid parse (or_wallet q) v)),
     (''operationType'', \<lambda>q v. map_option (\<lambda>s. q\<lparr>or_operation := s\<rparr>) (dec_string (or_operation q) v)),
     (''amount'', \<lambda>q v. map_option (\<lambda>a. q\<lparr>or_amount := a\<rparr>) (dec_int64 (or_amount q) v))]"

definition HandleWalletOperation ::
  "(string \<Rightarrow> int option) \<Rightarrow> (int \<Rightarrow> string) \<Rightarrow> http_request \<Rightarrow> db \<Rightarrow> http_response \<times> db" where
  "HandleWalletOperation parse show_uuid r d =
    (if req_method r \<noteq> ''POST'' then (status_only 405, d)
     else case decode_body True (operation_fields parse)
        \<lparr>or_wallet = 0, or_operation = [], or_amount = 0\<rparr> (req_body r) of
       None \<Rightarrow> (write_error 400 ''invalid json'', d)
     | Some q \<Rightarrow>
        if or_wallet q = 0 then (write_error 400 ''walletId is required'', d)
        else (case svc_Apply pg_ApplyOperation (or_wallet q) (or_operation q) (or_amount q) d of
           (Inl e, d') \<Rightarrow> (write_domain_error e, d')
         | (Inr b, d') \<Rightarrow> (write_json 200 (LegacyBalanceBody (show_uuid (or_wallet q)) b), d')))"

definition HandleGetBalance ::
  "(int \<Rightarrow> string) \<Rightarrow> http_request \<Rightarrow> int \<Rightarrow> db \<Rightarrow> http_response \<times> db" where
  "HandleGetBalance show_uuid r i d =
    (if req_method r \<noteq> ''GET'' then (status_only 405, d)
     else (case svc_GetBalance pg_GetBalance i d of
         (Inl e, d') \<Rightarrow> (write_domain_error e, d')
       | (Inr b, d') \<Rightarrow> (write_json 200 (LegacyBalanceBody (show_uuid i) b), d')))"

section \<open>The interface WalletRepository\<close>

text \<open>
  What the service relies on: operations on accounts (\<open>acct\<close>) that are atomic, refuse what they
  cannot do with the state unchanged, and keep balances in range.
\<close>

locale wallet_repository =
  fixes apply_op :: "int \<Rightarrow> string \<Rightarrow> int \<Rightarrow> 's \<Rightarrow> (repo_error + int) \<times> 's"
    and get_balance :: "int \<Rightarrow> 's \<Rightarrow> (repo_error + int) \<times> 's"
    and acct :: "'s \<Rightarrow> int \<Rightarrow> int option"
    and ready :: "'s \<Rightarrow> bool"
  assumes op_missing: "ready s \<Longrightarrow> op \<in> {op_deposit, op_withdraw} \<Longrightarrow> acct s i = None \<Longrightarrow>
      apply_op i op x s = (Inl ErrNotFound, s)"
    and deposit_law: "ready s \<Longrightarrow> 0 < x \<Longrightarrow> acct s i = Some b \<Longrightarrow> b + x < 2 ^ 63 \<Longrightarrow>
      \<exists>s'. apply_op i op_deposit x s = (Inr (b + x), s') \<and> acct s' = (acct s)(i \<mapsto> b + x) \<and> ready s'"
    and deposit_overflow: "ready s \<Longrightarrow> 0 < x \<Longrightarrow> acct s i = Some b \<Longrightarrow> 2 ^ 63 \<le> b + x \<Longrightarrow>
      \<exists>e. apply_op i op_deposit x s = (Inl e, s)"
    and withdraw_law: "ready s \<Longrightarrow> 0 < x \<Longrightarrow> acct s i = Some b \<Longrightarrow> x \<le> b \<Longrightarrow>
      \<exists>s'. apply_op i op_withdraw x s = (Inr (b - x), s') \<and> acct s' = (acct s)(i \<mapsto> b - x) \<and> ready s'"
    and withdraw_poor: "ready s \<Longrightarrow> 0 < x \<Longrightarrow> acct s i = Some b \<Longrightarrow> b < x \<Longrightarrow>
      apply_op i op_withdraw x s = (Inl ErrInsufficientFunds, s)"
    and in_range: "ready s \<Longrightarrow> acct s i = Some b \<Longrightarrow> 0 \<le> b \<and> b < 2 ^ 63"
    and get_law: "ready s \<Longrightarrow> get_balance i s = (case acct s i of None \<Rightarrow> Inl ErrNotFound | Some b \<Rightarrow> Inr b, s)"
begin

lemma Apply_invalid:
  "x \<le> 0 \<Longrightarrow> svc_Apply apply_op i op x s = (Inl ErrInvalidAmount, s)"
  "0 < x \<Longrightarrow> op \<noteq> op_deposit \<Longrightarrow> op \<noteq> op_withdraw \<Longrightarrow>
    svc_Apply apply_op i op x s = (Inl ErrInvalidOperation, s)"
  by (simp_all add: svc_Apply_def)

text \<open>Every call either changes one account by a valid operation, or nothing.\<close>

lemma Apply_cases:
  assumes "ready s"
  obtains e where "svc_Apply apply_op i op x s = (Inl e, s)"
  | b s' where "svc_Apply apply_op i op x s = (Inr b, s')" "acct s' = (acct s)(i \<mapsto> b)" "ready s'"
      "0 < x" "op = op_deposit \<and> acct s i = Some (b - x) \<or> op = op_withdraw \<and> acct s i = Some (b + x) \<and> 0 \<le> b"
proof (cases "0 < x \<and> op \<in> {op_deposit, op_withdraw} \<and> acct s i \<noteq> None")
  case False
  then have "\<exists>e. svc_Apply apply_op i op x s = (Inl e, s)"
    using op_missing [OF assms, of op i x] by (auto simp: svc_Apply_def)
  then show thesis using that(1) by blast
next
  case True
  then obtain b where x: "0 < x" and b: "acct s i = Some b" by auto
  consider "op = op_deposit" "b + x < 2 ^ 63" | "op = op_deposit" "2 ^ 63 \<le> b + x"
    | "op = op_withdraw" "x \<le> b" | "op = op_withdraw" "b < x"
    using True not_le [of "2 ^ 63" "b + x"] not_le [of x b] by blast
  then show thesis
  proof cases
    case 1
    then obtain s' where "apply_op i op x s = (Inr (b + x), s')" "acct s' = (acct s)(i \<mapsto> b + x)" "ready s'"
      using deposit_law [OF assms x b] by blast
    with 1 x b show thesis by (intro that(2) [of "b + x" s']) (simp_all add: svc_Apply_def)
  next
    case 2
    then obtain e where "apply_op i op x s = (Inl e, s)" using deposit_overflow [OF assms x b] by blast
    with 2 x show thesis by (intro that(1) [of e]) (simp add: svc_Apply_def)
  next
    case 3
    then obtain s' where "apply_op i op x s = (Inr (b - x), s')" "acct s' = (acct s)(i \<mapsto> b - x)" "ready s'"
      using withdraw_law [OF assms x b] by blast
    with 3 x b show thesis by (intro that(2) [of "b - x" s']) (simp_all add: svc_Apply_def)
  next
    case 4
    with withdraw_poor [OF assms x b] x show thesis by (intro that(1)) (simp add: svc_Apply_def)
  qed
qed

text \<open>Deposits that fit add up.\<close>

lemma deposits_sum:
  assumes "ready s" and "acct s i = Some b" and "\<forall>x \<in> set xs. 0 < x" and "b + sum_list xs < 2 ^ 63"
  shows "acct (foldl (\<lambda>s x. snd (svc_Apply apply_op i op_deposit x s)) s xs) i = Some (b + sum_list xs)"
  using assms
proof (induction xs arbitrary: s b)
  case (Cons x xs)
  have "0 \<le> sum_list xs" using Cons.prems(3) by (intro sum_list_nonneg) auto
  then obtain s' where s': "apply_op i op_deposit x s = (Inr (b + x), s')" "acct s' = (acct s)(i \<mapsto> b + x)" "ready s'"
    using deposit_law [OF Cons.prems(1) _ Cons.prems(2), of x] Cons.prems(3,4) by auto
  then have "snd (svc_Apply apply_op i op_deposit x s) = s'" using Cons.prems(3) by (simp add: svc_Apply_def)
  then show ?case using Cons.IH [OF s'(3), of "b + x"] s'(2) Cons.prems(3,4) by (simp add: add.assoc)
qed simp

end

section \<open>The PostgreSQL repository provides it\<close>

definition legacy_ok :: "db \<Rightarrow> bool" where
  "legacy_ok d \<longleftrightarrow> (\<forall>r \<in> set (legacy d). 0 \<le> legacy_balance r \<and> legacy_balance r < 2 ^ 63)"

lemma legacy_find_put: "legacy_find j (legacy_put i b d) =
    (if j = i \<and> legacy_find i d \<noteq> None then Some b else legacy_find j d)"
proof -
  have put_legacy: "legacy (legacy_put i b d) =
      map (\<lambda>r. if legacy_id r = i then r\<lparr>legacy_balance := b\<rparr> else r) (legacy d)"
    by (simp add: legacy_put_def)
  have "map_option legacy_balance (find (\<lambda>r. legacy_id r = j)
      (map (\<lambda>r. if legacy_id r = i then r\<lparr>legacy_balance := b\<rparr> else r) rs)) =
    (if j = i \<and> find (\<lambda>r. legacy_id r = i) rs \<noteq> None then Some b
     else map_option legacy_balance (find (\<lambda>r. legacy_id r = j) rs))" for rs
    by (induction rs) auto
  from this [of "legacy d"] show ?thesis
    unfolding legacy_find_def put_legacy by (simp only: option.map_disc_iff)
qed

lemma legacy_put_ok: "legacy_ok d \<Longrightarrow> 0 \<le> b \<Longrightarrow> b < 2 ^ 63 \<Longrightarrow> legacy_ok (legacy_put i b d)"
  by (auto simp: legacy_ok_def legacy_put_def)

lemma legacy_find_range: "legacy_ok d \<Longrightarrow> legacy_find i d = Some b \<Longrightarrow> 0 \<le> b \<and> b < 2 ^ 63"
  by (auto simp: legacy_ok_def legacy_find_def find_Some_iff)

interpretation postgres: wallet_repository pg_ApplyOperation pg_GetBalance "\<lambda>d i. legacy_find i d"
  "\<lambda>d. legacy_ok d \<and> faults d = []"
proof
  fix d i b and x :: int
  assume d: "legacy_ok d \<and> faults d = []" and b: "legacy_find i d = Some b" and x: "0 < x"
  have rb: "0 \<le> b" "b < 2 ^ 63" using legacy_find_range d b by auto
  have put: "(\<lambda>j. legacy_find j (legacy_put i c d)) = (\<lambda>j. legacy_find j d)(i \<mapsto> c)" for c
    using b by (auto simp: legacy_find_put)
  have nf: "faults (legacy_put i c d) = []" for c using d by (simp add: legacy_put_def)
  show "\<exists>s'. pg_ApplyOperation i op_deposit x d = (Inr (b + x), s') \<and>
      (\<lambda>j. legacy_find j s') = (\<lambda>j. legacy_find j d)(i \<mapsto> b + x) \<and> legacy_ok s' \<and> faults s' = []"
    if "b + x < 2 ^ 63"
    using that d b x rb put nf legacy_put_ok [of d "b + x" i]
    by (simp add: pg_ApplyOperation_def pg_deposit_def legacy_add_def legacy_write_def in_int64_def)
  show "\<exists>e. pg_ApplyOperation i op_deposit x d = (Inl e, d)" if "2 ^ 63 \<le> b + x"
    using that d b by (simp add: pg_ApplyOperation_def pg_deposit_def legacy_add_def legacy_write_def in_int64_def)
  show "\<exists>s'. pg_ApplyOperation i op_withdraw x d = (Inr (b - x), s') \<and>
      (\<lambda>j. legacy_find j s') = (\<lambda>j. legacy_find j d)(i \<mapsto> b - x) \<and> legacy_ok s' \<and> faults s' = []"
    if "x \<le> b"
    using that d b x rb put nf legacy_put_ok [of d "b - x" i]
    by (simp add: pg_ApplyOperation_def pg_withdraw_def legacy_sub_def legacy_write_def in_int64_def)
  show "pg_ApplyOperation i op_withdraw x d = (Inl ErrInsufficientFunds, d)" if "b < x"
    using that d b by (simp add: pg_ApplyOperation_def pg_withdraw_def legacy_sub_def legacy_exists_def)
qed (auto simp: pg_ApplyOperation_def pg_deposit_def pg_withdraw_def legacy_add_def legacy_sub_def
    legacy_exists_def pg_GetBalance_def legacy_select_def dest: legacy_find_range split: option.splits)

section \<open>Invariant under failures\<close>

lemma legacy_write_ok: "legacy_ok d \<Longrightarrow> legacy_ok (snd (legacy_write i b d))"
  by (auto simp: legacy_write_def in_int64_def intro: legacy_put_ok)

lemma legacy_stmts_ok:
  assumes "legacy_ok d"
  shows "legacy_ok (snd (legacy_select i d))" "legacy_ok (snd (legacy_exists i d))"
    "legacy_ok (snd (legacy_add i x d))" "legacy_ok (snd (legacy_sub i x d))"
  using assms by (simp_all add: legacy_select_def legacy_exists_def legacy_add_def legacy_sub_def legacy_write_ok
      split: option.split)

lemma legacy_ok_faults [simp]: "legacy_ok (d\<lparr>faults := fs\<rparr>) = legacy_ok d"
  by (simp add: legacy_ok_def)

lemma run_legacy_ok:
  assumes "run_stmt st d = (r, d')" and "legacy_ok d" and "\<And>d. legacy_ok d \<Longrightarrow> legacy_ok (snd (st d))"
  shows "legacy_ok d'"
proof -
  have "legacy_ok (snd (run_stmt st d))"
    by (rule run_stmt_keeps [where I = legacy_ok]) (use assms(2,3) in simp_all)
  then show ?thesis using assms(1) by simp
qed

lemma pg_deposit_ok:
  assumes "legacy_ok d"
  shows "legacy_ok (snd (pg_deposit i x d))"
proof (cases "run_stmt (legacy_add i x) d")
  case (Pair r d')
  have "legacy_ok d'" by (rule run_legacy_ok [OF Pair assms legacy_stmts_ok(3)])
  then show ?thesis by (cases r) (simp_all add: pg_deposit_def Pair)
qed

lemma pg_withdraw_ok:
  assumes "legacy_ok d"
  shows "legacy_ok (snd (pg_withdraw i x d))"
proof (cases "run_stmt (legacy_sub i x) d")
  case (Pair r d')
  have d': "legacy_ok d'" by (rule run_legacy_ok [OF Pair assms legacy_stmts_ok(4)])
  obtain r2 d2 where s2: "run_stmt (legacy_exists i) d' = (r2, d2)" by fastforce
  have "legacy_ok d2" by (rule run_legacy_ok [OF s2 d' legacy_stmts_ok(2)])
  with d' show ?thesis by (cases r; cases r2) (simp_all add: pg_withdraw_def Pair s2)
qed

lemma pg_ApplyOperation_ok: "legacy_ok d \<Longrightarrow> legacy_ok (snd (pg_ApplyOperation i op x d))"
  by (simp add: pg_ApplyOperation_def pg_deposit_ok pg_withdraw_ok)

end
