(* ===== verification/Wallet_Properties.thy ===== *)
theory Wallet_Properties
  imports Wallet_Demo Wallet_Legacy
begin

text \<open>
  What the wallet's HTTP interface promises, and where it does not keep it: safety of the balances
  over arbitrary sequences of requests, refinement of the money requests to the abstract ledger,
  behaviour under database failures, authentication, and independence from Kafka. Every property
  with hypotheses is followed by a witness at the instances of \<open>Wallet_Demo\<close>.
\<close>

section \<open>Sequences of requests\<close>

text \<open>
  C1: No sequence of requests to any route, whatever database, exchanger and Kafka failures it
  meets, ever makes a balance negative, provided the exchanger never quotes a negative rate and
  the driver keeps the sign of amounts.
\<close>

theorem balances_never_negative:
  assumes "bal_nonneg (ws_db s)" and "client_nonneg s" and "codec_nonneg (hd_codec h)"
    and "\<forall>(e, r) \<in> set rs. env_nonneg (we_exch e)"
  shows "bal_nonneg (ws_db (serve h rs s))"
  using serve_solvent [OF assms] by simp

theorem balances_never_negative_witness:
  "bal_nonneg (ws_db (serve demo_handler [(demo_env, demo_exchange 10), (demo_env, demo_exchange 95)] demo_state))"
  by (rule balances_never_negative) (simp_all add: demo_bal_nonneg demo_rates demo_codec_nonneg)



section \<open>Money requests refine the ledger\<close>



text \<open>
  C20: Without database failures an accepted deposit is the ledger's credit: success answers 200 with the
  new amount and publishes a large transaction exactly as the publisher does for this amount; a
  missing row answers 404 and an overflow 500, with nothing changed.
\<close>

theorem deposit_refines_ledger:
  assumes ok: "db_ok (ws_db s)" and nf: "faults (ws_db s) = []"
    and acc: "req_method r = ''POST''" "UserIDFromContext r = Some uid"
      "amount_request r = Some q" "amount_accepts q"
    and w: "wallet_of (ws_db s) uid = Some w"
  shows "let px = hd_codec h; cur = acr_currency q; (resp, s') = HandleDeposit h e r s in
    (case ledger_credit (balance_of (ws_db s)) w cur (enc px (acr_amount q)) of
       Inr (l, a) \<Rightarrow> resp = write_json 200 (AmountBody cur (dec px a)) \<and> balance_of (ws_db s') = l \<and>
         ws_kafka s' = ws_kafka s @ fst (Publish (we_pub e) (hd_publisher h) uid ''deposit'' cur (acr_amount q))
     | Inl err \<Rightarrow> resp = (if err = NoAccount then write_error 404 ''currency not found'' else internal_error) \<and> s' = s)"
proof -
  have "ledger_credit l w c x \<noteq> Inl Insufficient" for l c x
    by (simp add: ledger_credit_def split: option.split sum.split)
  then show ?thesis
    by (auto simp: HandleDeposit_accepted [OF acc nf w] on_db_eq Deposit_refines [OF ok nf] publish_large_def Let_def
        credit_balance_of split: sum.splits ledger_error.splits)
qed

theorem deposit_refines_ledger_witness:
  "let (resp, s') = HandleDeposit demo_handler demo_env (demo_money ''/'' 10 ''EUR'') demo_state in
    status resp = 200 \<and> balance_of (ws_db s') 1 ''EUR'' = Some (Num 15)"
  using deposit_refines_ledger [where s = demo_state and r = "demo_money ''/'' 10 ''EUR''" and uid = 1 and w = 1
      and e = demo_env and h = demo_handler and q = "\<lparr>acr_amount = Fin 10, acr_currency = ''EUR''\<rparr>"]
  by (simp add: demo_db_ok demo_money_request demo_round amount_accepts_def allowedCurrencies_def
      num_eval ledger_credit_def ledger_set_def Let_def split: prod.splits)

text \<open>
  C19: Without database failures an accepted withdrawal is the ledger's guarded debit: success answers 200
  with the new amount, a missing row or insufficient funds answer 400 with nothing changed.
\<close>

theorem withdraw_refines_ledger:
  assumes ok: "db_ok (ws_db s)" and nf: "faults (ws_db s) = []"
    and acc: "req_method r = ''POST''" "UserIDFromContext r = Some uid"
      "amount_request r = Some q" "amount_accepts q"
    and w: "wallet_of (ws_db s) uid = Some w"
  shows "let px = hd_codec h; cur = acr_currency q; (resp, s') = HandleWithdraw h e r s in
    (case ledger_debit (balance_of (ws_db s)) w cur (enc px (acr_amount q)) of
       Inr (l, a) \<Rightarrow> resp = write_json 200 (AmountBody cur (dec px a)) \<and> balance_of (ws_db s') = l \<and>
         ws_kafka s' = ws_kafka s @ fst (Publish (we_pub e) (hd_publisher h) uid ''withdraw'' cur (acr_amount q))
     | Inl (OutOfRange _) \<Rightarrow> resp = internal_error \<and> s' = s
     | Inl _ \<Rightarrow> resp = write_error 400 ''Insufficient funds'' \<and> s' = s)"
  by (auto simp: HandleWithdraw_accepted [OF acc nf w] on_db_eq Withdraw_refines [OF ok nf] publish_large_def Let_def
      debit_balance_of split: sum.splits ledger_error.splits)

theorem withdraw_refines_ledger_witness:
  "let (resp, s') = HandleWithdraw demo_handler demo_env (demo_money ''/'' 10 ''EUR'') demo_state in
    status resp = 400 \<and> s' = demo_state"
  using withdraw_refines_ledger [where s = demo_state and r = "demo_money ''/'' 10 ''EUR''" and uid = 1 and w = 1
      and e = demo_env and h = demo_handler and q = "\<lparr>acr_amount = Fin 10, acr_currency = ''EUR''\<rparr>"]
  by (simp add: demo_db_ok demo_money_request demo_round amount_accepts_def allowedCurrencies_def
      ledger_debit_def Let_def split: prod.splits)

section \<open>Database failures\<close>



text \<open>
  C39: A registration whose wallet insert fails leaves the user behind: registering again with the same
  data is refused with 409 for good, and the user's balance is not found (404).
\<close>

theorem partial_registration_locks_out:
  assumes ok: "db_ok (ws_db s)" and f: "faults (ws_db s) = [NoFault, FailBefore]"
    and acc: "req_method r = ''POST''" "register_request r = Some q" "register_accepts q"
      "HashPassword (hd_bcrypt h) (rr_password q) = Some hash"
    and new: "new_user (ws_db s) (rr_username q) (rr_email q)"
  shows "let (resp1, s1) = HandleRegister h e r s; uid = user_seq (ws_db s) in
    resp1 = internal_error \<and>
    fst (HandleRegister h e' r s1) = write_error 409 ''username or email already taken'' \<and>
    (\<forall>e'' r'. req_method r' = ''GET'' \<longrightarrow> UserIDFromContext r' = Some uid \<longrightarrow>
       HandleBalance h e'' r' s1 = (write_error 404 ''wallet not found'', s1))"
proof -
  let ?d = "ws_db s"
  let ?u = "\<lparr>user_id = user_seq ?d, username = rr_username q, email = rr_email q, password_hash = hash\<rparr>"
  let ?d1 = "?d\<lparr>faults := [], user_seq := user_seq ?d + 1, users := users ?d @ [?u]\<rparr>"
  have "new_user (?d\<lparr>faults := [FailBefore]\<rparr>) (rr_username q) (rr_email q)"
    using new by (simp add: new_user_def)
  then have run: "HandleRegister h e r s = (internal_error, s\<lparr>ws_db := ?d1\<rparr>)"
    by (simp add: HandleRegister_accepted [OF acc] on_db_eq CreateUser_def CreateWalletForUser_def run_stmt_def f
        insert_user_new)
  have "fst (HandleRegister h e' r (s\<lparr>ws_db := ?d1\<rparr>)) = write_error 409 ''username or email already taken''"
    using new by (simp add: HandleRegister_accepted [OF acc] on_db_eq CreateUser_def insert_user_def Let_def
        new_user_def isUniqueViolation_def)
  moreover have "HandleBalance h e'' r' (s\<lparr>ws_db := ?d1\<rparr>) = (write_error 404 ''wallet not found'', s\<lparr>ws_db := ?d1\<rparr>)"
    if "req_method r' = ''GET''" "UserIDFromContext r' = Some (user_seq ?d)" for e'' r'
    using that by (simp add: HandleBalance_def on_db_eq GetWalletIDByUserID_ok wallet_of_def no_wallet_yet [OF ok])
  ultimately show ?thesis using run by (simp add: Let_def)
qed

theorem partial_registration_locks_out_witness:
  "let s0 = demo_state\<lparr>ws_db := demo_db\<lparr>faults := [NoFault, FailBefore]\<rparr>\<rparr>;
     r = demo_request ''POST'' ''/'' (JObj [(''username'', JStr ''bob''), (''email'', JStr ''b@x''), (''password'', JStr ''pw'')])
   in fst (HandleRegister demo_handler demo_env r (snd (HandleRegister demo_handler demo_env r s0))) =
     write_error 409 ''username or email already taken''"
  using partial_registration_locks_out [where h = demo_handler and e = demo_env and e' = demo_env
      and s = "demo_state\<lparr>ws_db := demo_db\<lparr>faults := [NoFault, FailBefore]\<rparr>\<rparr>" and hash = "''$pw''"
      and q = "\<lparr>rr_username = ''bob'', rr_email = ''b@x'', rr_password = ''pw''\<rparr>"
      and r = "demo_request ''POST'' ''/'' (JObj [(''username'', JStr ''bob''), (''email'', JStr ''b@x''), (''password'', JStr ''pw'')])"]
  by (simp add: demo_db_ok schema.faults_irrelevant register_request_def decode_body_def register_fields_def
      find_field_def register_accepts_def HashPassword_def Let_def split: prod.splits)

section \<open>Amounts the columns cannot hold\<close>

text \<open>
  C37: An amount of at most half a cent is free: an exchange of it succeeds, leaves the source balance as it
  was, because the new amount is rounded back to it, and credits the destination with the converted
  amount.
\<close>

theorem sub_cent_exchange_mints:
  assumes "db_ok d" and "faults d = []" and "cf \<noteq> ct"
    and "balance_of d w cf = Some (Num (of_int k / 100))" and "0 < k"
    and "enc px debit = Num x" and "0 < x" and "x \<le> 1 / 200"
    and "balance_of d w ct = Some b" and "cast_18_2 (num_add b (enc px credit)) = Inr b'"
  shows "let (r, d') = Exchange px w cf ct debit credit d in
    r = Inr (balance_view px (balance_of d') w) \<and>
    balance_of d' w cf = balance_of d w cf \<and> balance_of d' w ct = Some b'"
proof -
  have "ledger_exchange (balance_of d) w cf ct (enc px debit) (enc px credit) =
      Inr (ledger_set (balance_of d) w ct b')"
    using assms(6,9,10) sub_cent_debit [OF assms(1,4,5,7,8)]
    by (simp add: ledger_exchange_def ledger_credit_def)
  then show ?thesis
    using Exchange_result [OF assms(1,2), of w ct px cf debit credit] assms(3,9)
    by (auto simp: ledger_set_def split: prod.split)
qed

theorem sub_cent_exchange_mints_witness:
  "let (r, d') = Exchange demo_codec 1 ''USD'' ''RUB'' (Fin (1 / 256))
     (exchanged_amount (Fin (1 / 256)) (Fin 90)) demo_db
   in balance_of d' 1 ''USD'' = Some (Num 100) \<and> balance_of d' 1 ''RUB'' = Some (Num (35 / 100))"
  using sub_cent_exchange_mints [where d = demo_db and w = 1 and cf = "''USD''" and ct = "''RUB''" and k = 10000
      and px = demo_codec and debit = "Fin (1 / 256)" and x = "1 / 256"
      and credit = "exchanged_amount (Fin (1 / 256)) (Fin 90)" and b = "Num 0" and b' = "Num (35 / 100)"]
  by (simp add: demo_db_ok exchanged_amount_def demo_round demo_35 num_eval
      split: prod.splits)

text \<open>
  An exchange into a currency for which the wallet has no row debits the source and reports success:
  the credit matched no row and is not checked.
\<close>

lemma exchange_without_destination:
  assumes "db_ok d" and "faults d = []" and "balance_of d w ct = None"
    and "ledger_debit (balance_of d) w cf (enc px debit) = Inr (l, a)" 
  shows "let (r, d') = Exchange px w cf ct debit credit d in
    r = Inr (balance_view px l w) \<and> balance_of d' = l"
proof -
  let ?d1 = "set_balance w cf a d"
  have "db_ok ?d1" by (rule db_ok_debit [OF assms(1,4)])
  moreover have "balance_of ?d1 = l" by (rule debit_balance_of [OF assms(4)])
  ultimately show ?thesis
    using Exchange_without_row [OF assms, of credit] GetBalances_view [of ?d1 px w] assms(2) by simp
qed

section \<open>Authentication\<close>

text \<open>
  C23: A fresh user registers (201), logs in with the same password (200 and a token) and reads with that
  token, until it expires, a balance of zero in each of the three currencies.
\<close>

theorem register_login_balance:
  assumes ok: "db_ok (ws_db s)" and nf: "faults (ws_db s) = []"
    and reg: "req_method ra = ''POST''" "register_request ra = Some q" "register_accepts q"
      "HashPassword (hd_bcrypt h) (rr_password q) = Some hash"
    and new: "new_user (ws_db s) (rr_username q) (rr_email q)"
    and login: "req_method rb = ''POST''"
      "login_request rb = Some \<lparr>lr_username = rr_username q, lr_password = rr_password q\<rparr>"
      "NewToken (hd_jwt h) (we_token_exp eb) (we_token_iat eb) (hd_secret h) (user_seq (ws_db s)) 0 = Some tok"
    and bal: "req_method rc = ''GET''" "req_path rc = ''/api/v1/balance''" "req_auth rc = bearer @ tok"
      "we_now ec < numeric_date (we_token_exp eb + defaultExpire)"
    and libs: "bcrypt_ok (hd_bcrypt h)" "jwt_roundtrip (hd_jwt h)"
  shows "let (resp1, s1) = HandleRegister h ea ra s; (resp2, s2) = HandleLogin h eb rb s1;
      (resp3, s3) = route h ec rc s2
    in resp1 = write_json 201 (MessageBody ''registered'') \<and> resp2 = write_json 200 (TokenBody tok) \<and>
      resp3 = write_json 200 (BalancesBody (\<lambda>c. if chk_currency c then Some (dec (hd_codec h) (Num 0)) else None))"
proof -
  let ?d = "registered (ws_db s) (rr_username q) (rr_email q) hash"
  let ?s1 = "s\<lparr>ws_db := ?d\<rparr>"
  have s1: "HandleRegister h ea ra s = (write_json 201 (MessageBody ''registered''), ?s1)"
    by (rule HandleRegister_success [OF ok nf reg new])
  have ok1: "db_ok ?d" using schema.HandleRegister_keeps [of s h ea ra] ok s1 by simp
  have nf1: "faults ?d = []" using nf by (simp add: registered_def)
  have "CheckPassword (hd_bcrypt h) (rr_password q) hash"
    using reg(4) libs(1) by (auto simp: CheckPassword_def HashPassword_def bcrypt_ok_def)
  then have s2: "HandleLogin h eb rb ?s1 = (write_json 200 (TokenBody tok), ?s1)"
    using login reg(3) by (simp add: HandleLogin_def login_request_def register_accepts_def on_db_eq
        GetUserByUsername_def select_user_def nf1 find_registered [OF new])
  have "ValidateToken (hd_jwt h) (we_now ec) (hd_secret h) tok = Inr
      \<lparr>expires_at = numeric_date (we_token_exp eb + defaultExpire), issued_at = numeric_date (we_token_iat eb),
        claim_user = user_seq (ws_db s)\<rparr>"
    by (rule NewToken_validates [OF libs(2) login(3) bal(4)])
  then have "route h ec rc ?s1 = HandleBalance h ec (rc\<lparr>req_ctx_user := Some (CtxInt64 (user_seq (ws_db s)))\<rparr>) ?s1"
    using bal(2,3) by (simp add: route_def protected_def AuthMiddleware_pass)
  also have "\<dots> = (write_json 200 (BalancesBody (balance_view (hd_codec h) (balance_of ?d) (wallet_seq (ws_db s)))), ?s1)"
    using bal(1) by (simp add: HandleBalance_def UserIDFromContext_def on_db_eq GetWalletIDByUserID_ok nf1
        registered_wallet [OF ok] GetBalances_view [OF ok1 nf1])
  finally show ?thesis
    unfolding s1 s2 Let_def prod.case
    by (simp add: balance_view_def registered_balances [OF ok] cong: if_cong)
qed

theorem register_login_balance_witness:
  "\<exists>tok. fst (HandleLogin demo_handler demo_env
      (demo_request ''POST'' ''/'' (JObj [(''username'', JStr ''bob''), (''password'', JStr ''pw'')]))
      (snd (HandleRegister demo_handler demo_env (demo_request ''POST'' ''/'' (JObj [(''username'', JStr ''bob''),
        (''email'', JStr ''b@x''), (''password'', JStr ''pw'')])) demo_state))) = write_json 200 (TokenBody tok)"
proof -
  obtain tok where "NewToken demo_jwt 1 1 ''key'' 2 0 = Some tok"
    by (simp add: NewToken_def demo_jwt_def demo_sign_def)
  then show ?thesis
    using register_login_balance [where h = demo_handler and ea = demo_env and eb = demo_env and ec = demo_env
        and s = demo_state and hash = "''$pw''" and tok = tok
        and q = "\<lparr>rr_username = ''bob'', rr_email = ''b@x'', rr_password = ''pw''\<rparr>"
        and ra = "demo_request ''POST'' ''/'' (JObj [(''username'', JStr ''bob''), (''email'', JStr ''b@x''), (''password'', JStr ''pw'')])"
        and rb = "demo_request ''POST'' ''/'' (JObj [(''username'', JStr ''bob''), (''password'', JStr ''pw'')])"
        and rc = "(demo_request ''GET'' ''/api/v1/balance'' JNull)\<lparr>req_auth := bearer @ tok\<rparr>"]
    by (auto simp: demo_db_ok register_request_def login_request_def decode_body_def register_fields_def
        login_fields_def find_field_def register_accepts_def HashPassword_def demo_bcrypt_ok demo_jwt_roundtrip
        demo_reg_facts Let_def split: prod.splits)
qed

text \<open>
  Without a valid token every protected route answers 401 and changes nothing.
\<close>

lemma no_token_no_effect:
  assumes "protected_route (req_path r) \<noteq> None"
    and "\<forall>tok. req_auth r = bearer @ tok \<longrightarrow> is_err (ValidateToken (hd_jwt h) (we_now e) (hd_secret h) tok)"
  shows "route h e r s = (status_only 401, s)"
proof -
  obtain f where f: "protected_route (req_path r) = Some f" using assms(1) by auto
  show ?thesis
    unfolding route_protected [OF f] protected_def
    using assms(2) by (rule_tac AuthMiddleware_cases [OF refl]) auto
qed



text \<open>
  C6: Whatever a request does, on any route and under any database failures, it leaves the balances of
  every wallet alone whose user is not the one of the request's valid token.
\<close>

theorem other_wallets_untouched:
  assumes "db_ok (ws_db s)" and "w \<in> set (wallets (ws_db s))"
    and "\<forall>tok c. req_auth r = bearer @ tok \<longrightarrow>
      ValidateToken (hd_jwt h) (we_now e) (hd_secret h) tok = Inr c \<longrightarrow> claim_user c \<noteq> wallet_user w"
  shows "balance_of (ws_db (snd (route h e r s))) (wallet_id w) = balance_of (ws_db s) (wallet_id w)"
  using route_rows [OF assms(1,2), of r h e] assms(3) by (simp add: balance_of_rows fun_eq_iff)

theorem other_wallets_untouched_witness:
  "balance_of (ws_db (snd (route demo_handler demo_env (demo_exchange 10) demo_state))) 1 = balance_of demo_db 1"
  using other_wallets_untouched [of demo_state "\<lparr>wallet_id = 1, wallet_user = 1\<rparr>" "demo_exchange 10"
      demo_handler demo_env]
  by (simp add: demo_db_ok bearer_def demo_db_def [THEN arg_cong, of wallets])

section \<open>Kafka\<close>

text \<open>
  Responses, database and rate cache do not depend on Kafka: neither the outcome of the writes nor the
  time they take changes anything but what was sent.
\<close>

lemma responses_independent_of_kafka:
  "forget_kafka (route h (e\<lparr>we_pub := p\<rparr>) r s) = forget_kafka (route h e r s)"
  by (simp add: route_def protected_def AuthMiddleware_def Let_def handlers_kafka_env money_kafka_env
      split: sum.split)

section \<open>The UUID-keyed interface\<close>

text \<open>
  Deposits to a wallet add up whatever the order in which the database executes them: after any
  permutation of them the balance is the old one plus their sum (what the concurrency test checks).
\<close>

lemma legacy_deposits_any_order:
  assumes "legacy_ok d" and "faults d = []" and "legacy_find i d = Some b" and "\<forall>x \<in> set xs. 0 < x"
    and "b + sum_list xs < 2 ^ 63" and "mset ys = mset xs"
  shows "legacy_find i (foldl (\<lambda>d x. snd (svc_Apply pg_ApplyOperation i op_deposit x d)) d ys) =
    Some (b + sum_list xs)"
proof -
  have "sum_list ys = sum_list xs" using assms(6) by (metis sum_mset_sum_list)
  moreover have "set ys = set xs" using assms(6) by (metis set_mset_mset)
  ultimately show ?thesis using postgres.deposits_sum [of d i b ys] assms(1-5) by simp
qed

definition demo_legacy :: db where
  "demo_legacy = empty_db\<lparr>legacy := [\<lparr>legacy_id = 7, legacy_balance = 10000\<rparr>]\<rparr>"

lemma demo_legacy_simps [simp]:
  "legacy_ok demo_legacy" "faults demo_legacy = []" "legacy_find 7 demo_legacy = Some 10000"
  by (simp_all add: demo_legacy_def legacy_ok_def empty_db_def legacy_find_def)

text \<open>
  What a well-formed operation on a UUID wallet answers: 400 for an amount that is not positive or an
  unknown operation, 404 for an unknown wallet, 409 for a withdrawal above the balance, 500 for an
  overflow, all with nothing changed, and else 200 with the new balance.
\<close>

lemma legacy_operation_outcomes:
  assumes ok: "legacy_ok d" and nf: "faults d = []" and post: "req_method r = ''POST''"
    and q: "decode_body True (operation_fields parse) \<lparr>or_wallet = 0, or_operation = [], or_amount = 0\<rparr> (req_body r) = Some q"
    and i: "or_wallet q = i" "i \<noteq> 0" and x: "or_amount q = x" and op: "or_operation q = op"
  shows "let (resp, d') = HandleWalletOperation parse show_uuid r d;
      done = (\<lambda>b. resp = write_json 200 (LegacyBalanceBody (show_uuid i) b) \<and> (\<lambda>j. legacy_find j d') = (\<lambda>j. legacy_find j d)(i \<mapsto> b));
      refused = (\<lambda>n. status resp = n \<and> d' = d)
    in if x \<le> 0 \<or> op \<notin> {op_deposit, op_withdraw} then refused 400
       else (case legacy_find i d of None \<Rightarrow> refused 404
         | Some b \<Rightarrow> if op = op_deposit then (if b + x < 2 ^ 63 then done (b + x) else refused 500)
             else if x \<le> b then done (b - x) else refused 409)"
proof -
  have run: "HandleWalletOperation parse show_uuid r d = (case svc_Apply pg_ApplyOperation i op x d of
      (Inl e, d') \<Rightarrow> (write_domain_error e, d')
    | (Inr b, d') \<Rightarrow> (write_json 200 (LegacyBalanceBody (show_uuid i) b), d'))"
    using post q i x op by (auto simp: HandleWalletOperation_def)
  have ready: "legacy_ok d \<and> faults d = []" using ok nf by simp
  show ?thesis
  proof (cases "x \<le> 0 \<or> op \<notin> {op_deposit, op_withdraw}")
    case True
    then show ?thesis by (auto simp: run svc_Apply_def Let_def)
  next
    case False
    then have pos: "0 < x" and opc: "op = op_deposit \<or> op = op_withdraw" by auto
    have call: "svc_Apply pg_ApplyOperation i op x d = pg_ApplyOperation i op x d"
      using False by (auto simp: svc_Apply_def)
    show ?thesis
    proof (cases "legacy_find i d")
      case None
      then show ?thesis using postgres.op_missing [OF ready, of op i x] False opc by (auto simp: run call Let_def)
    next
      case (Some b)
      have overflow: "status (write_domain_error e) = 500"
        if "pg_ApplyOperation i op_deposit x d = (Inl e, d)" for e
        using that Some nf by (auto simp: pg_ApplyOperation_def pg_deposit_def legacy_add_def legacy_write_def split: if_splits)
      show ?thesis
        using postgres.deposit_law [OF ready pos Some] postgres.deposit_overflow [OF ready pos Some]
          postgres.withdraw_law [OF ready pos Some] postgres.withdraw_poor [OF ready pos Some] False opc Some overflow
        by (cases "b + x < 2 ^ 63"; cases "x \<le> b") (auto simp: run call Let_def not_less not_le)
    qed
  qed
qed

text \<open>
  Whatever statements fail, an operation on UUID wallets leaves every balance between zero and the
  largest 64-bit integer.
\<close>

lemma legacy_balances_in_range:
  assumes "legacy_ok d"
  shows "legacy_ok (snd (HandleWalletOperation parse show_uuid r d))"
proof -
  have "legacy_ok (snd (svc_Apply pg_ApplyOperation i op x d))" for i op x
    by (simp add: svc_Apply_def pg_ApplyOperation_ok assms)
  then show ?thesis
    by (auto simp: HandleWalletOperation_def assms split: option.split prod.split sum.split) (metis snd_conv)+
qed

end
