(* ===== verification/Exchanger_Concurrency.thy ===== *)
theory Exchanger_Concurrency
  imports Exchanger_Client
begin

text \<open>
  The locking protocol of \<^verbatim>\<open>GetAllRates\<close> with any number of callers: the read lock for the first look
  at the cache, the write lock for the second look, the RPC and the store. The state is the shared
  client, the clock, the holders of the \<^verbatim>\<open>RWMutex\<close>, the program counter of every caller and, as a
  history, the times of the stores. A step is one caller's next action or the clock advancing; any
  interleaving is allowed. \<open>proto_inv\<close> is inductive; from it, stores are at least a cache lifetime
  apart however many callers there are.
\<close>

datatype rates_pc =
    Start
  | HoldsRead
  | BetweenLocks
  | HoldsWrite
  | Fetching
  | Returned "client_error + ((string \<rightharpoonup> float64) \<times> string)"

record proto =
  p_client :: exch_client
  p_now :: int
  p_readers :: "nat set"
  p_writer :: "nat option"
  p_pc :: "nat \<Rightarrow> rates_pc"
  p_stores :: "int list"

definition goto :: "nat \<Rightarrow> rates_pc \<Rightarrow> proto \<Rightarrow> proto" where
  "goto i k s = s\<lparr>p_pc := (p_pc s)(i := k)\<rparr>"

definition hit :: "proto \<Rightarrow> rates_pc" where
  "hit s = Returned (Inr (cacheRates (p_client s), ''cache''))"

definition store_rates :: "(string \<rightharpoonup> float64) \<Rightarrow> proto \<Rightarrow> proto" where
  "store_rates m s = s\<lparr>p_client := (p_client s)\<lparr>cacheRates := m, cacheAt := Some (p_now s)\<rparr>,
     p_stores := p_now s # p_stores s\<rparr>"

inductive proto_step :: "proto \<Rightarrow> proto \<Rightarrow> bool" where
  tick: "p_now s \<le> t \<Longrightarrow> proto_step s (s\<lparr>p_now := t\<rparr>)"
| rlock: "p_pc s i = Start \<Longrightarrow> p_writer s = None \<Longrightarrow>
    proto_step s (goto i HoldsRead (s\<lparr>p_readers := insert i (p_readers s)\<rparr>))"
| read_hit: "p_pc s i = HoldsRead \<Longrightarrow> cache_valid (p_client s) (p_now s) \<Longrightarrow>
    proto_step s (goto i (hit s) (s\<lparr>p_readers := p_readers s - {i}\<rparr>))"
| read_miss: "p_pc s i = HoldsRead \<Longrightarrow> \<not> cache_valid (p_client s) (p_now s) \<Longrightarrow>
    proto_step s (goto i BetweenLocks (s\<lparr>p_readers := p_readers s - {i}\<rparr>))"
| lock: "p_pc s i = BetweenLocks \<Longrightarrow> p_writer s = None \<Longrightarrow> p_readers s = {} \<Longrightarrow>
    proto_step s (goto i HoldsWrite (s\<lparr>p_writer := Some i\<rparr>))"
| write_hit: "p_pc s i = HoldsWrite \<Longrightarrow> cache_valid (p_client s) (p_now s) \<Longrightarrow>
    proto_step s (goto i (hit s) (s\<lparr>p_writer := None\<rparr>))"
| no_conn: "p_pc s i = HoldsWrite \<Longrightarrow> \<not> cache_valid (p_client s) (p_now s) \<Longrightarrow> \<not> has_conn (p_client s) \<Longrightarrow>
    proto_step s (goto i (Returned (Inr (Map.empty, ''grpc''))) (s\<lparr>p_writer := None\<rparr>))"
| call: "p_pc s i = HoldsWrite \<Longrightarrow> \<not> cache_valid (p_client s) (p_now s) \<Longrightarrow> has_conn (p_client s) \<Longrightarrow>
    proto_step s (goto i Fetching s)"
| rpc_error: "p_pc s i = Fetching \<Longrightarrow>
    proto_step s (goto i (Returned (Inl (RpcError err))) (s\<lparr>p_writer := None\<rparr>))"
| rpc_ok: "p_pc s i = Fetching \<Longrightarrow>
    proto_step s (goto i (Returned (Inr (m, ''grpc''))) ((store_rates m s)\<lparr>p_writer := None\<rparr>))"

definition proto_init :: "exch_client \<Rightarrow> int \<Rightarrow> proto" where
  "proto_init c t = \<lparr>p_client = c, p_now = t, p_readers = {}, p_writer = None, p_pc = (\<lambda>_. Start),
     p_stores = []\<rparr>"

definition reaches :: "proto \<Rightarrow> proto \<Rightarrow> bool" where
  "reaches s s' \<longleftrightarrow> proto_step\<^sup>*\<^sup>* s s'"

section \<open>The invariant\<close>

definition locks_ok :: "proto \<Rightarrow> bool" where
  "locks_ok s \<longleftrightarrow> p_readers s = {i. p_pc s i = HoldsRead} \<and>
     (\<forall>i. p_pc s i \<in> {HoldsWrite, Fetching} \<longleftrightarrow> p_writer s = Some i) \<and>
     (p_writer s \<noteq> None \<longrightarrow> p_readers s = {})"

fun spaced :: "int \<Rightarrow> int list \<Rightarrow> bool" where
  "spaced ttl (t2 # t1 # ts) = (t1 + ttl \<le> t2 \<and> spaced ttl (t1 # ts))"
| "spaced ttl _ = True"

definition stores_ok :: "proto \<Rightarrow> bool" where
  "stores_ok s \<longleftrightarrow> spaced (cacheTTL (p_client s)) (p_stores s) \<and>
     (\<forall>t \<in> set (take 1 (p_stores s)). cacheAt (p_client s) = Some t) \<and>
     (\<forall>i. p_pc s i = Fetching \<longrightarrow> \<not> cache_valid (p_client s) (p_now s) \<and> has_conn (p_client s))"

definition proto_inv :: "proto \<Rightarrow> bool" where
  "proto_inv s \<longleftrightarrow> locks_ok s \<and> stores_ok s"

lemmas proto_defs = proto_inv_def locks_ok_def stores_ok_def goto_def hit_def store_rates_def

text \<open>An entry that is not valid stays so as time passes.\<close>

lemma cache_expired: "\<not> cache_valid c t \<Longrightarrow> t \<le> t' \<Longrightarrow> \<not> cache_valid c t'"
  by (auto simp: cache_valid_def split: option.splits)

lemma proto_inv_init: "proto_inv (proto_init c t)"
  by (simp add: proto_defs proto_init_def)

lemma writer_unique:
  assumes "locks_ok s" and "p_pc s i = HoldsWrite \<or> p_pc s i = Fetching"
    and "p_pc s j = HoldsWrite \<or> p_pc s j = Fetching"
  shows "j = i"
  using assms by (auto simp: locks_ok_def)

lemma locks_ok_step:
  assumes "proto_step s s'" and "locks_ok s"
  shows "locks_ok s'"
  using assms
proof (induction rule: proto_step.induct)
  case (write_hit s i)
  then show ?case using writer_unique [of s i] by (auto simp: locks_ok_def goto_def hit_def)
next
  case (no_conn s i)
  then show ?case using writer_unique [of s i] by (auto simp: locks_ok_def goto_def)
next
  case (rpc_error s i err)
  then show ?case using writer_unique [of s i] by (auto simp: locks_ok_def goto_def)
next
  case (rpc_ok s i m)
  then show ?case using writer_unique [of s i] by (auto simp: locks_ok_def goto_def store_rates_def)
qed (auto simp: proto_defs split: if_splits)

lemma stores_ok_frame:
  assumes "stores_ok s" and "p_client s' = p_client s" and "p_stores s' = p_stores s" and "p_now s' = p_now s"
    and "\<And>i. p_pc s' i = Fetching \<Longrightarrow> p_pc s i = Fetching \<or>
      \<not> cache_valid (p_client s) (p_now s) \<and> has_conn (p_client s)"
  shows "stores_ok s'"
  using assms by (auto simp: stores_ok_def)

lemma stores_ok_step:
  assumes "proto_step s s'" and "locks_ok s" and "stores_ok s"
  shows "stores_ok s'"
  using assms
proof (induction rule: proto_step.induct)
  case (tick s t)
  then show ?case using cache_expired by (auto simp: stores_ok_def)
next
  case (rpc_ok s i m)
  let ?s' = "goto i (Returned (Inr (m, ''grpc''))) ((store_rates m s)\<lparr>p_writer := None\<rparr>)"
  have "p_pc ?s' j \<noteq> Fetching" for j
    using writer_unique [of s i j] rpc_ok by (auto simp: goto_def store_rates_def)
  moreover have "spaced (cacheTTL (p_client s)) (p_now s # p_stores s)"
  proof (cases "p_stores s")
    case (Cons t ts)
    then have "cacheAt (p_client s) = Some t" "\<not> cache_valid (p_client s) (p_now s)"
      "spaced (cacheTTL (p_client s)) (t # ts)"
      using rpc_ok by (auto simp: stores_ok_def)
    then show ?thesis using Cons by (simp add: cache_valid_def)
  qed simp
  ultimately show ?case by (simp add: stores_ok_def goto_def store_rates_def)
qed (rule stores_ok_frame, assumption, auto simp: goto_def hit_def split: if_splits)+

lemma proto_inv_step: "proto_step s s' \<Longrightarrow> proto_inv s \<Longrightarrow> proto_inv s'"
  by (simp add: proto_inv_def locks_ok_step stores_ok_step)

lemma proto_inv_reaches: "reaches s s' \<Longrightarrow> proto_inv s \<Longrightarrow> proto_inv s'"
  unfolding reaches_def by (induction rule: rtranclp_induct) (auto intro: proto_inv_step)

lemma ttl_const: "proto_step s s' \<Longrightarrow> cacheTTL (p_client s') = cacheTTL (p_client s)"
  by (induction rule: proto_step.induct) (simp_all add: goto_def store_rates_def)

lemma ttl_reaches: "reaches s s' \<Longrightarrow> cacheTTL (p_client s') = cacheTTL (p_client s)"
  unfolding reaches_def by (induction rule: rtranclp_induct) (simp_all add: ttl_const)

text \<open>Somebody can always go on: the two locks are never waited for in a circle.\<close>

definition can_move :: "proto \<Rightarrow> bool" where
  "can_move s \<longleftrightarrow> (\<exists>s'. proto_step s s' \<and> p_pc s' \<noteq> p_pc s)"

lemma can_moveI:
  assumes "proto_step s (goto j k s1)" and "p_pc s1 = p_pc s" and "k \<noteq> p_pc s j"
  shows "can_move s"
proof -
  have "p_pc (goto j k s1) j \<noteq> p_pc s j" using assms(3) by (simp add: goto_def)
  then show ?thesis using assms(1) by (auto simp: can_move_def)
qed

lemma reader_moves: "p_pc s i = HoldsRead \<Longrightarrow> can_move s"
  by (cases "cache_valid (p_client s) (p_now s)")
    (auto intro: can_moveI [OF read_hit] can_moveI [OF read_miss] simp: hit_def)

lemma writer_moves: "p_pc s i = HoldsWrite \<or> p_pc s i = Fetching \<Longrightarrow> can_move s"
  by (cases "cache_valid (p_client s) (p_now s)"; cases "has_conn (p_client s)")
    (auto intro: can_moveI [OF write_hit] can_moveI [OF no_conn] can_moveI [OF call] can_moveI [OF rpc_error]
      simp: hit_def)

lemma proto_progress:
  assumes "proto_inv s" and "\<forall>r. p_pc s i \<noteq> Returned r"
  shows "can_move s"
proof -
  have locks: "locks_ok s" using assms(1) by (simp add: proto_inv_def)
  have writer: "p_writer s \<noteq> None \<Longrightarrow> can_move s"
    using locks by (auto simp: locks_ok_def intro: writer_moves)
  have readers: "p_readers s \<noteq> {} \<Longrightarrow> can_move s"
    using locks by (auto simp: locks_ok_def intro: reader_moves)
  show ?thesis
  proof (cases "p_pc s i")
    case Start
    then show ?thesis using writer by (cases "p_writer s") (auto intro: can_moveI [OF rlock])
  next
    case BetweenLocks
    then show ?thesis using writer readers
      by (cases "p_writer s"; cases "p_readers s = {}") (auto intro: can_moveI [OF lock])
  qed (use assms(2) reader_moves writer_moves in blast)+
qed

text \<open>
  Every returned answer is one that the sequential \<open>GetAllRates\<close> gives from the shared client at the
  moment of the return: a hit of the cache, the empty map without a connection, an error, or the
  rates just stored.
\<close>

definition call_at :: "int \<Rightarrow> grpc_code + (string \<rightharpoonup> float64) \<Rightarrow> exch_env" where
  "call_at t ans = \<lparr>t_rlock = t, t_lock = t, t_store = t, rpc_rates = ans, rpc_rate = (\<lambda>_ _. Inl NotFound)\<rparr>"

lemma return_sequential:
  assumes "proto_step s s'" and "p_pc s' i = Returned r" and "p_pc s i \<noteq> Returned r" and "proto_inv s"
  shows "\<exists>ans. GetAllRates (call_at (p_now s) ans) (p_client s) = (r, p_client s')"
  using assms
proof (induction rule: proto_step.induct)
  case (rpc_ok s j m)
  then have "j = i" "\<not> cache_valid (p_client s) (p_now s)" "has_conn (p_client s)"
    by (auto simp: proto_inv_def stores_ok_def goto_def store_rates_def split: if_splits)
  with rpc_ok show ?case
    by (intro exI [of _ "Inr m"]) (simp add: GetAllRates_def call_at_def goto_def store_rates_def)
next
  case (rpc_error s j err)
  then have "j = i" "\<not> cache_valid (p_client s) (p_now s)" "has_conn (p_client s)"
    by (auto simp: proto_inv_def stores_ok_def goto_def split: if_splits)
  with rpc_error show ?case
    by (intro exI [of _ "Inl err"]) (simp add: GetAllRates_def call_at_def goto_def)
qed (auto simp: GetAllRates_def call_at_def goto_def hit_def split: if_splits)

lemma other_steps_keep_client:
  "proto_step s s' \<Longrightarrow> (\<forall>i r. p_pc s' i = Returned r \<longrightarrow> p_pc s i = Returned r) \<Longrightarrow>
    p_client s' = p_client s"
  by (induction rule: proto_step.induct) (auto simp: goto_def store_rates_def)

end
