(* ===== verification/Client_Properties.thy ===== *)
theory Client_Properties
  imports Exchanger_Concurrency Wallet_Demo
begin

text \<open>
  What the wallet's two clients promise: the exchanger client (consistency with the exchanger's table,
  one fetch per cache lifetime, linearizability and progress under any interleaving of callers) and the
  publisher of large transactions (threshold, retries, backoff).
\<close>

section \<open>The exchanger client\<close>



text \<open>
  C40: A rate that is zero or negative is refused only when it comes from the single-pair call: found in
  the map of all rates it is used, so an exchange at a cached rate of zero debits the source, credits
  nothing and answers 200.
\<close>

theorem zero_rate_exchange_destroys:
  assumes ok: "db_ok (ws_db s)" and nf: "faults (ws_db s) = []"
    and acc: "req_method r = ''POST''" "UserIDFromContext r = Some uid"
      "exchange_request r = Some q" "exchange_accepts q" "er_amount q = Fin x"
    and w: "wallet_of (ws_db s) uid = Some w" "balance_of (ws_db s) w (er_to q) = Some b"
    and px: "enc (hd_codec h) (Fin 0) = Num 0" "ledger_debit (balance_of (ws_db s)) w (er_from q) (enc (hd_codec h) (Fin x)) = Inr (l, a)"
    and rt: "ws_client s = Some c" "cache_valid c (t_rlock (we_exch e))"
      "cacheRates c (pair_key (er_from q) (er_to q)) = Some (Fin 0)"
  shows "let (resp, s') = HandleExchange h e r s in status resp = 200 \<and> balance_of (ws_db s') = l"
proof -
  have rate: "GetRateWithSource (we_exch e) (er_from q) (er_to q) c = (Inr (Fin 0, ''cache''), c)"
    by (simp add: GetRateWithSource_def GetAllRates_def rt)
  have zero: "exchanged_amount (Fin x) (Fin 0) = Fin 0"
    by (simp add: exchanged_amount_def num_eval)
  have ne: "er_to q \<noteq> er_from q" using acc(4) by (auto simp: exchange_accepts_def)
  have "l w (er_to q) = Some b"
    using px(2) w(2) ne by (auto simp: ledger_debit_def ledger_set_def split: option.splits sum.splits if_splits)
  moreover have "cast_18_2 b = Inr b" using balance_18_2 [OF ok w(2)] by (rule cast_id)
  moreover have "num_add b (Num 0) = b" by (cases b) simp_all
  ultimately have "ledger_exchange (balance_of (ws_db s)) w (er_from q) (er_to q)
      (enc (hd_codec h) (Fin x)) (enc (hd_codec h) (Fin 0)) = Inr l"
    using px by (simp add: ledger_exchange_def ledger_credit_def ledger_set_same)
  then show ?thesis
    using Exchange_result [OF ok nf, of w "er_to q" "hd_codec h" "er_from q" "Fin x" "Fin 0"] w(2)
    by (auto simp: HandleExchange_accepted [OF acc(1-4)] on_db_eq on_client_eq GetWalletIDByUserID_ok nf w(1) rt(1)
        rate zero acc(5) split: sum.splits)
qed

theorem zero_rate_exchange_destroys_witness:
  "let s = demo_state\<lparr>ws_client := Some (demo_client\<lparr>cacheRates := [''USD_RUB'' \<mapsto> Fin 0]\<rparr>)\<rparr>;
       (resp, s') = HandleExchange demo_handler demo_env (demo_exchange 10) s
   in status resp = 200 \<and> balance_of (ws_db s') 1 ''USD'' = Some (Num 90) \<and>
     balance_of (ws_db s') 1 ''RUB'' = Some (Num 0)"
proof -
  have "ledger_debit (balance_of demo_db) 1 ''USD'' (Num 10) =
      Inr (ledger_set (balance_of demo_db) 1 ''USD'' (Num 90), Num 90)"
    by (simp add: ledger_debit_def num_eval)
  then show ?thesis
    using zero_rate_exchange_destroys [where s = "demo_state\<lparr>ws_client := Some (demo_client\<lparr>cacheRates := [''USD_RUB'' \<mapsto> Fin 0]\<rparr>)\<rparr>"
        and r = "demo_exchange 10" and uid = 1 and w = 1 and c = "demo_client\<lparr>cacheRates := [''USD_RUB'' \<mapsto> Fin 0]\<rparr>"
        and e = demo_env and h = demo_handler and x = 10 and b = "Num 0" and a = "Num 90"
        and l = "ledger_set (balance_of demo_db) 1 ''USD'' (Num 90)" and q = "\<lparr>er_from = ''USD'', er_to = ''RUB'', er_amount = Fin 10\<rparr>"]
    by (simp add: demo_db_ok demo_exchange_request demo_round exchange_accepts_def allowedCurrencies_def
        pair_key_def cache_valid_def demo_client_def demo_exch_def ns_per_s_def ledger_set_def Let_def split: prod.splits)
qed

section \<open>Many callers of the client\<close>

text \<open>
  C25: However many requests use the client at once and however their steps interleave, successful
  fetches are at least a cache lifetime apart: the second look under the write lock prevents stampedes.
\<close>

theorem one_fetch_per_cache_lifetime:
  assumes "reaches (proto_init c t) s"
  shows "spaced (cacheTTL c) (p_stores s)"
  using proto_inv_reaches [OF assms proto_inv_init] ttl_reaches [OF assms]
  by (simp add: proto_inv_def stores_ok_def proto_init_def)

definition demo_run :: proto where
  "demo_run = goto 0 (Returned (Inr (Map.empty, ''grpc''))) ((store_rates Map.empty (goto 0 Fetching
     (goto 0 HoldsWrite ((goto 0 BetweenLocks ((goto 0 HoldsRead
       ((proto_init (demo_client\<lparr>cacheAt := None\<rparr>) 5)\<lparr>p_readers := {0}\<rparr>))\<lparr>p_readers := {}\<rparr>))\<lparr>p_writer := Some 0\<rparr>))))
     \<lparr>p_writer := None\<rparr>)"

lemma demo_run_reached: "reaches (proto_init (demo_client\<lparr>cacheAt := None\<rparr>) 5) demo_run"
proof -
  let ?s0 = "proto_init (demo_client\<lparr>cacheAt := None\<rparr>) 5"
  let ?s1 = "goto 0 HoldsRead (?s0\<lparr>p_readers := {0}\<rparr>)"
  let ?s2 = "goto 0 BetweenLocks (?s1\<lparr>p_readers := {}\<rparr>)"
  let ?s3 = "goto 0 HoldsWrite (?s2\<lparr>p_writer := Some 0\<rparr>)"
  let ?s4 = "goto 0 Fetching ?s3"
  have "proto_step ?s0 ?s1" using rlock [of ?s0 0] by (simp add: proto_init_def)
  moreover have "proto_step ?s1 ?s2"
    using read_miss [of ?s1 0] by (simp add: goto_def proto_init_def cache_valid_def)
  moreover have "proto_step ?s2 ?s3" using lock [of ?s2 0] by (simp add: goto_def proto_init_def)
  moreover have "proto_step ?s3 ?s4"
    using call [of ?s3 0] by (simp add: goto_def proto_init_def cache_valid_def demo_client_def)
  moreover have "proto_step ?s4 demo_run" using rpc_ok [of ?s4 0 Map.empty] by (simp add: goto_def demo_run_def)
  ultimately show ?thesis unfolding reaches_def by (meson converse_rtranclp_into_rtranclp rtranclp.rtrancl_refl)
qed

theorem one_fetch_per_cache_lifetime_witness: "spaced (60 * ns_per_s) (p_stores demo_run)"
  using one_fetch_per_cache_lifetime [OF demo_run_reached] by (simp add: demo_client_def)

text \<open>
  C5: The locked client is linearizable: whenever a caller returns, its answer and the new shared client
  are those of one sequential \<open>GetAllRates\<close> at that moment, and no other step changes the client.
\<close>

theorem callers_linearizable:
  assumes "reaches (proto_init c t) s" and "proto_step s s'"
  shows "(\<forall>i r. p_pc s' i = Returned r \<longrightarrow> p_pc s i \<noteq> Returned r \<longrightarrow>
      (\<exists>ans. GetAllRates (call_at (p_now s) ans) (p_client s) = (r, p_client s'))) \<and>
    ((\<forall>i r. p_pc s' i = Returned r \<longrightarrow> p_pc s i = Returned r) \<longrightarrow> p_client s' = p_client s)"
  using return_sequential [OF assms(2)] proto_inv_reaches [OF assms(1) proto_inv_init]
    other_steps_keep_client [OF assms(2)] by blast

theorem callers_linearizable_witness:
  "p_client (goto 1 HoldsRead (demo_run\<lparr>p_readers := {1}\<rparr>)) = p_client demo_run"
proof -
  have "proto_step demo_run (goto 1 HoldsRead (demo_run\<lparr>p_readers := insert 1 (p_readers demo_run)\<rparr>))"
    by (rule rlock) (simp_all add: demo_run_def goto_def proto_init_def store_rates_def)
  then show ?thesis
    using callers_linearizable [OF demo_run_reached]
    by (auto simp: demo_run_def goto_def proto_init_def store_rates_def split: if_splits)
qed



section \<open>The publisher\<close>

text \<open>
  A transaction at or above the threshold is written until the first success, after a wait before
  every attempt but the first, and not again after it: exactly the failed attempts and the successful one
  are made, all with the same event.
\<close>

lemma publish_stops_at_first_success:
  assumes "\<not> f_lt (Fin x) (pub_threshold q)" and "i < nat (pub_retries q)" and "write_ok e i"
    and "\<forall>j < i. \<not> write_ok e j" and "\<forall>j \<le> i. \<not> ctx_done e j"
  shows "Publish e (Some q) uid typ cur (Fin x) =
    (concat (map (\<lambda>j. attempt_acts (pub_backoffMs q) (make_event e uid typ cur (Fin x)) j False) [0..<i]) @
       attempt_acts (pub_backoffMs q) (make_event e uid typ cur (Fin x)) i True, Published (i + 1))"
  using publish_loop_success [of 0 i "nat (pub_retries q)" e "pub_backoffMs q" "make_event e uid typ cur (Fin x)"] assms
  by (simp add: Publish_def marshal_ok_def make_event_def Let_def)

definition demo_publisher :: publisher where
  "demo_publisher = \<lparr>pub_brokers = [''b''], pub_topic = ''t'', pub_threshold = Fin 100, pub_retries = 3,
     pub_backoffMs = 200, pub_timeout = 2000 * ns_per_ms\<rparr>"

text \<open>
  When every attempt fails the publisher gives up after exactly \<open>retries\<close> writes, having waited
  \<open>backoff * 2^(attempt - 1)\<close> before each attempt but the first (the comment in the code says
  \<open>backoff * 2^attempt\<close>), as long as these durations fit 64 bits.
\<close>

lemma publish_gives_up_after_retries:
  assumes "\<not> f_lt (Fin x) (pub_threshold q)" and "\<forall>j < nat (pub_retries q). \<not> write_ok e j \<and> \<not> ctx_done e j"
    and "0 \<le> pub_backoffMs q" and "pub_backoffMs q * ns_per_ms * 2 ^ nat (pub_retries q) < 2 ^ 63"
  shows "let (acts, res) = Publish e (Some q) uid typ cur (Fin x) in
    res = Failed \<and> length (writes acts) = nat (pub_retries q) \<and>
    waits_of acts = map (\<lambda>j. pub_backoffMs q * ns_per_ms * 2 ^ (j - 1)) [1..<nat (pub_retries q)]"
proof -
  let ?n = "nat (pub_retries q)" and ?b = "pub_backoffMs q"
  let ?ev = "make_event e uid typ cur (Fin x)"
  have run: "Publish e (Some q) uid typ cur (Fin x) = (concat (map (\<lambda>j. attempt_acts ?b ?ev j False) [0..<?n]), Failed)"
    using publish_loop_failure [where k = 0 and n = ?n and e = e and b = ?b and ev = ?ev] assms(1,2)
    by (simp add: Publish_def marshal_ok_def make_event_def Let_def)
  have "length (writes (concat (map (\<lambda>j. attempt_acts ?b ?ev j False) [0..<n]))) = n" for n
    by (induction n) (auto simp: attempt_acts_def)
  moreover have "backoff_ns ?b j = ?b * ns_per_ms * 2 ^ (j - 1)" if "j < ?n" for j
  proof (rule backoff_ns_exact [OF assms(3)])
    have "?b * ns_per_ms * 2 ^ (j - 1) \<le> ?b * ns_per_ms * 2 ^ ?n"
      using that assms(3) by (intro mult_left_mono power_increasing) (auto simp: ns_per_ms_def)
    then show "?b * ns_per_ms * 2 ^ (j - 1) < 2 ^ 63" using assms(4) by linarith
  qed
  ultimately show ?thesis by (simp add: run waits_attempts)
qed

text \<open>
  A configured publisher sends for an amount exactly when the amount is not below the threshold;
  a missing configuration gives no publisher, and retries and backoff are always positive.
\<close>

lemma publishes_iff_large:
  assumes "NewPublisher brokers topic threshold retries backoff timeout = Some q"
  shows "writes (fst (Publish e (Some q) uid typ cur (Fin x))) \<noteq> [] \<longleftrightarrow> \<not> f_lt (Fin x) threshold"
proof -
  have "pub_threshold q = threshold"
    using assms by (auto simp: NewPublisher_def Let_def split: if_splits)
  moreover have "0 < pub_retries q" using NewPublisher_pos [OF assms] by simp
  ultimately show ?thesis using Publish_sends_iff [of "Some q" q e uid "typ" cur x] by simp
qed

end
