(* ===== verification/Notification_Properties.thy ===== *)
theory Notification_Properties
  imports Notification
begin

text \<open>
  What the notification service promises of the wallet's events: they arrive as published, each is
  stored once however often it is delivered, and an offset moves only past a stored event; and where
  it loses one: an event whose five attempts failed is passed over by the next event that succeeds.
\<close>

text \<open>
  What the wallet publishes the notification service reads back field by field, for any literal of
  the amount that reads back as the amount.
\<close>

lemma wallet_event_roundtrip:
  assumes "ev_amount ev = Fin x" and "round64 lit = Fin x" and "in_int64 (ev_user_id ev)"
  shows "unmarshal_event (Some (marshal_event lit ev)) = Some ev"
  using assms
  by (simp add: unmarshal_event_def decode_body_def marshal_event_def event_fields_def find_field_def event_zero_def)

definition demo_event :: "string \<Rightarrow> large_tx_event" where
  "demo_event i = \<lparr>transaction_id = i, ev_user_id = 1, ev_type = ''deposit'', ev_amount = Fin 40000,
     ev_currency = ''RUB'', ev_created_at = ''2024-01-01T00:00:00Z''\<rparr>"

section \<open>Idempotence\<close>

lemma runWithReader_ok: "store_ok (fst s) \<Longrightarrow> store_ok (fst (runWithReader fs s))"
proof (induction fs s rule: runWithReader.induct)
  case (5 off v e fs s)
  then show ?case
    using save_loop_ok by (cases s) (auto simp: saveWithRetry_def split: option.splits prod.splits bool.splits,
      (metis snd_conv)+)
qed simp_all

lemma store_ok_set_offset [simp]:
  "store_ok (snd (SetConsumerOffset out t p i st)) = store_ok st"
  by (simp add: store_ok_def ids_def)

lemma runWithReaderAndSaveOffset_ok:
  "store_ok st \<Longrightarrow> store_ok (runWithReaderAndSaveOffset t p fs st)"
proof (induction t p fs st rule: runWithReaderAndSaveOffset.induct)
  case (5 t p off v e fs st)
  then show ?case
    using save_loop_ok by (auto simp: saveWithRetrySimple_def split: option.splits prod.splits bool.splits,
      (metis snd_conv)+)
qed simp_all

lemma runGroupConsumer_ok: "store_ok (fst s) \<Longrightarrow> store_ok (fst (runGroupConsumer cs s))"
  by (induction cs s rule: runGroupConsumer.induct) (simp_all add: runWithReader_ok)

lemma runSimpleConsumer_ok: "store_ok st \<Longrightarrow> store_ok (runSimpleConsumer topic cs st)"
  by (induction topic cs st rule: runSimpleConsumer.induct) (simp_all add: runWithReaderAndSaveOffset_ok)

text \<open>
  In either mode, whatever is delivered, redelivered, malformed or fails, over any number of
  reconnects, the collection never holds two documents with one transaction id.
\<close>

lemma documents_unique:
  assumes "distinct (map transaction_id (docs st))"
  shows "distinct (map transaction_id (docs (runSimpleConsumer topic conns st))) \<and>
    distinct (map transaction_id (docs (fst (runGroupConsumer gconns (st, committed)))))"
  using runSimpleConsumer_ok [of st topic conns] runGroupConsumer_ok [of "(st, committed)" gconns] assms
  by (simp add: store_ok_def ids_def)

definition demo_save :: save_env where
  "demo_save = \<lparr>insert_out = (\<lambda>_. Acked), cancelled = (\<lambda>_. False), wait_cancelled = (\<lambda>_. False),
     commit_ok = True, offset_out = Acked\<rparr>"

definition demo_store :: mongo_store where
  "demo_store = \<lparr>docs = [demo_event ''a''], offsets = Map.empty\<rparr>"

section \<open>Retries and offsets\<close>

text \<open>
  When nothing is cancelled and every insert either is acknowledged or never reaches the server, an
  event is saved exactly when one of its five attempts is acknowledged, and else nothing has changed.
\<close>

lemma saved_iff_an_attempt_succeeds:
  assumes "\<forall>i < 5. insert_out e i \<in> {Acked, FailedBefore} \<and> \<not> cancelled e i \<and> \<not> wait_cancelled e i"
  shows "(fst (saveWithRetrySimple e ev st) \<longleftrightarrow> (\<exists>j < 5. insert_out e j = Acked)) \<and>
    ((\<forall>j < 5. insert_out e j = FailedBefore) \<longrightarrow> snd (saveWithRetrySimple e ev st) = st)"
proof (cases "\<exists>j < 5. insert_out e j = Acked")
  case True
  then obtain j where "j < 5" "insert_out e j = Acked" by auto
  then have "fst (save_loop e ev 0 5 st)" using assms by (intro save_loop_succeeds [of 0 j]) auto
  then show ?thesis using True by (auto simp: saveWithRetrySimple_def retryAttempts_def)
next
  case False
  then have "save_loop e ev 0 5 st = (False, st)" using assms by (intro save_loop_fails) auto
  then show ?thesis using False by (simp add: saveWithRetrySimple_def retryAttempts_def)
qed



section \<open>Delivery\<close>

text \<open>Fetches that deliver well-formed events, each of which gets through.\<close>

definition delivers :: "(fetched \<times> save_env) list \<Rightarrow> large_tx_event list \<Rightarrow> bool" where
  "delivers fs evs \<longleftrightarrow> list_all2 (\<lambda>(f, e) ev. (\<exists>off v. f = Got off v \<and> unmarshal_event v = Some ev) \<and>
     (\<exists>j < 5. insert_out e j = Acked) \<and> (\<forall>i < 5. \<not> cancelled e i \<and> \<not> wait_cancelled e i)) fs evs"

lemma delivered_ids:
  "delivers fs evs \<Longrightarrow> set (ids (fst (runWithReader fs s))) = transaction_id ` set evs \<union> set (ids (fst s))"
proof (induction evs arbitrary: fs s)
  case Nil
  then show ?case by (simp add: delivers_def)
next
  case (Cons ev evs)
  then obtain off v e fs' j where fs: "fs = (Got off v, e) # fs'" and v: "unmarshal_event v = Some ev"
    and j: "j < 5" "insert_out e j = Acked" "\<forall>i < 5. \<not> cancelled e i \<and> \<not> wait_cancelled e i"
    and rest: "delivers fs' evs"
    by (auto simp: delivers_def list_all2_Cons2)
  obtain st c where s: "s = (st, c)" by fastforce
  obtain ok st' where run: "save_loop e ev 0 5 st = (ok, st')" by fastforce
  have "ok" using save_loop_succeeds [of 0 j 5 e ev st] j run by auto
  then have "transaction_id ev \<in> set (ids st')" using save_loop_saved [of e ev 0 5 st] run by simp
  then have "set (ids st') = insert (transaction_id ev) (set (ids st))"
    using save_loop_keeps [of st e ev 0 5] save_loop_adds [of e ev 0 5 st] run by auto
  then show ?case
    using Cons.IH [OF rest] \<open>ok\<close> by (simp add: fs v s saveWithRetry_def retryAttempts_def run)
qed



text \<open>
  C32: An event whose five attempts fail is lost when the next one succeeds: the saved offset passes it, so
  the consumer resumes behind it, and it is not in the collection.
\<close>

theorem failed_event_is_skipped:
  assumes "unmarshal_event v1 = Some ev1" and "unmarshal_event v2 = Some ev2"
    and "transaction_id ev1 \<notin> set (map transaction_id (docs st))" and "transaction_id ev1 \<noteq> transaction_id ev2"
    and "\<forall>i < 5. insert_out e1 i = FailedBefore"
    and "insert_out e2 0 = Acked" and "\<not> cancelled e2 0" and "offset_out e2 = Acked" and "0 \<le> off"
  shows "let st' = runWithReaderAndSaveOffset topic 0 [(Got off v1, e1), (Got (off + 1) v2, e2)] st in
    start_offset True topic st' = off + 2 \<and> transaction_id ev1 \<notin> set (map transaction_id (docs st'))"
proof -
  have "save_loop e1 ev1 0 5 st = (False, st)" using assms(5) by (intro save_loop_fails) auto
  moreover obtain ok st2 where run: "save_loop e2 ev2 0 5 st = (ok, st2)" by fastforce
  moreover have "ok" using save_loop_succeeds [of 0 0 5 e2 ev2 st] assms(6,7) run
    by (auto simp: numeral_eq_Suc InsertLargeTransaction_def insert_doc_def split: if_splits)
  moreover have "transaction_id ev1 \<notin> set (ids st2)"
    using save_loop_adds [of e2 ev2 0 5 st] run assms(3,4) by (auto simp: ids_def)
  ultimately show ?thesis
    using assms(1,2,8,9) by (simp add: saveWithRetrySimple_def retryAttempts_def SetConsumerOffset_def start_offset_def
        GetConsumerOffset_def ids_def Let_def)
qed

theorem failed_event_is_skipped_witness:
  "let st' = runWithReaderAndSaveOffset ''t'' 0
      [(Got 7 (Some (marshal_event 40000 (demo_event ''b''))), demo_save\<lparr>insert_out := (\<lambda>_. FailedBefore)\<rparr>),
       (Got 8 (Some (marshal_event 40000 (demo_event ''c''))), demo_save)] demo_store
   in start_offset True ''t'' st' = 9 \<and> ''b'' \<notin> set (map transaction_id (docs st'))"
proof -
  have un: "unmarshal_event (Some (marshal_event 40000 (demo_event i))) = Some (demo_event i)" for i
    by (simp add: unmarshal_event_def decode_body_def marshal_event_def event_fields_def find_field_def
        event_zero_def demo_event_def float_eval in_int64_def)
  show ?thesis
    using failed_event_is_skipped [OF un un, of "''b''" demo_store "''c''" "demo_save\<lparr>insert_out := (\<lambda>_. FailedBefore)\<rparr>"
        demo_save 7 "''t''"]
    by (simp add: demo_store_def demo_save_def demo_event_def Let_def)
qed

end
