(* ===== verification/Money_Pipeline.thy ===== *)
theory Money_Pipeline
  imports Wallet_Properties Client_Properties Notification_Properties
begin

text \<open>
  The wallet, Kafka and the notification service together: the way of a large deposit from the request into
  the collection of large transactions.
\<close>

lemma first_write:
  assumes "\<not> f_lt (Fin x) (pub_threshold q)" and "0 < pub_retries q" and "write_ok e 0"
  shows "fst (Publish e (Some q) uid typ cur (Fin x)) = [Write (make_event e uid typ cur (Fin x)) True]"
proof -
  obtain n where n: "nat (pub_retries q) = Suc n" using assms(2) by (cases "nat (pub_retries q)") auto
  show ?thesis using assms(1,3) by (simp add: Publish_def marshal_ok_def make_event_def n Let_def publish_loop_Suc attempt_acts_def)
qed

lemma stored_new:
  assumes "unmarshal_event v = Some ev" and "transaction_id ev \<notin> set (map transaction_id (docs st))"
    and "insert_out e 0 = Acked" and "\<not> cancelled e 0"
  shows "docs (fst (runWithReader [(Got off v, e)] (st, c))) = docs st @ [ev]"
proof -
  have "\<not> list_ex (\<lambda>d. transaction_id d = transaction_id ev) (docs st)" using assms(2) by (auto simp: list_ex_iff) (metis imageI)
  then show ?thesis
    using assms(1,3,4) by (simp add: saveWithRetry_def retryAttempts_def numeral_eq_Suc InsertLargeTransaction_def insert_doc_def)
qed



end
