(* ===== verification/Wallet_Concurrency.thy ===== *)
theory Wallet_Concurrency
  imports Wallet_Demo
begin

text \<open>
  Concurrent requests on the balances: any number of exchanges, deposits and withdrawals whose statements
  interleave, under PostgreSQL's rules for \<^verbatim>\<open>READ COMMITTED\<close>. An \<^verbatim>\<open>UPDATE\<close> that matches a row takes the
  row's lock, held until the transaction ends, and sees the last committed amount; while another
  transaction holds it the statement waits. A deposit or withdrawal is one statement and commits at once.
  Anything that stops a transaction (no funds, an overflow, a deadlock victim, a lost connection) is an
  abort: its writes vanish and its locks are released. A commit whose answer is lost takes effect although
  the caller gets an error. The currencies of an exchange differ (\<^verbatim>\<open>HandleExchange\<close> refuses equal ones): the
  step \<open>credit\<close> waits for its row's lock also where it is the transaction's own.
\<close>

section \<open>Operations and steps\<close>

datatype money_op =
    MoveOp int string string float64 float64
  | PutOp int string float64
  | TakeOp int string float64

text \<open>The operation run alone: the repository's method.\<close>

fun run_op :: "codec \<Rightarrow> money_op \<Rightarrow> db \<Rightarrow> db" where
  "run_op px (MoveOp w cf ct x y) d = snd (Exchange px w cf ct x y d)"
| "run_op px (PutOp w c x) d = snd (Deposit px w c x d)"
| "run_op px (TakeOp w c x) d = snd (Withdraw px w c x d)"

text \<open>Where a transaction is; \<open>Debited\<close> and \<open>Credited\<close> hold the amounts it has written and not committed.\<close>

datatype tx_pc = Waiting | InTx | Debited numeric | Credited numeric "numeric option" | Over bool

record cdb =
  x_rows :: ledger
  x_locks :: "int \<times> string \<Rightarrow> nat option"
  x_pc :: "nat \<Rightarrow> tx_pc"
  x_log :: "nat list"

definition move_to :: "nat \<Rightarrow> tx_pc \<Rightarrow> cdb \<Rightarrow> cdb" where
  "move_to i k s = s\<lparr>x_pc := (x_pc s)(i := k)\<rparr>"

definition lock_row :: "nat \<Rightarrow> int \<times> string \<Rightarrow> cdb \<Rightarrow> cdb" where
  "lock_row i k s = s\<lparr>x_locks := (x_locks s)(k := Some i)\<rparr>"

definition release :: "nat \<Rightarrow> cdb \<Rightarrow> cdb" where
  "release i s = s\<lparr>x_locks := (\<lambda>k. if x_locks s k = Some i then None else x_locks s k)\<rparr>"

definition committed :: "nat \<Rightarrow> ledger \<Rightarrow> cdb \<Rightarrow> cdb" where
  "committed i l s = s\<lparr>x_rows := l, x_log := x_log s @ [i]\<rparr>"

definition written :: "ledger \<Rightarrow> int \<Rightarrow> string \<Rightarrow> string \<Rightarrow> numeric \<Rightarrow> numeric option \<Rightarrow> ledger" where
  "written l w cf ct a ob = (case ob of None \<Rightarrow> ledger_set l w cf a
     | Some b \<Rightarrow> ledger_set (ledger_set l w cf a) w ct b)"

inductive money_step :: "codec \<Rightarrow> (nat \<Rightarrow> money_op) \<Rightarrow> cdb \<Rightarrow> cdb \<Rightarrow> bool" for px prog where
  begin_tx: "x_pc s i = Waiting \<Longrightarrow> prog i = MoveOp w cf ct x y \<Longrightarrow> money_step px prog s (move_to i InTx s)"
| debit: "x_pc s i = InTx \<Longrightarrow> prog i = MoveOp w cf ct x y \<Longrightarrow> x_locks s (w, cf) = None \<Longrightarrow>
    ledger_debit (x_rows s) w cf (enc px x) = Inr (l, a) \<Longrightarrow>
    money_step px prog s (move_to i (Debited a) (lock_row i (w, cf) s))"
| credit: "x_pc s i = Debited a \<Longrightarrow> prog i = MoveOp w cf ct x y \<Longrightarrow> x_locks s (w, ct) = None \<Longrightarrow>
    ledger_credit (x_rows s) w ct (enc px y) = Inr (l, b) \<Longrightarrow>
    money_step px prog s (move_to i (Credited a (Some b)) (lock_row i (w, ct) s))"
| credit_no_row: "x_pc s i = Debited a \<Longrightarrow> prog i = MoveOp w cf ct x y \<Longrightarrow> x_rows s w ct = None \<Longrightarrow>
    money_step px prog s (move_to i (Credited a None) s)"
| commit: "x_pc s i = Credited a ob \<Longrightarrow> prog i = MoveOp w cf ct x y \<Longrightarrow>
    money_step px prog s (move_to i (Over ok) (release i (committed i (written (x_rows s) w cf ct a ob) s)))"
| put: "x_pc s i = Waiting \<Longrightarrow> prog i = PutOp w c x \<Longrightarrow> x_locks s (w, c) = None \<Longrightarrow>
    ledger_credit (x_rows s) w c (enc px x) = Inr (l, a) \<Longrightarrow> money_step px prog s (move_to i (Over ok) (committed i l s))"
| take: "x_pc s i = Waiting \<Longrightarrow> prog i = TakeOp w c x \<Longrightarrow> x_locks s (w, c) = None \<Longrightarrow>
    ledger_debit (x_rows s) w c (enc px x) = Inr (l, a) \<Longrightarrow> money_step px prog s (move_to i (Over ok) (committed i l s))"
| abort: "(\<And>ok. x_pc s i \<noteq> Over ok) \<Longrightarrow> money_step px prog s (move_to i (Over False) (release i s))"

definition cdb_init :: "db \<Rightarrow> cdb" where
  "cdb_init d = \<lparr>x_rows = balance_of d, x_locks = (\<lambda>_. None), x_pc = (\<lambda>_. Waiting), x_log = []\<rparr>"

section \<open>The operations run alone\<close>

lemma debit_amount:
  "ledger_debit l w c x = Inr (l', a) \<longleftrightarrow>
    (\<exists>b. l w c = Some b \<and> num_le x b \<and> cast_18_2 (num_sub b x) = Inr a) \<and> l' = ledger_set l w c a"
  by (auto simp: ledger_debit_def split: option.splits sum.splits)

lemma credit_amount:
  "ledger_credit l w c x = Inr (l', a) \<longleftrightarrow>
    (\<exists>b. l w c = Some b \<and> cast_18_2 (num_add b x) = Inr a) \<and> l' = ledger_set l w c a"
  by (auto simp: ledger_credit_def split: option.splits sum.splits)

lemma ledger_set_at: "ledger_set l w c a w' c' = (if (w', c') = (w, c) then Some a else l w' c')"
  by (simp add: ledger_set_def)

lemma faults_GetBalances: "faults d = [] \<Longrightarrow> snd (GetBalances px w d) = d"
  by (simp add: GetBalances_def select_balances_def)

lemma run_op_ok:
  assumes "db_ok d" and "faults d = []"
  shows "db_ok (run_op px op d)" "faults (run_op px op d) = []"
proof -
  show "db_ok (run_op px op d)"
    using schema.Exchange_keeps [OF assms(1)] schema.Deposit_keeps [OF assms(1)] schema.Withdraw_keeps [OF assms(1)]
    by (cases op) simp_all
  show "faults (run_op px op d) = []"
  proof (cases op)
    case (MoveOp w cf ct x y)
    show ?thesis
    proof (cases "balance_of d w ct")
      case None
      show ?thesis
      proof (cases "ledger_debit (balance_of d) w cf (enc px x)")
        case (Inl e)
        then show ?thesis
          by (auto simp: MoveOp Exchange_def tx_begin_def assms(2) debit_stmt_ledger [OF assms(1)] rollback_self
              split: ledger_error.splits)
      next
        case (Inr p)
        then obtain l a where "ledger_debit (balance_of d) w cf (enc px x) = Inr (l, a)" by (cases p) auto
        from Exchange_without_row [OF assms None this] show ?thesis using assms(2) by (simp add: MoveOp faults_GetBalances)
      qed
    next
      case (Some b)
      then show ?thesis
        using Exchange_refines [OF assms, of w ct px cf x y] assms(2)
        by (auto simp: MoveOp faults_GetBalances split: sum.splits ledger_error.splits)
    qed
  next
    case (PutOp w c x)
    then show ?thesis
      using Deposit_refines [OF assms, of px w c x] assms(2) by (auto split: sum.splits ledger_error.splits)
  next
    case (TakeOp w c x)
    then show ?thesis
      using Withdraw_refines [OF assms, of px w c x] assms(2) by (auto split: sum.splits ledger_error.splits)
  qed
qed

lemma run_move:
  assumes "db_ok d" and "faults d = []" and "cf \<noteq> ct"
    and deb: "ledger_debit (balance_of d) w cf (enc px x) = Inr (l, a)"
    and cr: "case ob of None \<Rightarrow> balance_of d w ct = None | Some b \<Rightarrow> \<exists>l'. ledger_credit (balance_of d) w ct (enc px y) = Inr (l', b)"
  shows "balance_of (run_op px (MoveOp w cf ct x y) d) = written (balance_of d) w cf ct a ob"
proof (cases ob)
  case None
  then have "balance_of d w ct = None" using cr by simp
  from Exchange_without_row [OF assms(1,2) this deb, of y] show ?thesis
    using debit_balance_of [OF deb] deb None by (simp add: written_def debit_amount)
next
  case (Some b)
  then obtain l' where cr': "ledger_credit (balance_of d) w ct (enc px y) = Inr (l', b)" using cr by auto
  have l: "l = ledger_set (balance_of d) w cf a" using deb by (simp add: debit_amount)
  have "ledger_credit l w ct (enc px y) = Inr (ledger_set l w ct b, b)"
    using cr' assms(3) by (auto simp: credit_amount l ledger_set_at)
  then have "ledger_exchange (balance_of d) w cf ct (enc px x) (enc px y) = Inr (ledger_set l w ct b)"
    by (simp add: ledger_exchange_def deb)
  moreover have "balance_of d w ct \<noteq> None" using cr' by (auto simp: credit_amount)
  ultimately show ?thesis
    using Exchange_result [OF assms(1,2), of w ct px cf x y] by (simp add: written_def Some l)
qed

lemma run_put:
  assumes "db_ok d" and "faults d = []" and "ledger_credit (balance_of d) w c (enc px x) = Inr (l, a)"
  shows "balance_of (run_op px (PutOp w c x) d) = l"
  using Deposit_refines [OF assms(1,2), of px w c x] credit_balance_of [OF assms(3)] assms(3) by simp

lemma run_take:
  assumes "db_ok d" and "faults d = []" and "ledger_debit (balance_of d) w c (enc px x) = Inr (l, a)"
  shows "balance_of (run_op px (TakeOp w c x) d) = l"
  using Withdraw_refines [OF assms(1,2), of px w c x] debit_balance_of [OF assms(3)] assms(3) by simp

section \<open>The invariant\<close>

text \<open>What a transaction has written is what the operation gives on the committed rows, which its locks hold still.\<close>

definition holds :: "codec \<Rightarrow> (nat \<Rightarrow> money_op) \<Rightarrow> cdb \<Rightarrow> nat \<Rightarrow> bool" where
  "holds px prog s i \<longleftrightarrow> (case x_pc s i of
      Debited a \<Rightarrow> (\<exists>w cf ct x y l. prog i = MoveOp w cf ct x y \<and> x_locks s (w, cf) = Some i \<and>
        ledger_debit (x_rows s) w cf (enc px x) = Inr (l, a))
    | Credited a ob \<Rightarrow> (\<exists>w cf ct x y l. prog i = MoveOp w cf ct x y \<and> x_locks s (w, cf) = Some i \<and> cf \<noteq> ct \<and>
        ledger_debit (x_rows s) w cf (enc px x) = Inr (l, a) \<and>
        (case ob of None \<Rightarrow> x_rows s w ct = None
         | Some b \<Rightarrow> x_locks s (w, ct) = Some i \<and> (\<exists>l'. ledger_credit (x_rows s) w ct (enc px y) = Inr (l', b))))
    | _ \<Rightarrow> True)"

text \<open>Another transaction's step keeps it, as long as it leaves the locked rows and the set of rows alone.\<close>

lemma holds_frame:
  assumes "holds px prog s i" and "x_pc s' i = x_pc s i"
    and "\<And>k. x_locks s k = Some i \<Longrightarrow> x_locks s' k = Some i"
    and "\<And>w c. x_locks s (w, c) = Some i \<Longrightarrow> x_rows s' w c = x_rows s w c"
    and "\<And>w c. x_rows s w c = None \<Longrightarrow> x_rows s' w c = None"
  shows "holds px prog s' i"
proof (cases "x_pc s i")
  case (Debited a)
  then show ?thesis using assms unfolding holds_def by (fastforce simp: debit_amount)
next
  case (Credited a ob)
  then show ?thesis using assms unfolding holds_def
    by (cases ob) (fastforce simp: debit_amount credit_amount)+
qed (use assms in \<open>simp_all add: holds_def\<close>)

text \<open>Locks belong to transactions that have written and not finished; the log holds finished ones, each once.\<close>

definition busy :: "tx_pc \<Rightarrow> bool" where
  "busy k \<longleftrightarrow> (case k of Debited _ \<Rightarrow> True | Credited _ _ \<Rightarrow> True | _ \<Rightarrow> False)"

definition locks_ok :: "cdb \<Rightarrow> bool" where
  "locks_ok s \<longleftrightarrow> (\<forall>k i. x_locks s k = Some i \<longrightarrow> busy (x_pc s i))"

definition log_ok :: "cdb \<Rightarrow> bool" where
  "log_ok s \<longleftrightarrow> distinct (x_log s) \<and> (\<forall>i \<in> set (x_log s). \<exists>ok. x_pc s i = Over ok) \<and>
    (\<forall>i. x_pc s i = Over True \<longrightarrow> i \<in> set (x_log s))"

text \<open>The committed operations run alone, one after another, in the order of their commits.\<close>

definition serial :: "codec \<Rightarrow> (nat \<Rightarrow> money_op) \<Rightarrow> db \<Rightarrow> nat list \<Rightarrow> db" where
  "serial px prog d is = foldl (\<lambda>d i. run_op px (prog i) d) d is"

definition serial_ok :: "codec \<Rightarrow> (nat \<Rightarrow> money_op) \<Rightarrow> db \<Rightarrow> cdb \<Rightarrow> bool" where
  "serial_ok px prog d s \<longleftrightarrow> x_rows s = balance_of (serial px prog d (x_log s))"

lemma serial_snoc: "serial px prog d (is @ [i]) = run_op px (prog i) (serial px prog d is)"
  by (simp add: serial_def)

lemma serial_keeps:
  assumes "db_ok d" and "faults d = []"
  shows "db_ok (serial px prog d is) \<and> faults (serial px prog d is) = []"
proof (induction "is" rule: rev_induct)
  case Nil
  then show ?case using assms by (simp add: serial_def)
next
  case (snoc i "is")
  then show ?case using run_op_ok by (simp add: serial_snoc)
qed

lemma step_sel [simp]:
  "x_rows (move_to i k s) = x_rows s" "x_locks (move_to i k s) = x_locks s"
  "x_log (move_to i k s) = x_log s" "x_pc (move_to i k s) = (x_pc s)(i := k)"
  "x_rows (lock_row i q s) = x_rows s" "x_locks (lock_row i q s) = (x_locks s)(q := Some i)"
  "x_log (lock_row i q s) = x_log s" "x_pc (lock_row i q s) = x_pc s"
  "x_rows (release i s) = x_rows s" "x_log (release i s) = x_log s" "x_pc (release i s) = x_pc s"
  "x_rows (committed i l s) = l" "x_locks (committed i l s) = x_locks s"
  "x_log (committed i l s) = x_log s @ [i]" "x_pc (committed i l s) = x_pc s"
  by (simp_all add: move_to_def lock_row_def release_def committed_def)

lemma release_locks: "x_locks (release i s) q = (if x_locks s q = Some i then None else x_locks s q)"
  by (simp add: release_def)

lemma money_step_log:
  assumes "money_step px prog s s'" and "log_ok s"
  shows "log_ok s'"
  using assms by (induction rule: money_step.induct) (auto simp: log_ok_def)

lemma money_step_locks:
  assumes "money_step px prog s s'" and "locks_ok s"
  shows "locks_ok s'"
  using assms
  by (induction rule: money_step.induct) (fastforce simp: locks_ok_def busy_def release_locks split: if_splits tx_pc.splits)+

text \<open>The rows a step of transaction \<open>i\<close> writes are its own or unlocked, and rows neither appear nor vanish.\<close>

lemma written_frame:
  assumes "ledger_debit l w cf x = Inr (l', a)"
    and "case ob of None \<Rightarrow> True | Some b \<Rightarrow> l w ct \<noteq> None"
  shows "(v, c) \<noteq> (w, cf) \<Longrightarrow> (v, c) \<noteq> (w, ct) \<or> ob = None \<Longrightarrow> written l w cf ct a ob v c = l v c"
    and "l v c = None \<Longrightarrow> written l w cf ct a ob v c = None"
  using assms by (auto simp: written_def debit_amount ledger_set_at split: option.splits)

lemma debit_frame:
  assumes "ledger_debit l w c x = Inr (l', a)"
  shows "(v, k) \<noteq> (w, c) \<Longrightarrow> l' v k = l v k" and "l v k = None \<Longrightarrow> l' v k = None"
  using assms by (auto simp: debit_amount ledger_set_at)

lemma credit_frame:
  assumes "ledger_credit l w c x = Inr (l', a)"
  shows "(v, k) \<noteq> (w, c) \<Longrightarrow> l' v k = l v k" and "l v k = None \<Longrightarrow> l' v k = None"
  using assms by (auto simp: credit_amount ledger_set_at)

definition step_by :: "nat \<Rightarrow> cdb \<Rightarrow> cdb \<Rightarrow> bool" where
  "step_by i s s' \<longleftrightarrow> (\<forall>j. j \<noteq> i \<longrightarrow> x_pc s' j = x_pc s j) \<and>
    (\<forall>k j. j \<noteq> i \<longrightarrow> x_locks s k = Some j \<longrightarrow> x_locks s' k = Some j) \<and>
    (\<forall>w c j. j \<noteq> i \<longrightarrow> x_locks s (w, c) = Some j \<longrightarrow> x_rows s' w c = x_rows s w c) \<and>
    (\<forall>w c. x_rows s w c = None \<longrightarrow> x_rows s' w c = None)"

lemma step_by_move: "step_by i s (move_to i k s)"
  by (simp add: step_by_def)

lemma step_by_lock: "x_locks s q = None \<Longrightarrow> step_by i s (move_to i k (lock_row i q s))"
  by (simp add: step_by_def)

lemma step_by_abort: "step_by i s (move_to i k (release i s))"
  by (simp add: step_by_def release_locks)

lemma step_by_commit:
  assumes "\<And>w c j. j \<noteq> i \<Longrightarrow> x_locks s (w, c) = Some j \<Longrightarrow> l w c = x_rows s w c"
    and "\<And>w c. x_rows s w c = None \<Longrightarrow> l w c = None"
  shows "step_by i s (move_to i k (release i (committed i l s)))"
    and "step_by i s (move_to i k (committed i l s))"
  using assms by (auto simp: step_by_def release_locks)

lemma committed_frame:
  assumes "holds px prog s i" and "x_pc s i = Credited a ob" and "prog i = MoveOp w cf ct x y"
  shows "step_by i s (move_to i k (release i (committed i (written (x_rows s) w cf ct a ob) s)))"
proof (rule step_by_commit)
  obtain l where deb: "ledger_debit (x_rows s) w cf (enc px x) = Inr (l, a)"
    and lk: "x_locks s (w, cf) = Some i"
    and ob: "case ob of None \<Rightarrow> True | Some b \<Rightarrow> x_rows s w ct \<noteq> None"
    and lk': "ob = None \<or> x_locks s (w, ct) = Some i"
    using assms by (auto simp: holds_def credit_amount split: option.splits)
  show "written (x_rows s) w cf ct a ob v c = x_rows s v c" if "j \<noteq> i" "x_locks s (v, c) = Some j" for v c j
  proof -
    have "(v, c) \<noteq> (w, cf)" and "(v, c) \<noteq> (w, ct) \<or> ob = None" using lk lk' that by auto
    then show ?thesis by (rule written_frame(1) [OF deb ob])
  qed
  show "written (x_rows s) w cf ct a ob v c = None" if "x_rows s v c = None" for v c
    by (rule written_frame(2) [OF deb ob that])
qed

lemma put_frame:
  assumes "x_locks s (w, c) = None" and "ledger_credit (x_rows s) w c x = Inr (l, a)"
  shows "step_by i s (move_to i k (committed i l s))"
proof (rule step_by_commit)
  show "l v q = x_rows s v q" if "x_locks s (v, q) = Some j" for v q j
    using credit_frame(1) [OF assms(2), of v q] assms(1) that by (cases "(v, q) = (w, c)") auto
qed (rule credit_frame(2) [OF assms(2)])

lemma take_frame:
  assumes "x_locks s (w, c) = None" and "ledger_debit (x_rows s) w c x = Inr (l, a)"
  shows "step_by i s (move_to i k (committed i l s))"
proof (rule step_by_commit)
  show "l v q = x_rows s v q" if "x_locks s (v, q) = Some j" for v q j
    using debit_frame(1) [OF assms(2), of v q] assms(1) that by (cases "(v, q) = (w, c)") auto
qed (rule debit_frame(2) [OF assms(2)])

lemma holds_credit:
  assumes "holds px prog s i" and "x_pc s i = Debited a" and "prog i = MoveOp w cf ct x y"
  shows "x_locks s (w, ct) = None \<Longrightarrow> ledger_credit (x_rows s) w ct (enc px y) = Inr (l, b) \<Longrightarrow>
      holds px prog (move_to i (Credited a (Some b)) (lock_row i (w, ct) s)) i"
    and "x_rows s w ct = None \<Longrightarrow> holds px prog (move_to i (Credited a None) s) i"
  using assms by (auto simp: holds_def debit_amount)

lemma money_step_frame:
  assumes "money_step px prog s s'" and "\<forall>i. holds px prog s i"
  shows "\<exists>i. step_by i s s' \<and> holds px prog s' i"
  using assms(1)
proof (cases rule: money_step.cases)
  case (begin_tx i w cf ct x y)
  then show ?thesis using step_by_move by (auto simp: holds_def intro!: exI [of _ i])
next
  case (debit i w cf ct x y l a)
  then show ?thesis using step_by_lock by (auto simp: holds_def intro!: exI [of _ i])
next
  case (credit i a w cf ct x y l b)
  then show ?thesis using step_by_lock holds_credit(1) assms(2) by blast
next
  case (credit_no_row i a w cf ct x y)
  then show ?thesis using step_by_move holds_credit(2) assms(2) by blast
next
  case (commit i a ob w cf ct x y ok)
  with committed_frame assms(2) have "step_by i s s'" by blast
  moreover have "holds px prog s' i" using commit by (simp add: holds_def)
  ultimately show ?thesis by blast
next
  case (put i w c x l a ok)
  then show ?thesis using put_frame [OF put(4,5)] by (auto simp: holds_def intro!: exI [of _ i])
next
  case (take i w c x l a ok)
  then show ?thesis using take_frame [OF take(4,5)] by (auto simp: holds_def intro!: exI [of _ i])
next
  case (abort i)
  then show ?thesis using step_by_abort by (auto simp: holds_def intro!: exI [of _ i])
qed

lemma money_step_holds:
  assumes "money_step px prog s s'" and "\<forall>i. holds px prog s i"
  shows "\<forall>i. holds px prog s' i"
proof
  fix j
  obtain i where i: "step_by i s s'" "holds px prog s' i" using money_step_frame [OF assms] by blast
  show "holds px prog s' j"
  proof (cases "j = i")
    case False
    show ?thesis by (rule holds_frame [of px prog s]) (use assms(2) i(1) False in \<open>auto simp: step_by_def\<close>)
  qed (use i(2) in simp)
qed

lemma money_step_serial:
  assumes "money_step px prog s s'" and "\<forall>i. holds px prog s i" and "serial_ok px prog d s"
    and "db_ok d" and "faults d = []"
  shows "serial_ok px prog d s'"
  using assms(1)
proof (cases rule: money_step.cases)
  case (commit i a ob w cf ct x y ok)
  note d = serial_keeps [OF assms(4,5), of px prog "x_log s"]
  have "holds px prog s i" using assms(2) by simp
  then obtain l where "cf \<noteq> ct" "ledger_debit (x_rows s) w cf (enc px x) = Inr (l, a)"
    and "case ob of None \<Rightarrow> x_rows s w ct = None | Some b \<Rightarrow> \<exists>l'. ledger_credit (x_rows s) w ct (enc px y) = Inr (l', b)"
    using commit by (auto simp: holds_def split: option.splits)
  moreover have "x_rows s = balance_of (serial px prog d (x_log s))" using assms(3) by (simp add: serial_ok_def)
  ultimately have "balance_of (run_op px (MoveOp w cf ct x y) (serial px prog d (x_log s))) = written (x_rows s) w cf ct a ob"
    using run_move [of "serial px prog d (x_log s)" cf ct w px x l a y ob] d by (cases ob) simp_all
  with commit show ?thesis by (simp add: serial_ok_def serial_snoc)
next
  case (put i w c x l a ok)
  with assms(3) show ?thesis
    using run_put [of "serial px prog d (x_log s)" w c px x l a] serial_keeps [OF assms(4,5)]
    by (simp add: serial_ok_def serial_snoc)
next
  case (take i w c x l a ok)
  with assms(3) show ?thesis
    using run_take [of "serial px prog d (x_log s)" w c px x l a] serial_keeps [OF assms(4,5)]
    by (simp add: serial_ok_def serial_snoc)
qed (use assms(3) in \<open>simp_all add: serial_ok_def\<close>)

text \<open>All of it holds in every state the interleaved requests reach.\<close>

definition cdb_ok :: "codec \<Rightarrow> (nat \<Rightarrow> money_op) \<Rightarrow> db \<Rightarrow> cdb \<Rightarrow> bool" where
  "cdb_ok px prog d s \<longleftrightarrow> (\<forall>i. holds px prog s i) \<and> locks_ok s \<and> log_ok s \<and> serial_ok px prog d s"

lemma cdb_ok_init: "cdb_ok px prog d (cdb_init d)"
  by (simp add: cdb_ok_def cdb_init_def holds_def locks_ok_def log_ok_def serial_ok_def serial_def)

lemma cdb_ok_reachable:
  assumes "(money_step px prog)\<^sup>*\<^sup>* (cdb_init d) s" and "db_ok d" and "faults d = []"
  shows "cdb_ok px prog d s"
  using assms(1)
proof (induction rule: rtranclp_induct)
  case base
  show ?case by (rule cdb_ok_init)
next
  case (step s s')
  have "\<forall>i. holds px prog s i" using step.IH by (simp add: cdb_ok_def)
  with step show ?case
    using money_step_holds money_step_locks money_step_log money_step_serial [OF _ _ _ assms(2,3)]
    unfolding cdb_ok_def by blast
qed

section \<open>Properties\<close>

text \<open>
  C4: Interleaved money operations are serialisable: in every reachable state the committed balances are
  those of running the committed operations' repository methods one after another in the order of their
  commits; no operation commits twice, and every operation that reported success is among them.
\<close>

theorem money_operations_serializable:
  assumes "(money_step px prog)\<^sup>*\<^sup>* (cdb_init d) s" and "db_ok d" and "faults d = []"
  shows "x_rows s = balance_of (foldl (\<lambda>d i. run_op px (prog i) d) d (x_log s)) \<and> distinct (x_log s) \<and>
    (\<forall>i. x_pc s i = Over True \<longrightarrow> i \<in> set (x_log s))"
  using cdb_ok_reachable [OF assms] by (simp add: cdb_ok_def serial_ok_def serial_def log_ok_def)

text \<open>An exchange and a deposit of the demo database that overlap.\<close>

definition overlap_prog :: "nat \<Rightarrow> money_op" where
  "overlap_prog i = (if i = 0 then MoveOp 1 ''USD'' ''RUB'' (Fin 10) (Fin 900) else PutOp 1 ''EUR'' (Fin 5))"

lemma demo_rows:
  "balance_of demo_db 1 ''USD'' = Some (Num 100)" "balance_of demo_db 1 ''RUB'' = Some (Num 0)"
  "balance_of demo_db 1 ''EUR'' = Some (Num 5)"
  by (simp_all add: balance_of_def demo_db_def bal_key_def)

lemma overlap_reachable:
  "\<exists>s. (money_step demo_codec overlap_prog)\<^sup>*\<^sup>* (cdb_init demo_db) s \<and> x_log s = [1, 0] \<and>
    x_pc s 0 = Over True \<and> x_rows s 1 ''EUR'' = Some (Num 10) \<and> x_rows s 1 ''USD'' = Some (Num 90) \<and>
    x_rows s 1 ''RUB'' = Some (Num 900)"
proof -
  let ?step = "money_step demo_codec overlap_prog"
  define s1 where "s1 = move_to 0 InTx (cdb_init demo_db)"
  define s2 where "s2 = move_to 0 (Debited (Num 90)) (lock_row 0 (1, ''USD'') s1)"
  define s3 where "s3 = move_to 1 (Over True) (committed 1 (ledger_set (x_rows s2) 1 ''EUR'' (Num 10)) s2)"
  define s4 where "s4 = move_to 0 (Credited (Num 90) (Some (Num 900))) (lock_row 0 (1, ''RUB'') s3)"
  define s5 where "s5 = move_to 0 (Over True)
    (release 0 (committed 0 (written (x_rows s4) 1 ''USD'' ''RUB'' (Num 90) (Some (Num 900))) s4))"
  note defs = s1_def s2_def s3_def s4_def s5_def cdb_init_def
  have "?step (cdb_init demo_db) s1"
    unfolding s1_def by (rule begin_tx) (simp_all add: defs overlap_prog_def)
  moreover have "?step s1 s2"
    unfolding s2_def by (rule debit, (simp add: defs overlap_prog_def demo_rows ledger_debit_def num_eval)+)
  moreover have "?step s2 s3"
    unfolding s3_def by (rule put, (simp add: defs overlap_prog_def demo_rows ledger_credit_def num_eval)+)
  moreover have "?step s3 s4"
    unfolding s4_def
    by (rule credit, (simp add: defs overlap_prog_def demo_rows ledger_credit_def ledger_set_at num_eval)+)
  moreover have "?step s4 s5"
    unfolding s5_def by (rule commit) (simp_all add: defs overlap_prog_def)
  ultimately have "?step\<^sup>*\<^sup>* (cdb_init demo_db) s5" by (meson converse_rtranclp_into_rtranclp rtranclp.rtrancl_refl)
  moreover have "x_log s5 = [1, 0]" "x_pc s5 0 = Over True" "x_rows s5 1 ''EUR'' = Some (Num 10)"
    "x_rows s5 1 ''USD'' = Some (Num 90)" "x_rows s5 1 ''RUB'' = Some (Num 900)"
    by (simp_all add: defs written_def ledger_set_at)
  ultimately show ?thesis by blast
qed

theorem money_operations_serializable_witness:
  "\<exists>s. (money_step demo_codec overlap_prog)\<^sup>*\<^sup>* (cdb_init demo_db) s \<and> x_log s = [1, 0] \<and>
    balance_of (run_op demo_codec (overlap_prog 0) (run_op demo_codec (overlap_prog 1) demo_db)) 1 ''RUB''
      = Some (Num 900)"
proof -
  obtain s where s: "(money_step demo_codec overlap_prog)\<^sup>*\<^sup>* (cdb_init demo_db) s" "x_log s = [1, 0]"
    "x_rows s 1 ''RUB'' = Some (Num 900)" using overlap_reachable by blast
  then have "x_rows s = balance_of (run_op demo_codec (overlap_prog 0) (run_op demo_codec (overlap_prog 1) demo_db))"
    using money_operations_serializable [OF s(1) demo_db_ok] by simp
  with s show ?thesis by auto
qed

text \<open>
  C38: Two opposite exchanges of one wallet can deadlock: each holds the row the other needs, and whatever
  happens next to either of them is the abort of one without effect, although the funds of both suffice.
\<close>

theorem opposite_exchanges_deadlock:
  assumes "prog 0 = MoveOp w c1 c2 x y" and "prog 1 = MoveOp w c2 c1 x' y'" and "c1 \<noteq> c2"
    and "ledger_debit (balance_of d) w c1 (enc px x) = Inr r1"
    and "ledger_debit (balance_of d) w c2 (enc px x') = Inr r2"
  shows "\<exists>s. (money_step px prog)\<^sup>*\<^sup>* (cdb_init d) s \<and> x_rows s = balance_of d \<and>
    (\<forall>s'. money_step px prog s s' \<and> (x_pc s' 0 \<noteq> x_pc s 0 \<or> x_pc s' 1 \<noteq> x_pc s 1) \<longrightarrow>
      x_rows s' = x_rows s \<and> (x_pc s' 0 = Over False \<or> x_pc s' 1 = Over False))"
proof -
  obtain l1 a1 l2 a2 where r: "r1 = (l1, a1)" "r2 = (l2, a2)" by (cases r1, cases r2) auto
  define s1 where "s1 = move_to 0 InTx (cdb_init d)"
  define s2 where "s2 = move_to (Suc 0) InTx s1"
  define s3 where "s3 = move_to 0 (Debited a1) (lock_row 0 (w, c1) s2)"
  define s4 where "s4 = move_to (Suc 0) (Debited a2) (lock_row (Suc 0) (w, c2) s3)"
  note defs = s1_def s2_def s3_def s4_def cdb_init_def
  have "money_step px prog (cdb_init d) s1"
    unfolding s1_def by (rule begin_tx) (simp_all add: defs assms)
  moreover have "money_step px prog s1 s2"
    unfolding s2_def by (rule begin_tx) (use assms in \<open>simp_all add: defs\<close>)
  moreover have "money_step px prog s2 s3"
    unfolding s3_def by (rule debit) (use assms in \<open>simp_all add: defs r\<close>)
  moreover have "money_step px prog s3 s4"
    unfolding s4_def by (rule debit) (use assms in \<open>simp_all add: defs r\<close>)
  ultimately have "(money_step px prog)\<^sup>*\<^sup>* (cdb_init d) s4"
    by (meson converse_rtranclp_into_rtranclp rtranclp.rtrancl_refl)
  moreover have "x_rows s4 = balance_of d" by (simp add: defs)
  moreover have "x_rows s' = x_rows s4 \<and> (x_pc s' 0 = Over False \<or> x_pc s' 1 = Over False)"
    if st: "money_step px prog s4 s'" and ch: "x_pc s' 0 \<noteq> x_pc s4 0 \<or> x_pc s' 1 \<noteq> x_pc s4 1" for s'
    using st
  proof (cases rule: money_step.cases)
    case (credit i a w' cf ct x y l b)
    then show ?thesis using assms(1,2,3) ch by (auto simp: defs split: if_splits)
  next
    case (credit_no_row i a w' cf ct x y)
    then show ?thesis using assms ch by (auto simp: defs r debit_amount split: if_splits)
  qed (use ch in \<open>auto simp: defs split: if_splits\<close>)
  ultimately show ?thesis by blast
qed

definition opposite_prog :: "nat \<Rightarrow> money_op" where
  "opposite_prog i = (if i = 0 then MoveOp 1 ''USD'' ''EUR'' (Fin 10) (Fin 9)
     else MoveOp 1 ''EUR'' ''USD'' (Fin 5) (Fin 5))"

theorem opposite_exchanges_deadlock_witness:
  "\<exists>s. (money_step demo_codec opposite_prog)\<^sup>*\<^sup>* (cdb_init demo_db) s \<and>
    (\<forall>s'. money_step demo_codec opposite_prog s s' \<and> (x_pc s' 0 \<noteq> x_pc s 0 \<or> x_pc s' 1 \<noteq> x_pc s 1) \<longrightarrow>
      x_pc s' 0 = Over False \<or> x_pc s' 1 = Over False)"
proof -
  have "ledger_debit (balance_of demo_db) 1 ''USD'' (enc demo_codec (Fin 10)) =
      Inr (ledger_set (balance_of demo_db) 1 ''USD'' (Num 90), Num 90)"
    and "ledger_debit (balance_of demo_db) 1 ''EUR'' (enc demo_codec (Fin 5)) =
      Inr (ledger_set (balance_of demo_db) 1 ''EUR'' (Num 0), Num 0)"
    by (simp_all add: ledger_debit_def demo_rows num_eval)
  from opposite_exchanges_deadlock [OF _ _ _ this, of opposite_prog "Fin 9" "Fin 5"]
  show ?thesis by (auto simp: opposite_prog_def)
qed

end
