(* ===== verification/Go_Mux.thy ===== *)
theory Go_Mux
  imports Go_Text
begin

text \<open>
  \<^verbatim>\<open>net/http\<close>'s \<^verbatim>\<open>ServeMux\<close> as the services use it: patterns without host, method, wildcard or trailing slash,
  each matching its own path. A path is looked up in its canonical form; when it had another one the answer is a
  redirect to the canonical path, whatever it matches. Only \<^verbatim>\<open>CONNECT\<close> takes the path as it comes. Paths are
  those of requests without percent-escapes, and not the request target \<^verbatim>\<open>*\<close>.
\<close>

section \<open>Canonical paths\<close>

text \<open>\<^verbatim>\<open>path.Clean\<close> on the elements of a rooted path: \<^verbatim>\<open>.\<close> and empty elements go, \<^verbatim>\<open>..\<close> takes the one before it along.\<close>

fun clean_segs :: "string list \<Rightarrow> string list \<Rightarrow> string list" where
  "clean_segs st [] = rev st"
| "clean_segs st (x # xs) =
    (if x = [] \<or> x = ''.'' then clean_segs st xs
     else if x = ''..'' then clean_segs (tl st) xs
     else clean_segs (x # st) xs)"

definition path_Clean :: "string \<Rightarrow> string" where
  "path_Clean p = CHR ''/'' # join (CHR ''/'') (clean_segs [] (split_on (CHR ''/'') p))"

definition cleanPath :: "string \<Rightarrow> string" where
  "cleanPath p0 = (let p = (if p0 = [] \<or> hd p0 \<noteq> CHR ''/'' then CHR ''/'' # p0 else p0); np = path_Clean p
     in if last p = CHR ''/'' \<and> np \<noteq> ''/'' then np @ ''/'' else np)"

section \<open>Looking up a request\<close>

datatype 'a mux_answer = Serve 'a | MovedPermanently string | NoRoute

definition mux_lookup :: "(string \<times> 'a) list \<Rightarrow> string \<Rightarrow> string \<Rightarrow> 'a mux_answer" where
  "mux_lookup patterns meth p =
    (let found = (\<lambda>q. case map_of patterns q of None \<Rightarrow> NoRoute | Some f \<Rightarrow> Serve f)
     in if meth = ''CONNECT'' then found p
        else if cleanPath p \<noteq> p then MovedPermanently (cleanPath p)
        else found (cleanPath p))"

section \<open>Cleaning twice is cleaning once\<close>

definition plain_seg :: "string \<Rightarrow> bool" where
  "plain_seg x \<longleftrightarrow> x \<noteq> [] \<and> x \<noteq> ''.'' \<and> x \<noteq> ''..'' \<and> CHR ''/'' \<notin> set x"

lemma clean_segs_plain:
  "\<forall>x \<in> set xs. CHR ''/'' \<notin> set x \<Longrightarrow> \<forall>x \<in> set st. plain_seg x \<Longrightarrow> \<forall>x \<in> set (clean_segs st xs). plain_seg x"
proof (induction st xs rule: clean_segs.induct)
  case (1 st)
  then show ?case by simp
next
  case (2 st x xs)
  have xs: "\<forall>y \<in> set xs. CHR ''/'' \<notin> set y" and st: "\<forall>y \<in> set (tl st). plain_seg y"
    using 2(4,5) by (simp, cases st) simp_all
  consider "x = [] \<or> x = ''.''" | "x \<noteq> [] \<and> x \<noteq> ''.''" "x = ''..''" | "x \<noteq> [] \<and> x \<noteq> ''.''" "x \<noteq> ''..''" by blast
  then show ?case
  proof cases
    case 1
    then show ?thesis using 2(1) [OF 1 xs 2(5)] by (simp only: clean_segs.simps if_True)
  next
    case a: 2
    have eq: "clean_segs st (x # xs) = clean_segs (tl st) xs" using a by simp
    from 2(2) [OF _ a(2) xs st] a(1) show ?thesis unfolding eq by blast
  next
    case 3
    have "CHR ''/'' \<notin> set x" using 2(4) by simp
    with 3 have "\<forall>y \<in> set (x # st). plain_seg y" using 2(5) by (simp only: set_simps ball_simps plain_seg_def) blast
    have eq: "clean_segs st (x # xs) = clean_segs (x # st) xs" using 3 by simp
    from 2(3) [OF _ 3(2) xs] 3(1) \<open>\<forall>y \<in> set (x # st). plain_seg y\<close> show ?thesis unfolding eq by blast
  qed
qed

lemma clean_segs_append: "\<forall>x \<in> set xs. plain_seg x \<Longrightarrow> clean_segs st (xs @ ys) = clean_segs (rev xs @ st) ys"
  by (induction xs arbitrary: st) (simp_all add: plain_seg_def)

lemma split_join_slash:
  "xs \<noteq> [] \<Longrightarrow> \<forall>x \<in> set xs. c \<notin> set x \<Longrightarrow> split_on c (join c xs @ [c]) = xs @ [[]]"
  by (induction c xs rule: join.induct) (simp_all add: split_on_append)

lemma path_Clean_segs:
  obtains xs where "path_Clean p = CHR ''/'' # join (CHR ''/'') xs" "\<forall>x \<in> set xs. plain_seg x"
proof
  show "path_Clean p = CHR ''/'' # join (CHR ''/'') (clean_segs [] (split_on (CHR ''/'') p))" by (simp add: path_Clean_def)
  show "\<forall>x \<in> set (clean_segs [] (split_on (CHR ''/'') p)). plain_seg x"
    by (rule clean_segs_plain) (auto dest: split_on_no_sep)
qed

lemma clean_rooted:
  assumes "\<forall>x \<in> set xs. plain_seg x"
  shows "path_Clean (CHR ''/'' # join (CHR ''/'') xs) = CHR ''/'' # join (CHR ''/'') xs"
    and "xs \<noteq> [] \<Longrightarrow> path_Clean (CHR ''/'' # join (CHR ''/'') xs @ ''/'') = CHR ''/'' # join (CHR ''/'') xs"
proof -
  have seg: "\<forall>x \<in> set xs. CHR ''/'' \<notin> set x" using assms by (simp add: plain_seg_def)
  have eq: "clean_segs [] xs = xs" using clean_segs_append [OF assms, of "[]" "[]"] by simp
  show "path_Clean (CHR ''/'' # join (CHR ''/'') xs) = CHR ''/'' # join (CHR ''/'') xs"
    using eq seg by (cases "xs = []") (simp_all add: path_Clean_def split_on_join)
  show "path_Clean (CHR ''/'' # join (CHR ''/'') xs @ ''/'') = CHR ''/'' # join (CHR ''/'') xs" if "xs \<noteq> []"
    using that seg clean_segs_append [OF assms, of "[]" "[[]]"] by (simp add: path_Clean_def split_join_slash)
qed

lemma join_last:
  assumes "\<forall>x \<in> set xs. plain_seg x" and "xs \<noteq> []"
  shows "join (CHR ''/'') xs \<noteq> [] \<and> last (join (CHR ''/'') xs) \<noteq> CHR ''/''"
  using assms
proof (induction "CHR ''/''" xs rule: join.induct)
  case (2 x)
  then have "x \<noteq> []" "CHR ''/'' \<notin> set x" by (simp_all add: plain_seg_def)
  then show ?case using last_in_set [of x] by (cases "last x = CHR ''/''") simp_all
qed simp_all

lemma cleanPath_idem: "cleanPath (cleanPath p) = cleanPath p"
proof -
  obtain q where q: "cleanPath p = (if last q = CHR ''/'' \<and> path_Clean q \<noteq> ''/'' then path_Clean q @ ''/'' else path_Clean q)"
    by (auto simp: cleanPath_def Let_def)
  obtain xs where xs: "path_Clean q = CHR ''/'' # join (CHR ''/'') xs" "\<forall>x \<in> set xs. plain_seg x" by (rule path_Clean_segs)
  show ?thesis
    using q xs(1) clean_rooted [OF xs(2)] join_last [OF xs(2)]
    by (cases "xs = []") (auto simp: cleanPath_def Let_def)
qed

text \<open>A redirect is followed once: the path it names is served or not found.\<close>

lemma redirect_once: "mux_lookup ps meth p = MovedPermanently q \<Longrightarrow> mux_lookup ps meth q \<noteq> MovedPermanently q'"
  by (auto simp: mux_lookup_def Let_def cleanPath_idem split: if_splits option.splits)

lemma mux_lookup_clean:
  "meth \<noteq> ''CONNECT'' \<Longrightarrow> cleanPath p = p \<Longrightarrow>
    mux_lookup ps meth p = (case map_of ps p of None \<Rightarrow> NoRoute | Some f \<Rightarrow> Serve f)"
  by (simp add: mux_lookup_def)

end
