(* ===== verification/Servers.thy ===== *)
theory Servers
  imports Wallet_Requests Notification Producer Go_Mux
begin

text \<open>
  What answers at the ports of the services: the routing tables on the multiplexer. Then the remaining edges
  of the program: the readers of Kafka that the consumers open, the test client of the exchanger and its
  connection pool.
\<close>

section \<open>The wallet\<close>

definition wallet_patterns :: "(string \<times> endpoint) list" where
  "wallet_patterns =
    [(''/health'', HandleHealth), (''/api/v1/register'', HandleRegister), (''/api/v1/login'', HandleLogin),
     (''/api/v1/balance'', protected HandleBalance), (''/api/v1/wallet/deposit'', protected HandleDeposit),
     (''/api/v1/wallet/withdraw'', protected HandleWithdraw), (''/api/v1/exchange'', protected HandleExchange),
     (''/api/v1/exchange/rates'', protected HandleExchangeRates)]"

definition wallet_serve :: endpoint where
  "wallet_serve h e r s = (case mux_lookup wallet_patterns (req_method r) (req_path r) of
      Serve f \<Rightarrow> f h e r s
    | MovedPermanently _ \<Rightarrow> (status_only 301, s)
    | NoRoute \<Rightarrow> (status_only 404, s))"

text \<open>For a request whose path is canonical this is \<open>route\<close>; any other is redirected and changes nothing.\<close>

lemma map_of_patterns:
  "(case map_of wallet_patterns (req_path r) of None \<Rightarrow> (status_only 404, s) | Some f \<Rightarrow> f h e r s) = route h e r s"
  by (simp add: wallet_patterns_def route_def)

lemma wallet_serve_route:
  "wallet_serve h e r s = (if req_method r \<noteq> ''CONNECT'' \<and> cleanPath (req_path r) \<noteq> req_path r then (status_only 301, s)
     else route h e r s)"
  unfolding map_of_patterns [symmetric]
  by (simp add: wallet_serve_def mux_lookup_def Let_def split: option.split)

section \<open>The page-view services and the notification service\<close>

datatype 'a page = Moved string | ErrorPage nat | Page nat 'a

definition page_of :: "nat \<times> 'a option \<Rightarrow> 'a page" where
  "page_of x = (case x of (n, None) \<Rightarrow> ErrorPage n | (n, Some a) \<Rightarrow> Page n a)"

definition mux_page :: "(string \<times> 'a page) list \<Rightarrow> string \<Rightarrow> string \<Rightarrow> 'a page" where
  "mux_page patterns meth p = (case mux_lookup patterns meth p of
      Serve x \<Rightarrow> x | MovedPermanently q \<Rightarrow> Moved q | NoRoute \<Rightarrow> ErrorPage 404)"

datatype aggregator_page = AggregatorStatus string | AggregatorMetrics "int \<times> int \<times> int \<times> int \<times> int"

definition aggregator_serve :: "string \<Rightarrow> string \<Rightarrow> consumer \<Rightarrow> aggregator_page page" where
  "aggregator_serve meth p c = mux_page
     [(''/health'', page_of (map_prod id (map_option AggregatorStatus) (aggregator_HandleHealth meth))),
      (''/metrics'', page_of (map_prod id (map_option AggregatorMetrics) (aggregator_HandleMetrics meth c)))] meth p"

text \<open>
  The producer's handlers: \<^verbatim>\<open>/control\<close> may change the generator and the producer, and may panic, which the
  server recovers from by closing the connection without an answer (\<open>None\<close>).
\<close>

datatype producer_page = ControlDone | ProducerMetrics "int \<times> int \<times> int \<times> int \<times> int"

definition control_page ::
  "producer_config \<Rightarrow> string \<Rightarrow> json option \<Rightarrow> generator \<times> producer \<Rightarrow>
   producer_page page option \<times> (generator \<times> producer)" where
  "control_page cfg meth b s = (case HandleControl cfg meth b s of
      (Panic, s') \<Rightarrow> (None, s')
    | (Done n, s') \<Rightarrow> (Some (if n = 200 then Page 200 ControlDone else ErrorPage n), s'))"

definition producer_serve ::
  "producer_config \<Rightarrow> string \<Rightarrow> string \<Rightarrow> json option \<Rightarrow> generator \<times> producer \<Rightarrow>
   producer_page page option \<times> (generator \<times> producer)" where
  "producer_serve cfg meth p b s = (case mux_lookup
      [(''/control'', control_page cfg meth b),
       (''/metrics'', \<lambda>s. (Some (page_of (map_prod id (map_option ProducerMetrics) (producer_HandleMetrics meth s))), s))] meth p of
      Serve f \<Rightarrow> f s | MovedPermanently q \<Rightarrow> (Some (Moved q), s) | NoRoute \<Rightarrow> (Some (ErrorPage 404), s))"

definition notification_serve ::
  "string \<Rightarrow> string \<Rightarrow> bool option \<Rightarrow> string list \<Rightarrow> (string \<Rightarrow> bool) \<Rightarrow> (string \<times> string \<times> string) page" where
  "notification_serve meth p mongo brokers dial =
     mux_page [(''/health'', page_of (health_ServeHTTP meth p mongo brokers dial))] meth p"

text \<open>Only a \<^verbatim>\<open>POST\<close> to \<^verbatim>\<open>/control\<close> changes what the producer does.\<close>

lemma producer_changed_by_control:
  assumes "snd (producer_serve cfg meth p b s) \<noteq> s"
  shows "meth = ''POST'' \<and> p = ''/control''"
proof -
  have "mux_lookup [(''/control'', f), (''/metrics'', g)] meth p = Serve k \<Longrightarrow>
      k = f \<and> p = ''/control'' \<or> k = g" for f g and k :: "generator \<times> producer \<Rightarrow> producer_page page option \<times> (generator \<times> producer)"
    by (auto simp: mux_lookup_def Let_def split: if_splits)
  moreover have "meth \<noteq> ''POST'' \<Longrightarrow> snd (control_page cfg meth b s) = s"
    by (simp add: control_page_def HandleControl_def split_beta)
  ultimately show ?thesis
    using assms by (cases "meth = ''POST''") (fastforce simp: producer_serve_def split: mux_answer.splits)+
qed

section \<open>Kafka readers\<close>

text \<open>
  The settings the code gives to \<^verbatim>\<open>kafka.NewReader\<close>, sizes in bytes and times in nanoseconds; what is not set
  is the zero value, and the library's default.
\<close>

record reader_config =
  rd_brokers :: "string list"
  rd_topic :: string
  rd_group :: string
  rd_partition :: int
  rd_min_bytes :: int
  rd_max_bytes :: int
  rd_max_wait :: int
  rd_session_timeout :: int
  rd_heartbeat :: int

abbreviation (input) ns_second :: int where "ns_second \<equiv> 1000000000"

definition newSimpleReader :: "notification_config \<Rightarrow> int \<Rightarrow> reader_config" where
  "newSimpleReader cfg part = \<lparr>rd_brokers = notification_brokers cfg, rd_topic = nc_topic cfg, rd_group = [],
     rd_partition = part, rd_min_bytes = 1, rd_max_bytes = 10000000, rd_max_wait = 3 * ns_second,
     rd_session_timeout = 0, rd_heartbeat = 0\<rparr>"

definition newReader :: "notification_config \<Rightarrow> reader_config" where
  "newReader cfg = \<lparr>rd_brokers = notification_brokers cfg, rd_topic = nc_topic cfg, rd_group = nc_group cfg,
     rd_partition = 0, rd_min_bytes = 1, rd_max_bytes = 10000000, rd_max_wait = 3 * ns_second,
     rd_session_timeout = 45 * ns_second, rd_heartbeat = 2 * ns_second\<rparr>"

definition aggregator_reader :: "aggregator_config \<Rightarrow> reader_config" where
  "aggregator_reader cfg = \<lparr>rd_brokers = aggregator_brokers cfg, rd_topic = ac_topic cfg, rd_group = ac_group cfg,
     rd_partition = 0, rd_min_bytes = 1, rd_max_bytes = 10000000, rd_max_wait = 3 * ns_second,
     rd_session_timeout = 45 * ns_second, rd_heartbeat = 2 * ns_second\<rparr>"

text \<open>
  Producer and aggregator that are started with the same Kafka settings, given or by default, meet: the reader's
  topic and brokers are the writer's.
\<close>

lemma views_meet:
  assumes "aggregator_Load env = Some cfg" and "env' ''KAFKA_BROKERS'' = env ''KAFKA_BROKERS''"
    and "env' ''KAFKA_TOPIC'' = env ''KAFKA_TOPIC''"
  shows "rd_topic (aggregator_reader cfg) = cfg_topic (producer_Load env')"
    and "rd_brokers (aggregator_reader cfg) = cfg_brokers (producer_Load env')"
  using assms
  by (auto simp: aggregator_Load_def producer_Load_def aggregator_reader_def aggregator_getEnv_def getEnv_def
      aggregator_brokers_def cfg_brokers_def Let_def split: if_splits)

section \<open>The exchanger's test client\<close>

datatype client_line =
    DialFailed | RatesFailed grpc_code | RatesLine "string \<rightharpoonup> float64"
  | RateFailed grpc_code | RateLine float64 | AllOk

text \<open>
  The lines it logs, its exit status, and whether the connection was closed: \<^verbatim>\<open>log.Fatalf\<close> runs no deferred
  call. The answers of the two calls are arguments.
\<close>

definition client_main ::
  "bool \<Rightarrow> grpc_code + (string \<rightharpoonup> float64) \<Rightarrow> (string \<Rightarrow> string \<Rightarrow> grpc_code + rate_response) \<Rightarrow>
   client_line list \<times> nat \<times> bool" where
  "client_main dial rates one =
    (if \<not> dial then ([DialFailed], 1, False)
     else (case rates of
        Inl e \<Rightarrow> ([RatesFailed e], 1, False)
      | Inr m \<Rightarrow> (case one ''USD'' ''RUB'' of
          Inl e \<Rightarrow> ([RatesLine m, RateFailed e], 1, False)
        | Inr x \<Rightarrow> ([RatesLine m, RateLine (resp_rate x), AllOk], 0, True))))"

text \<open>Against the exchanger it succeeds exactly when the table can be read and has the pair, whose rate it then prints.\<close>

lemma client_checks_pair:
  "snd (client_main True (GetExchangeRates q) (GetExchangeRateForCurrency q)) = (0, True) \<longleftrightarrow>
   (\<exists>rows r. q = Inr rows \<and> find (\<lambda>r. from_currency r = ''USD'' \<and> to_currency r = ''RUB'') rows = Some r \<and>
      RateLine (rate r) \<in> set (fst (client_main True (GetExchangeRates q) (GetExchangeRateForCurrency q))))"
  by (auto simp: client_main_def GetExchangeRates_def GetExchangeRateForCurrency_def svc_GetExchangeRates_def
      svc_GetExchangeRateForCurrency_def AllRates_def Rate_def select_rate_def isNoRows_def split: sum.splits option.splits)

section \<open>The exchanger's connection pool\<close>

record pool_config =
  pool_max_conns :: int
  pool_min_conns :: int
  pool_lifetime :: int

datatype pool_error = ParseDsn | CreatePool

text \<open>\<^verbatim>\<open>pgxpool.ParseConfig\<close> and \<^verbatim>\<open>pgxpool.NewWithConfig\<close> are the arguments \<open>parse\<close> and \<open>create\<close>.\<close>

definition NewPool ::
  "(string \<Rightarrow> pool_config option) \<Rightarrow> (pool_config \<Rightarrow> 'pool option) \<Rightarrow> string \<Rightarrow> int \<Rightarrow> pool_error + 'pool" where
  "NewPool parse create dsn maxConns = (case parse dsn of
      None \<Rightarrow> Inl ParseDsn
    | Some cfg0 \<Rightarrow>
       (let cfg1 = (if 0 < maxConns then cfg0\<lparr>pool_max_conns := maxConns\<rparr> else cfg0);
            cfg = cfg1\<lparr>pool_min_conns := 2, pool_lifetime := 30 * 60 * ns_second\<rparr>
        in (case create cfg of None \<Rightarrow> Inl CreatePool | Some p \<Rightarrow> Inr p)))"

end
