(* ===== verification/Wallet_Responses.thy ===== *)
theory Wallet_Responses
  imports Servers Wallet_Demo
begin

text \<open>
  The type of the wallet's answers: which statuses and bodies a route may give. Every handler gives answers of its
  route's type, whatever it is sent and whatever fails.
\<close>

section \<open>Types of answers\<close>

definition shows_all :: "(string \<rightharpoonup> float64) \<Rightarrow> bool" where
  "shows_all m \<longleftrightarrow> set supportedCurrencies \<subseteq> dom m"

text \<open>What a success carries, route by route, and the statuses of its failures.\<close>

fun success_type :: "string \<Rightarrow> nat \<Rightarrow> resp_body \<Rightarrow> bool" where
  "success_type p n (MessageBody m) = (p = ''/api/v1/register'' \<and> n = 201)"
| "success_type p n (TokenBody t) = (p = ''/api/v1/login'' \<and> n = 200)"
| "success_type p n (BalancesBody m) = (p = ''/api/v1/balance'' \<and> n = 200 \<and> shows_all m)"
| "success_type p n (AmountBody c x) =
    ((p = ''/api/v1/wallet/deposit'' \<or> p = ''/api/v1/wallet/withdraw'') \<and> n = 200 \<and> allowedCurrencies c)"
| "success_type p n (RatesBody m src) = (p = ''/api/v1/exchange/rates'' \<and> n = 200)"
| "success_type p n (ExchangeBody msg rt x m src) = (p = ''/api/v1/exchange'' \<and> n = 200 \<and> shows_all m)"
| "success_type p n (HealthBody st dbs exs kfs) =
    (p = ''/health'' \<and> n = (if st = ''ok'' then 200 else 503) \<and> (st = ''ok'' \<longleftrightarrow> dbs = ''ok'' \<and> exs = ''ok'' \<and> kfs = ''ok''))"
| "success_type p n (LegacyBalanceBody w x) = False"
| "success_type p n NoBody = False"
| "success_type p n (ErrorBody m) = False"

definition failures :: "string \<Rightarrow> nat set" where
  "failures p =
    (if p = ''/api/v1/register'' then {400, 409, 500}
     else if p = ''/api/v1/login'' then {400, 401, 500}
     else if p = ''/api/v1/balance'' then {404, 500}
     else if p = ''/api/v1/wallet/deposit'' \<or> p = ''/api/v1/wallet/withdraw'' then {400, 404, 500}
     else if p = ''/api/v1/exchange'' then {400, 404, 500, 503}
     else if p = ''/api/v1/exchange/rates'' then {502} else {})"

definition protected_path :: "string \<Rightarrow> bool" where
  "protected_path p \<longleftrightarrow> p = ''/api/v1/balance'' \<or> p = ''/api/v1/wallet/deposit'' \<or> p = ''/api/v1/wallet/withdraw'' \<or>
     p = ''/api/v1/exchange'' \<or> p = ''/api/v1/exchange/rates''"

definition bare_statuses :: "string \<Rightarrow> nat set" where
  "bare_statuses p = (if protected_path p then {401, 405}
     else if p = ''/health'' \<or> p = ''/api/v1/register'' \<or> p = ''/api/v1/login'' then {405} else {404})"

definition answer_typed :: "string \<Rightarrow> http_response \<Rightarrow> bool" where
  "answer_typed p x \<longleftrightarrow> (case body x of
      NoBody \<Rightarrow> status x \<in> bare_statuses p
    | ErrorBody m \<Rightarrow> m \<noteq> [] \<and> status x \<in> failures p
    | b \<Rightarrow> success_type p (status x) b)"

lemma answer_typed_simps [simp]:
  "answer_typed p (status_only n) \<longleftrightarrow> n \<in> bare_statuses p"
  "answer_typed p (write_error n m) \<longleftrightarrow> m \<noteq> [] \<and> n \<in> failures p"
  "answer_typed p (write_json n (ErrorBody m)) \<longleftrightarrow> m \<noteq> [] \<and> n \<in> failures p"
  "(\<And>m. b \<noteq> ErrorBody m) \<Longrightarrow> b \<noteq> NoBody \<Longrightarrow> answer_typed p (write_json n b) \<longleftrightarrow> success_type p n b"
  by (simp_all add: answer_typed_def split: resp_body.split)

section \<open>What the repository returns\<close>

lemma shows_all_upd [simp]: "shows_all m \<Longrightarrow> shows_all (m(k \<mapsto> v))"
  by (auto simp: shows_all_def)

lemma shows_all_scan [simp]: "shows_all (scan_balances px rs)"
proof -
  have "shows_all m \<Longrightarrow> shows_all (foldl (\<lambda>m r. m(bal_currency r \<mapsto> dec px (bal_amount r))) m rs)" for m
    by (induction rs arbitrary: m) simp_all
  then show ?thesis by (simp add: scan_balances_def shows_all_def zero_balances_def supportedCurrencies_def)
qed

lemma GetBalances_shows_all: "fst (GetBalances px w d) = Inr m \<Longrightarrow> shows_all m"
  by (auto simp: GetBalances_def split: sum.splits prod.splits)

lemma Exchange_shows_all: "fst (Exchange px w a b x y d) = Inr m \<Longrightarrow> shows_all m"
  unfolding Exchange_def
  by (auto dest: GetBalances_shows_all split: sum.splits prod.splits list.splits fault.splits if_splits)

lemma on_db_shows_all:
  "on_db (GetBalances px w) s = (Inr m, s') \<Longrightarrow> shows_all m"
  "on_db (Exchange px w a b x y) s = (Inr m, s') \<Longrightarrow> shows_all m"
  by (auto simp: on_db_eq dest: GetBalances_shows_all Exchange_shows_all)

section \<open>The handlers\<close>

lemmas handler_splits = option.split sum.split prod.split

lemma HandleRegister_typed: "answer_typed ''/api/v1/register'' (fst (HandleRegister h e r s))"
  unfolding HandleRegister_def
  by (simp add: bare_statuses_def failures_def protected_path_def split: handler_splits)

lemma HandleLogin_typed: "answer_typed ''/api/v1/login'' (fst (HandleLogin h e r s))"
  unfolding HandleLogin_def
  by (simp add: bare_statuses_def failures_def protected_path_def split: handler_splits)

lemma HandleBalance_typed: "answer_typed ''/api/v1/balance'' (fst (HandleBalance h e r s))"
  unfolding HandleBalance_def
  by (simp add: bare_statuses_def failures_def protected_path_def on_db_shows_all split: handler_splits)

lemma HandleDeposit_typed: "answer_typed ''/api/v1/wallet/deposit'' (fst (HandleDeposit h e r s))"
  unfolding HandleDeposit_def
  by (simp add: bare_statuses_def failures_def protected_path_def split: handler_splits)

lemma HandleWithdraw_typed: "answer_typed ''/api/v1/wallet/withdraw'' (fst (HandleWithdraw h e r s))"
  unfolding HandleWithdraw_def
  by (simp add: bare_statuses_def failures_def protected_path_def split: handler_splits)

lemma HandleExchange_typed: "answer_typed ''/api/v1/exchange'' (fst (HandleExchange h e r s))"
  unfolding HandleExchange_def
  by (simp add: bare_statuses_def failures_def protected_path_def on_db_shows_all split: handler_splits)

lemma HandleExchangeRates_typed: "answer_typed ''/api/v1/exchange/rates'' (fst (HandleExchangeRates h e r s))"
  unfolding HandleExchangeRates_def
  by (simp add: bare_statuses_def failures_def protected_path_def split: handler_splits)

lemma HandleHealth_typed: "answer_typed ''/health'' (fst (HandleHealth h e r s))"
  unfolding HandleHealth_def
  by (simp add: bare_statuses_def protected_path_def Let_def split_beta)

lemma protected_typed:
  assumes "protected_path p" and "\<And>r. answer_typed p (fst (f h e r s))"
  shows "answer_typed p (fst (protected f h e r s))"
  using assms
  by (simp add: protected_def AuthMiddleware_def Let_def bare_statuses_def split: sum.split)

lemma route_typed: "answer_typed (req_path r) (fst (route h e r s))"
proof -
  have p: "answer_typed ''/api/v1/balance'' (fst (protected HandleBalance h e r s))"
      "answer_typed ''/api/v1/wallet/deposit'' (fst (protected HandleDeposit h e r s))"
      "answer_typed ''/api/v1/wallet/withdraw'' (fst (protected HandleWithdraw h e r s))"
      "answer_typed ''/api/v1/exchange'' (fst (protected HandleExchange h e r s))"
      "answer_typed ''/api/v1/exchange/rates'' (fst (protected HandleExchangeRates h e r s))"
    using HandleBalance_typed HandleDeposit_typed HandleWithdraw_typed HandleExchange_typed HandleExchangeRates_typed
    by (simp_all add: protected_typed protected_path_def)
  show ?thesis
    unfolding route_def
    using p HandleHealth_typed [of h e r s] HandleRegister_typed [of h e r s] HandleLogin_typed [of h e r s]
    by (simp add: bare_statuses_def protected_path_def split: if_split)
qed


end
