(* ===== verification/Wallet_Rates.thy ===== *)
theory Wallet_Rates
  imports Wallet_Responses
begin

text \<open>
  Where the rate of an exchange comes from, across the requests of a run: the exchanger's answer to this
  request, or its answer to an earlier one that is younger than the cache's lifetime.
\<close>

section \<open>What the client's cache holds\<close>

definition cached_from :: "(wallet_env \<times> http_request) list \<Rightarrow> exch_client \<Rightarrow> bool" where
  "cached_from rs c \<longleftrightarrow> (\<forall>a. cacheAt c = Some a \<longrightarrow>
     (\<exists>(e, r) \<in> set rs. rpc_rates (we_exch e) = Inr (cacheRates c) \<and> t_store (we_exch e) = a))"

lemma serve_append: "serve h (rs @ rs') s = serve h rs' (serve h rs s)"
  by (induction h rs s rule: serve.induct) simp_all

lemma GetAllRates_cached_from:
  "cached_from rs c \<Longrightarrow> cached_from (rs @ [(e, r)]) (snd (GetAllRates (we_exch e) c))"
  by (cases rule: GetAllRates_cases [of c "we_exch e"]) (auto simp: cached_from_def)

lemma GetAllRates_ttl [simp]: "cacheTTL (snd (GetAllRates e c)) = cacheTTL c"
  by (cases rule: GetAllRates_cases [of c e]) auto

lemma serve_cached_from:
  assumes "ws_client s = Some c0" and "cacheAt c0 = None"
  shows "\<exists>c. ws_client (serve h rs s) = Some c \<and> cacheTTL c = cacheTTL c0 \<and> cached_from rs c"
proof (induction rs rule: rev_induct)
  case Nil
  then show ?case using assms by (simp add: cached_from_def)
next
  case (snoc er rs)
  then obtain c where c: "ws_client (serve h rs s) = Some c" "cacheTTL c = cacheTTL c0" "cached_from rs c" by blast
  obtain e r where er: "er = (e, r)" by fastforce
  have "cached_from (rs @ [er]) c" using c(3) by (auto simp: cached_from_def)
  moreover have "cached_from (rs @ [er]) (snd (GetAllRates (we_exch e) c))"
    unfolding er by (rule GetAllRates_cached_from [OF c(3)])
  ultimately show ?case
    using route_client [of e "serve h rs s" h r] c(1,2) by (auto simp: serve_append er client_step_def)
qed

section \<open>The rate of an accepted exchange\<close>

lemma on_client_rate:
  "on_client (GetRateWithSource e f t) c s = (Inr (rt, src), s') \<Longrightarrow> fst (GetRateWithSource e f t c) = Inr (rt, src)"
  by (simp add: on_client_eq)

lemma HandleExchange_rate:
  assumes "body (fst (HandleExchange h e r s)) = ExchangeBody msg rt x m src"
  shows "\<exists>q c. exchange_request r = Some q \<and> ws_client s = Some c \<and>
    fst (GetRateWithSource (we_exch e) (er_from q) (er_to q) c) = Inr (rt, src)"
  using assms
  by (auto simp: HandleExchange_def exchange_request_def on_db_eq split: if_splits option.splits sum.splits prod.splits
      dest!: on_client_rate)

lemma route_exchange_rate:
  assumes "body (fst (route h e r s)) = ExchangeBody msg rt x m src"
  shows "\<exists>q c. exchange_request r = Some q \<and> ws_client s = Some c \<and>
    fst (GetRateWithSource (we_exch e) (er_from q) (er_to q) c) = Inr (rt, src)"
proof -
  have "req_path r = ''/api/v1/exchange''" using route_typed [of r h e s] assms by (simp add: answer_typed_def)
  then have "body (fst (protected HandleExchange h e r s)) = ExchangeBody msg rt x m src"
    using assms by (simp add: route_def)
  then have "\<exists>i. body (fst (HandleExchange h e (r\<lparr>req_ctx_user := i\<rparr>) s)) = ExchangeBody msg rt x m src"
    unfolding protected_def
    by (cases rule: AuthMiddleware_cases [of "hd_jwt h" "we_now e" "hd_secret h" "HandleExchange h e" r s, OF refl]) auto
  then obtain i where "body (fst (HandleExchange h e (r\<lparr>req_ctx_user := i\<rparr>) s)) = ExchangeBody msg rt x m src" ..
  from HandleExchange_rate [OF this] show ?thesis by (simp add: exchange_request_def)
qed

text \<open>The exchanger's answers to a request: its list has the pair, or it was asked for the pair alone.\<close>

definition listed :: "exch_env \<Rightarrow> string \<Rightarrow> string \<Rightarrow> float64 \<Rightarrow> bool" where
  "listed e f t rt \<longleftrightarrow> (case rpc_rates e of Inl _ \<Rightarrow> False | Inr m \<Rightarrow> m (pair_key f t) = Some rt)"

definition quoted :: "exch_env \<Rightarrow> string \<Rightarrow> string \<Rightarrow> float64 \<Rightarrow> bool" where
  "quoted e f t rt \<longleftrightarrow> rpc_rate e f t = Inr rt \<and> \<not> f_le rt (Fin 0)"

lemma GetRateWithSource_source:
  assumes "fst (GetRateWithSource e f t c) = Inr (rt, src)"
  shows "listed e f t rt \<or> quoted e f t rt \<or> (cache_valid c (t_rlock e) \<or> cache_valid c (t_lock e)) \<and> cacheRates c (pair_key f t) = Some rt"
  using assms
  by (cases rule: GetAllRates_cases [of c e])
    (auto simp: GetRateWithSource_def listed_def quoted_def split: option.splits sum.splits if_splits)

text \<open>
  C7: In any run of the wallet, whatever is requested and whatever fails, the rate of an exchange that is
  answered with success is one the exchanger gave for this pair: in this request, or in an earlier one that
  stored its answer less than the cache's lifetime ago.
\<close>

theorem exchange_rate_is_fresh:
  assumes "ws_client s = Some c0" and "cacheAt c0 = None"
    and "body (fst (route h e r (serve h rs s))) = ExchangeBody msg rt x m src"
    and "t_rlock (we_exch e) \<le> t_lock (we_exch e)"
  shows "\<exists>q. exchange_request r = Some q \<and> (listed (we_exch e) (er_from q) (er_to q) rt \<or>
    quoted (we_exch e) (er_from q) (er_to q) rt \<or>
    (\<exists>(e', r') \<in> set rs. listed (we_exch e') (er_from q) (er_to q) rt \<and>
       t_rlock (we_exch e) - t_store (we_exch e') < cacheTTL c0))"
proof -
  obtain q c where q: "exchange_request r = Some q" and c: "ws_client (serve h rs s) = Some c"
    and rate: "fst (GetRateWithSource (we_exch e) (er_from q) (er_to q) c) = Inr (rt, src)"
    using route_exchange_rate [OF assms(3)] by blast
  have cache: "cached_from rs c" "cacheTTL c = cacheTTL c0" using serve_cached_from [OF assms(1,2), of h rs] c by auto
  from GetRateWithSource_source [OF rate] show ?thesis
  proof (elim disjE)
    assume "listed (we_exch e) (er_from q) (er_to q) rt"
    with q show ?thesis by blast
  next
    assume "quoted (we_exch e) (er_from q) (er_to q) rt"
    with q show ?thesis by blast
  next
    assume hit: "(cache_valid c (t_rlock (we_exch e)) \<or> cache_valid c (t_lock (we_exch e))) \<and>
      cacheRates c (pair_key (er_from q) (er_to q)) = Some rt"
    then obtain a where a: "cacheAt c = Some a" "t_rlock (we_exch e) - a < cacheTTL c0"
      using assms(4) cache(2) by (auto simp: cache_valid_def split: option.splits)
    then obtain e' r' where "(e', r') \<in> set rs" "rpc_rates (we_exch e') = Inr (cacheRates c)" "t_store (we_exch e') = a"
      using cache(1) by (auto simp: cached_from_def)
    with hit a(2) have "(e', r') \<in> set rs \<and> listed (we_exch e') (er_from q) (er_to q) rt \<and>
        t_rlock (we_exch e) - t_store (we_exch e') < cacheTTL c0" by (auto simp: listed_def)
    with q show ?thesis by blast
  qed
qed

text \<open>
  An instance: a health check fills the cache, and then an exchange finds its rate there while the exchanger is
  down.
\<close>

definition demo_fill :: "(wallet_env \<times> http_request) list" where
  "demo_fill = [(demo_env, demo_request ''GET'' ''/health'' JNull)]"

definition demo_empty :: wallet_state where
  "demo_empty = demo_state\<lparr>ws_client := Some (demo_client\<lparr>cacheAt := None\<rparr>)\<rparr>"

definition demo_down :: wallet_env where
  "demo_down = demo_env\<lparr>we_exch := demo_exch\<lparr>t_rlock := 4, t_lock := 4, rpc_rates := Inl Unavailable\<rparr>\<rparr>"

lemma demo_filled: "serve demo_handler demo_fill demo_empty = demo_state\<lparr>ws_client := Some (demo_client\<lparr>cacheAt := Some 3\<rparr>)\<rparr>"
  by (simp add: demo_fill_def demo_empty_def route_def HandleHealth_def ping_db_def on_client_eq GetAllRates_def
      cache_valid_def demo_client_def demo_exch_def Let_def)

lemma demo_down_rate:
  "GetRateWithSource (we_exch demo_down) ''USD'' ''RUB'' (demo_client\<lparr>cacheAt := Some 3\<rparr>) =
     (Inr (Fin 90, ''cache''), demo_client\<lparr>cacheAt := Some 3\<rparr>)"
  by (simp add: GetRateWithSource_def GetAllRates_def cache_valid_def demo_client_def demo_exch_def demo_down_def
      ns_per_s_def pair_key_def)

lemma demo_token: "\<exists>tok. ValidateToken demo_jwt 1 ''key'' tok = Inr \<lparr>expires_at = 5, issued_at = 0, claim_user = 1\<rparr>"
proof -
  let ?c = "\<lparr>expires_at = 5, issued_at = 0, claim_user = 1\<rparr>"
  obtain tok where "signed_string demo_jwt HS256 ?c ''key'' = Some tok" by (simp add: demo_jwt_def demo_sign_def)
  then have "parse_with_claims demo_jwt 1 tok (key_func ''key'') =
      Inr \<lparr>tok_method = HS256, tok_claims = ?c, tok_valid = True\<rparr>"
    using demo_jwt_roundtrip unfolding jwt_roundtrip_def by (simp add: key_func_def is_hmac_def)
  then show ?thesis by (intro exI [of _ tok]) (simp add: ValidateToken_def)
qed

lemma demo_exchange_done:
  "\<exists>m. fst (Exchange demo_codec 1 ''USD'' ''RUB'' (Fin 10) (exchanged_amount (Fin 10) (Fin 90)) demo_db) = Inr m"
  using Exchange_result [where d = demo_db and w = 1 and ct = "''RUB''" and cf = "''USD''" and px = demo_codec and x = "Fin 10"
      and y = "exchanged_amount (Fin 10) (Fin 90)"]
  by (simp add: demo_db_ok demo_round exchanged_amount_def num_eval ledger_exchange_def ledger_debit_def
      ledger_credit_def ledger_set_def)

theorem exchange_rate_is_fresh_witness:
  "\<exists>(e', r') \<in> set demo_fill. listed (we_exch e') ''USD'' ''RUB'' (Fin 90) \<and> 4 - t_store (we_exch e') < 60 * ns_per_s"
proof -
  obtain tok where tok: "ValidateToken demo_jwt 1 ''key'' tok = Inr \<lparr>expires_at = 5, issued_at = 0, claim_user = 1\<rparr>"
    using demo_token by blast
  let ?r = "(demo_exchange 10)\<lparr>req_auth := bearer @ tok\<rparr>" and ?q = "\<lparr>er_from = ''USD'', er_to = ''RUB'', er_amount = Fin 10\<rparr>"
  let ?r1 = "?r\<lparr>req_ctx_user := Some (CtxInt64 1)\<rparr>"
  have sel: "we_now demo_down = 1" "t_rlock (we_exch demo_down) = 4" "t_lock (we_exch demo_down) = 4"
    by (simp_all add: demo_down_def)
  have acc: "req_method ?r1 = ''POST''" "UserIDFromContext ?r1 = Some 1" "exchange_request ?r1 = Some ?q" "exchange_accepts ?q"
    using demo_exchange_request [OF demo_round(1)]
    by (simp_all add: UserIDFromContext_def exchange_request_def exchange_accepts_def allowedCurrencies_def)
  obtain m where m: "fst (Exchange demo_codec 1 ''USD'' ''RUB'' (Fin 10) (exchanged_amount (Fin 10) (Fin 90)) demo_db) = Inr m"
    using demo_exchange_done by blast
  have "body (fst (route demo_handler demo_down ?r (serve demo_handler demo_fill demo_empty))) =
      ExchangeBody ''Exchange successful'' (Fin 90) (exchanged_amount (Fin 10) (Fin 90)) m ''cache''"
    using m
    by (simp add: demo_filled route_def protected_def AuthMiddleware_pass [OF _ tok] sel HandleExchange_accepted [OF acc]
        on_db_eq on_client_eq GetWalletIDByUserID_ok demo_down_rate)
  from exchange_rate_is_fresh [OF _ _ this, of "demo_client\<lparr>cacheAt := None\<rparr>"] obtain q where
    "exchange_request ?r = Some q" "listed (we_exch demo_down) (er_from q) (er_to q) (Fin 90) \<or>
      quoted (we_exch demo_down) (er_from q) (er_to q) (Fin 90) \<or>
      (\<exists>(e', r') \<in> set demo_fill. listed (we_exch e') (er_from q) (er_to q) (Fin 90) \<and>
         t_rlock (we_exch demo_down) - t_store (we_exch e') < 60 * ns_per_s)"
    by (auto simp: demo_empty_def sel demo_client_def)
  moreover have "q = ?q" using acc(3) calculation(1) by (simp add: exchange_request_def)
  moreover have "\<not> listed (we_exch demo_down) f t v" "\<not> quoted (we_exch demo_down) f t v" for f t v
    by (simp_all add: demo_down_def listed_def quoted_def demo_exch_def)
  ultimately show ?thesis using sel by simp
qed

end
