(* ===== verification/Wallet_Audit.thy ===== *)
theory Wallet_Audit
  imports Wallet_Responses
begin

text \<open>
  What the wallet sends to Kafka: the large-transaction publisher is called for exactly the money operations that
  are answered with success.
\<close>

section \<open>What a request announces\<close>

text \<open>Kind, currency and amount of the operation a request asks for, as its handler passes them to the publisher.\<close>

definition announces :: "http_request \<Rightarrow> (string \<times> string \<times> float64) option" where
  "announces r =
    (if req_path r = ''/api/v1/wallet/deposit'' then map_option (\<lambda>q. (''deposit'', acr_currency q, acr_amount q)) (amount_request r)
     else if req_path r = ''/api/v1/wallet/withdraw'' then map_option (\<lambda>q. (''withdraw'', acr_currency q, acr_amount q)) (amount_request r)
     else if req_path r = ''/api/v1/exchange'' then map_option (\<lambda>q. (''exchange'', er_from q, er_amount q)) (exchange_request r)
     else None)"

definition published :: "handler \<Rightarrow> wallet_env \<Rightarrow> int \<Rightarrow> (string \<times> string \<times> float64) option \<Rightarrow> http_response \<Rightarrow> pub_action list" where
  "published h e uid a resp = (case a of
      Some (typ, cur, x) \<Rightarrow> if status resp = 200 then fst (Publish (we_pub e) (hd_publisher h) uid typ cur x) else []
    | None \<Rightarrow> [])"

section \<open>The handlers\<close>

lemma HandleDeposit_kafka:
  assumes "UserIDFromContext r = Some uid"
  shows "ws_kafka (snd (HandleDeposit h e r s)) = ws_kafka s @
    published h e uid (map_option (\<lambda>q. (''deposit'', acr_currency q, acr_amount q)) (amount_request r)) (fst (HandleDeposit h e r s))"
  using assms
  by (simp add: HandleDeposit_def amount_request_def published_def on_db_eq publish_large_def split: option.split sum.split)

lemma HandleWithdraw_kafka:
  assumes "UserIDFromContext r = Some uid"
  shows "ws_kafka (snd (HandleWithdraw h e r s)) = ws_kafka s @
    published h e uid (map_option (\<lambda>q. (''withdraw'', acr_currency q, acr_amount q)) (amount_request r)) (fst (HandleWithdraw h e r s))"
  using assms
  by (simp add: HandleWithdraw_def amount_request_def published_def on_db_eq publish_large_def split: option.split sum.split)

lemma HandleExchange_kafka:
  assumes "UserIDFromContext r = Some uid"
  shows "ws_kafka (snd (HandleExchange h e r s)) = ws_kafka s @
    published h e uid (map_option (\<lambda>q. (''exchange'', er_from q, er_amount q)) (exchange_request r)) (fst (HandleExchange h e r s))"
  using assms
  by (simp add: HandleExchange_def exchange_request_def published_def on_db_eq on_client_eq publish_large_def
      split: option.split sum.split prod.split)

lemma quiet_handlers:
  "ws_kafka (snd (HandleRegister h e r s)) = ws_kafka s" "ws_kafka (snd (HandleLogin h e r s)) = ws_kafka s"
  "ws_kafka (snd (HandleBalance h e r s)) = ws_kafka s" "ws_kafka (snd (HandleHealth h e r s)) = ws_kafka s"
  "ws_kafka (snd (HandleExchangeRates h e r s)) = ws_kafka s"
  by (simp_all add: HandleRegister_def HandleLogin_def HandleBalance_def HandleHealth_def HandleExchangeRates_def
      on_db_eq on_client_eq Let_def split_beta split: option.split sum.split)

section \<open>Runs\<close>

definition token_user :: "handler \<Rightarrow> wallet_env \<Rightarrow> http_request \<Rightarrow> int option" where
  "token_user h e r = (if \<not> has_prefix (req_auth r) bearer then None
     else (case ValidateToken (hd_jwt h) (we_now e) (hd_secret h) (trim_prefix (req_auth r) bearer) of
        Inl _ \<Rightarrow> None | Inr c \<Rightarrow> Some (claim_user c)))"

definition announced :: "handler \<Rightarrow> wallet_env \<Rightarrow> http_request \<Rightarrow> http_response \<Rightarrow> pub_action list" where
  "announced h e r resp = (case token_user h e r of None \<Rightarrow> [] | Some uid \<Rightarrow> published h e uid (announces r) resp)"

text \<open>The record of a run: request by request, the publisher's actions for the operation if it was answered with 200.\<close>

fun audit :: "handler \<Rightarrow> (wallet_env \<times> http_request) list \<Rightarrow> wallet_state \<Rightarrow> pub_action list" where
  "audit h [] s = []"
| "audit h ((e, r) # rs) s = (case route h e r s of (resp, s') \<Rightarrow> announced h e r resp @ audit h rs s')"

lemma published_refused: "status resp \<noteq> 200 \<Longrightarrow> published h e uid a resp = []"
  by (simp add: published_def split: option.split)

lemma protected_kafka:
  assumes "\<And>r uid. UserIDFromContext r = Some uid \<Longrightarrow>
      ws_kafka (snd (f h e r s)) = ws_kafka s @ published h e uid (a r) (fst (f h e r s))"
    and "\<And>i. a (r\<lparr>req_ctx_user := i\<rparr>) = announces r"
  shows "ws_kafka (snd (protected f h e r s)) = ws_kafka s @ announced h e r (fst (protected f h e r s))"
proof (cases "token_user h e r")
  case None
  then have "protected f h e r s = (status_only 401, s)"
    by (auto simp: protected_def AuthMiddleware_def token_user_def Let_def split: if_splits sum.splits)
  then show ?thesis by (simp add: announced_def None)
next
  case (Some uid)
  then obtain c where c: "has_prefix (req_auth r) bearer" "claim_user c = uid"
      "ValidateToken (hd_jwt h) (we_now e) (hd_secret h) (trim_prefix (req_auth r) bearer) = Inr c"
    by (auto simp: token_user_def split: if_splits sum.splits)
  have "req_auth r \<noteq> []" using c(1) by (auto simp: bearer_def)
  then have run: "protected f h e r s = f h e (r\<lparr>req_ctx_user := Some (CtxInt64 uid)\<rparr>) s"
    using c by (simp add: protected_def AuthMiddleware_def Let_def)
  show ?thesis
    using assms(1) [of "r\<lparr>req_ctx_user := Some (CtxInt64 uid)\<rparr>" uid]
    by (simp add: run announced_def UserIDFromContext_def Some assms(2))
qed

lemma protected_quiet:
  "(\<And>r. ws_kafka (snd (f h e r s)) = ws_kafka s) \<Longrightarrow> ws_kafka (snd (protected f h e r s)) = ws_kafka s"
  by (simp add: protected_def AuthMiddleware_def Let_def split: sum.split)

lemma no_announcement: "announces r = None \<Longrightarrow> announced h e r resp = []"
  by (simp add: announced_def published_def split: option.split)

lemma route_kafka: "ws_kafka (snd (route h e r s)) = ws_kafka s @ announced h e r (fst (route h e r s))"
proof -
  consider "req_path r = ''/api/v1/wallet/deposit''" | "req_path r = ''/api/v1/wallet/withdraw''" | "req_path r = ''/api/v1/exchange''"
    | "req_path r \<noteq> ''/api/v1/wallet/deposit''" "req_path r \<noteq> ''/api/v1/wallet/withdraw''" "req_path r \<noteq> ''/api/v1/exchange''"
    by blast
  then show ?thesis
  proof cases
    case 1
    then have "route h e r s = protected HandleDeposit h e r s" by (simp add: route_def)
    moreover have "ws_kafka (snd (protected HandleDeposit h e r s)) = ws_kafka s @ announced h e r (fst (protected HandleDeposit h e r s))"
      using 1 by (intro protected_kafka [OF HandleDeposit_kafka]) (simp_all add: announces_def amount_request_def exchange_request_def)
    ultimately show ?thesis by simp
  next
    case 2
    then have "route h e r s = protected HandleWithdraw h e r s" by (simp add: route_def)
    moreover have "ws_kafka (snd (protected HandleWithdraw h e r s)) = ws_kafka s @ announced h e r (fst (protected HandleWithdraw h e r s))"
      using 2 by (intro protected_kafka [OF HandleWithdraw_kafka]) (simp_all add: announces_def amount_request_def exchange_request_def)
    ultimately show ?thesis by simp
  next
    case 3
    then have "route h e r s = protected HandleExchange h e r s" by (simp add: route_def)
    moreover have "ws_kafka (snd (protected HandleExchange h e r s)) = ws_kafka s @ announced h e r (fst (protected HandleExchange h e r s))"
      using 3 by (intro protected_kafka [OF HandleExchange_kafka]) (simp_all add: announces_def amount_request_def exchange_request_def)
    ultimately show ?thesis by simp
  next
    case 4
    then have "ws_kafka (snd (route h e r s)) = ws_kafka s"
      by (simp add: route_def quiet_handlers protected_quiet)
    then show ?thesis using 4 by (simp add: no_announcement announces_def)
  qed
qed

text \<open>
  C10: What a run of the wallet sends to Kafka is, request by request and in their order, exactly what the
  publisher does for the deposits, withdrawals and exchanges that were answered with 200, each with the user of
  its token, the kind, the currency and the amount of its request; a refused or failed operation sends nothing.
\<close>

theorem kafka_records_successes: "ws_kafka (serve h rs s) = ws_kafka s @ audit h rs s"
proof (induction rs arbitrary: s)
  case (Cons er rs)
  obtain e r where er: "er = (e, r)" by fastforce
  show ?case
    using Cons.IH [of "snd (route h e r s)"] by (simp add: er route_kafka split_beta)
qed simp

end
