(* ===== verification/Registration_Concurrency.thy ===== *)
theory Registration_Concurrency
  imports Wallet_Demo
begin

text \<open>
  Any number of registrations at the same time: \<^verbatim>\<open>HandleRegister\<close> sends five statements, each its own transaction,
  and those of different requests interleave freely. A statement may fail at any time, with or without effect.
\<close>

section \<open>Steps\<close>

record registration =
  reg_name :: string
  reg_mail :: string
  reg_hash :: string

text \<open>
  Where a request is: before its first statement, with its user, with its wallet and the balances to come, or
  answered with 201 or an error status.
\<close>

datatype reg_pc = Start | HasUser int | HasWallet int int "string list" | Registered int int | Refused nat

record reg_state =
  r_db :: db
  r_pc :: "nat \<Rightarrow> reg_pc"

text \<open>The next statement of a request, and where it leaves the request.\<close>

definition reg_next :: "registration \<Rightarrow> reg_pc \<Rightarrow> db \<Rightarrow> reg_pc \<times> db" where
  "reg_next q pc d = (case pc of
      Start \<Rightarrow> (case CreateUser (reg_name q) (reg_mail q) (reg_hash q) d of
          (Inl err, d') \<Rightarrow> (Refused (if err = ErrUserExists then 409 else 500), d')
        | (Inr u, d') \<Rightarrow> (HasUser u, d'))
    | HasUser u \<Rightarrow> (case CreateWalletForUser u d of
          (Inl err, d') \<Rightarrow> (Refused 500, d')
        | (Inr w, d') \<Rightarrow> (HasWallet u w supportedCurrencies, d'))
    | HasWallet u w [] \<Rightarrow> (Registered u w, d)
    | HasWallet u w (c # cs) \<Rightarrow> (case create_balances w [c] d of
          (Inl err, d') \<Rightarrow> (Refused 500, d')
        | (Inr _, d') \<Rightarrow> (HasWallet u w cs, d'))
    | pc \<Rightarrow> (pc, d))"

inductive reg_step :: "(nat \<Rightarrow> registration) \<Rightarrow> reg_state \<Rightarrow> reg_state \<Rightarrow> bool" for R where
  statement: "reg_next (R i) (r_pc s i) (r_db s) = (pc, d) \<Longrightarrow> reg_step R s \<lparr>r_db = d, r_pc = (r_pc s)(i := pc)\<rparr>"
| outage: "reg_step R s (s\<lparr>r_db := (r_db s)\<lparr>faults := fs\<rparr>\<rparr>)"

section \<open>One request alone is HandleRegister\<close>

fun reg_alone :: "nat \<Rightarrow> registration \<Rightarrow> reg_pc \<Rightarrow> db \<Rightarrow> reg_pc \<times> db" where
  "reg_alone 0 q pc d = (pc, d)"
| "reg_alone (Suc n) q pc d = (case reg_next q pc d of (pc', d') \<Rightarrow> reg_alone n q pc' d')"

fun reg_status :: "reg_pc \<Rightarrow> nat" where
  "reg_status (Registered u w) = 201"
| "reg_status (Refused n) = n"
| "reg_status _ = 0"

lemma reg_alone_answered: "reg_alone n q (Refused k) d = (Refused k, d)" "reg_alone n q (Registered u w) d = (Registered u w, d)"
  by (induction n) (simp_all add: reg_next_def)

lemma reg_alone_balances:
  "reg_alone (Suc (length cs)) q (HasWallet u w cs) d = (case create_balances w cs d of
      (Inl _, d') \<Rightarrow> (Refused 500, d') | (Inr _, d') \<Rightarrow> (Registered u w, d'))"
proof (induction cs arbitrary: d)
  case (Cons c cs)
  obtain x d' where one: "run_stmt (insert_balance w c) d = (x, d')" by fastforce
  show ?case
  proof (cases x)
    case (Inl e)
    then show ?thesis by (simp add: reg_next_def one reg_alone_answered)
  next
    case (Inr y)
    then show ?thesis using Cons.IH [of d'] by (simp add: reg_next_def one)
  qed
qed (simp add: reg_next_def)

lemma HandleRegister_statements:
  assumes "req_method r = ''POST''" and "register_request r = Some q" and "register_accepts q"
    and "HashPassword (hd_bcrypt h) (rr_password q) = Some hash"
    and "reg_alone 6 \<lparr>reg_name = rr_username q, reg_mail = rr_email q, reg_hash = hash\<rparr> Start (ws_db s) = (pc, d)"
  shows "status (fst (HandleRegister h e r s)) = reg_status pc" and "ws_db (snd (HandleRegister h e r s)) = d"
proof -
  have six: "6 = Suc (Suc (Suc (length supportedCurrencies)))" by (simp add: supportedCurrencies_def)
  let ?q = "\<lparr>reg_name = rr_username q, reg_mail = rr_email q, reg_hash = hash\<rparr>"
  obtain x1 d1 where c1: "CreateUser (rr_username q) (rr_email q) hash (ws_db s) = (x1, d1)" by fastforce
  have "status (fst (HandleRegister h e r s)) = reg_status pc \<and> ws_db (snd (HandleRegister h e r s)) = d"
  proof (cases x1)
    case (Inl err)
    then show ?thesis
      using assms(5) by (auto simp: six reg_next_def c1 reg_alone_answered HandleRegister_accepted [OF assms(1-4)] on_db_eq)
  next
    case (Inr u)
    obtain x2 d2 where c2: "CreateWalletForUser u d1 = (x2, d2)" by fastforce
    show ?thesis
    proof (cases x2)
      case (Inl err)
      then show ?thesis
        using assms(5) Inr by (auto simp: six reg_next_def c1 c2 reg_alone_answered HandleRegister_accepted [OF assms(1-4)] on_db_eq)
    next
      case w: (Inr w)
      have "reg_alone 6 ?q Start (ws_db s) = reg_alone (Suc (length supportedCurrencies)) ?q (HasWallet u w supportedCurrencies) d2"
        unfolding six by (simp only: reg_alone.simps) (simp add: reg_next_def c1 c2 Inr w)
      then have "(pc, d) = (case create_balances w supportedCurrencies d2 of
          (Inl _, d') \<Rightarrow> (Refused 500, d') | (Inr _, d') \<Rightarrow> (Registered u w, d'))"
        using assms(5) by (simp only: reg_alone_balances)
      then show ?thesis
        using Inr w by (simp add: c1 c2 HandleRegister_accepted [OF assms(1-4)] on_db_eq
            CreateBalancesForWallet_def split: prod.splits sum.splits)
    qed
  qed
  then show "status (fst (HandleRegister h e r s)) = reg_status pc" and "ws_db (snd (HandleRegister h e r s)) = d" by simp_all
qed

section \<open>What a statement leaves alone\<close>

abbreviation user_row_of :: "registration \<Rightarrow> int \<Rightarrow> user_row" where
  "user_row_of q u \<equiv> \<lparr>user_id = u, username = reg_name q, email = reg_mail q, password_hash = reg_hash q\<rparr>"

abbreviation wallet_row_of :: "int \<Rightarrow> int \<Rightarrow> wallet_row" where
  "wallet_row_of w u \<equiv> \<lparr>wallet_id = w, wallet_user = u\<rparr>"

abbreviation zero_row :: "int \<Rightarrow> string \<Rightarrow> balance_row" where
  "zero_row w c \<equiv> \<lparr>bal_wallet = w, bal_currency = c, bal_amount = Num 0\<rparr>"

lemma CreateUser_effect:
  assumes "CreateUser n m h d = (x, d')"
  shows "wallets d' = wallets d" and "balances d' = balances d" and "set (users d) \<subseteq> set (users d')"
    and "x = Inr u \<Longrightarrow> u = user_seq d \<and> \<lparr>user_id = u, username = n, email = m, password_hash = h\<rparr> \<in> set (users d')"
    and "x = Inl ErrUserExists \<Longrightarrow> \<exists>v \<in> set (users d'). username v = n \<or> email v = m"
  using assms
  by (auto simp: CreateUser_def run_stmt_def insert_user_def Let_def isUniqueViolation_def list_ex_iff
      split: list.splits fault.splits if_splits)

lemma CreateWalletForUser_effect:
  assumes "CreateWalletForUser u d = (x, d')"
  shows "users d' = users d" and "balances d' = balances d"
    and "\<exists>ws. wallets d' = wallets d @ ws \<and> (\<forall>r \<in> set ws. wallet_user r = u)"
    and "x = Inr w \<Longrightarrow> w = wallet_seq d \<and> wallet_row_of w u \<in> set (wallets d')"
  using assms
  by (auto simp: CreateWalletForUser_def run_stmt_def insert_wallet_def Let_def
      split: list.splits fault.splits if_splits)

lemma create_balance_effect:
  assumes "create_balances w [c] d = (x, d')"
  shows "users d' = users d" and "wallets d' = wallets d"
    and "w' \<noteq> w \<Longrightarrow> wallet_rows w' d' = wallet_rows w' d"
    and "x = Inr y \<Longrightarrow> wallet_rows w d' = wallet_rows w d @ [zero_row w c]"
  using assms
  by (auto simp: wallet_rows_def run_stmt_def insert_balance_def
      split: list.splits fault.splits if_splits prod.splits sum.splits)

lemma reg_next_ok: "db_ok d \<Longrightarrow> db_ok (snd (reg_next q pc d))"
  using schema.CreateUser_keeps [of d "reg_name q" "reg_mail q" "reg_hash q"] schema.CreateWalletForUser_keeps [of d]
    schema.create_balances_keeps [of d]
  by (auto simp: reg_next_def split: reg_pc.split list.split prod.splits sum.splits simp del: create_balances.simps)
    (metis snd_conv)+

section \<open>What each request owns\<close>

fun holder :: "reg_pc \<Rightarrow> int option" where
  "holder (HasUser u) = Some u"
| "holder (HasWallet u w cs) = Some u"
| "holder (Registered u w) = Some u"
| "holder _ = None"

fun owns :: "registration \<Rightarrow> reg_pc \<Rightarrow> db \<Rightarrow> bool" where
  "owns q Start d \<longleftrightarrow> True"
| "owns q (HasUser u) d \<longleftrightarrow> user_row_of q u \<in> set (users d) \<and> (\<forall>r \<in> set (wallets d). wallet_user r \<noteq> u)"
| "owns q (HasWallet u w cs) d \<longleftrightarrow> user_row_of q u \<in> set (users d) \<and> wallet_row_of w u \<in> set (wallets d) \<and>
     (\<exists>ds. supportedCurrencies = ds @ cs \<and> wallet_rows w d = map (zero_row w) ds)"
| "owns q (Registered u w) d \<longleftrightarrow> user_row_of q u \<in> set (users d) \<and> wallet_row_of w u \<in> set (wallets d) \<and>
     wallet_rows w d = map (zero_row w) supportedCurrencies"
| "owns q (Refused n) d \<longleftrightarrow> (n = 409 \<longrightarrow> (\<exists>v \<in> set (users d). username v = reg_name q \<or> email v = reg_mail q))"

lemma owns_faults [simp]: "owns q pc (d\<lparr>faults := fs\<rparr>) = owns q pc d"
  by (cases pc) simp_all

lemma wallet_of_one_user:
  "db_ok d \<Longrightarrow> wallet_row_of w u \<in> set (wallets d) \<Longrightarrow> wallet_row_of w u' \<in> set (wallets d) \<Longrightarrow> u = u'"
  using inj_onD [of wallet_id "set (wallets d)" "wallet_row_of w u" "wallet_row_of w u'"]
  by (auto simp: ok_defs distinct_map)

lemma one_user_per_name:
  assumes "db_ok d" and "user_row_of q u \<in> set (users d)" and "user_row_of q' u' \<in> set (users d)"
    and "reg_name q = reg_name q' \<or> reg_mail q = reg_mail q'"
  shows "u = u'"
proof -
  have inj: "inj_on username (set (users d))" "inj_on email (set (users d))"
    using assms(1) by (simp_all add: ok_defs distinct_map)
  from assms(4) have "user_row_of q u = user_row_of q' u'"
    using inj_onD [OF inj(1) _ assms(2,3)] inj_onD [OF inj(2) _ assms(2,3)] by fastforce
  then show ?thesis by simp
qed

text \<open>A request keeps what it owns when another one, for another user, takes a step.\<close>

lemma owns_other:
  assumes "owns q pc d" and "reg_next q' pc' d = (pc'', d')" and "owns q' pc' d" and "db_ok d"
    and "\<And>u. holder pc = Some u \<Longrightarrow> holder pc' \<noteq> Some u"
  shows "owns q pc d'"
proof (cases pc')
  case Start
  then obtain x where "CreateUser (reg_name q') (reg_mail q') (reg_hash q') d = (x, d')"
    using assms(2) by (auto simp: reg_next_def split: prod.splits sum.splits)
  from CreateUser_effect(1-3) [OF this] show ?thesis using assms(1) by (cases pc) (auto simp: wallet_rows_def)
next
  case (HasUser u)
  then obtain x where "CreateWalletForUser u d = (x, d')"
    using assms(2) by (auto simp: reg_next_def split: prod.splits sum.splits)
  note eff = CreateWalletForUser_effect(1-3) [OF this]
  show ?thesis using assms(1,5) HasUser eff by (cases pc) (auto simp: wallet_rows_def)
next
  case (HasWallet u w cs)
  show ?thesis
  proof (cases cs)
    case Nil
    then show ?thesis using assms(1,2) HasWallet by (simp add: reg_next_def)
  next
    case (Cons c cs')
    then obtain x where "create_balances w [c] d = (x, d')"
      using assms(2) HasWallet by (auto simp: reg_next_def simp del: create_balances.simps split: prod.splits sum.splits)
    note eff = create_balance_effect(1-3) [OF this]
    have "wallet_rows w' d' = wallet_rows w' d" if "wallet_row_of w' u' \<in> set (wallets d)" "u \<noteq> u'" for w' u'
      by (rule eff(3)) (use wallet_of_one_user [OF assms(4), of w u u'] assms(3) HasWallet that in auto)
    then show ?thesis using assms(1,5) HasWallet eff(1,2) by (cases pc) auto
  qed
qed (use assms(1,2) in \<open>auto simp: reg_next_def\<close>)

text \<open>A request's own step leads to what it owns next, for the same user or a new one.\<close>

lemma no_rows_yet: "db_ok d \<Longrightarrow> wallet_rows (wallet_seq d) d = []"
  using no_balances_yet [of d] by (auto simp: wallet_rows_def filter_empty_conv)

lemma no_wallet_of_new_user: "db_ok d \<Longrightarrow> r \<in> set (wallets d) \<Longrightarrow> wallet_user r \<noteq> user_seq d"
  by (force simp: ok_defs)

lemma owns_next:
  assumes "owns q pc d" and "reg_next q pc d = (pc', d')" and "db_ok d"
  shows "owns q pc' d'" and "holder pc' = Some u \<Longrightarrow> holder pc = Some u \<or> u = user_seq d"
proof -
  have "owns q pc' d' \<and> (holder pc' = Some u \<longrightarrow> holder pc = Some u \<or> u = user_seq d)"
  proof (cases pc)
    case Start
    obtain x d1 where c: "CreateUser (reg_name q) (reg_mail q) (reg_hash q) d = (x, d1)" by fastforce
    note eff = CreateUser_effect [OF c]
    show ?thesis
      using assms(2) c eff no_wallet_of_new_user [OF assms(3)] by (cases x) (auto simp: Start reg_next_def)
  next
    case (HasUser v)
    obtain x d1 where c: "CreateWalletForUser v d = (x, d1)" by fastforce
    note eff = CreateWalletForUser_effect [OF c]
    show ?thesis
      using assms(1,2) c eff no_rows_yet [OF assms(3)]
      by (cases x) (auto simp: HasUser reg_next_def wallet_rows_def)
  next
    case (HasWallet v w cs)
    show ?thesis
    proof (cases cs)
      case Nil
      then show ?thesis using assms(1,2) by (auto simp: HasWallet reg_next_def)
    next
      case (Cons c cs')
      obtain x d1 where c: "create_balances w [c] d = (x, d1)" by fastforce
      note eff = create_balance_effect [OF c]
      obtain ds where "supportedCurrencies = ds @ c # cs'" "wallet_rows w d = map (zero_row w) ds"
        using assms(1) by (auto simp: HasWallet Cons)
      then have "x = Inr y \<Longrightarrow> supportedCurrencies = (ds @ [c]) @ cs' \<and> wallet_rows w d1 = map (zero_row w) (ds @ [c])" for y
        using eff(4) by simp
      then have "x = Inr y \<Longrightarrow> \<exists>ds. supportedCurrencies = ds @ cs' \<and> wallet_rows w d1 = map (zero_row w) ds" for y by blast
      then show ?thesis
        using assms(1,2) c eff(1,2) by (cases x) (auto simp: HasWallet Cons reg_next_def simp del: create_balances.simps)
    qed
  qed (use assms(1,2) in \<open>auto simp: reg_next_def\<close>)
  then show "owns q pc' d'" and "holder pc' = Some u \<Longrightarrow> holder pc = Some u \<or> u = user_seq d" by blast+
qed

section \<open>The invariant\<close>

definition reg_inv :: "(nat \<Rightarrow> registration) \<Rightarrow> reg_state \<Rightarrow> bool" where
  "reg_inv R s \<longleftrightarrow> db_ok (r_db s) \<and> (\<forall>i. owns (R i) (r_pc s i) (r_db s)) \<and>
     (\<forall>i j u. holder (r_pc s i) = Some u \<longrightarrow> holder (r_pc s j) = Some u \<longrightarrow> i = j)"

lemma holder_old: "owns q pc d \<Longrightarrow> db_ok d \<Longrightarrow> holder pc = Some u \<Longrightarrow> u < user_seq d"
  by (cases pc) (force simp: ok_defs)+

lemma reg_step_inv:
  assumes "reg_step R s s'" and "reg_inv R s"
  shows "reg_inv R s'"
  using assms(1)
proof cases
  case (statement i pc d)
  have ok: "db_ok (r_db s)" and own: "\<And>j. owns (R j) (r_pc s j) (r_db s)"
    and one: "\<And>j k u. holder (r_pc s j) = Some u \<Longrightarrow> holder (r_pc s k) = Some u \<Longrightarrow> j = k"
    using assms(2) by (auto simp: reg_inv_def)
  note next_i = owns_next [OF own statement(2) ok]
  have others: "owns (R j) (r_pc s j) d" if "j \<noteq> i" for j
    by (rule owns_other [OF own statement(2) own ok]) (use one that in blast)
  have new: "holder (r_pc s j) \<noteq> Some u" if "holder pc = Some u" "j \<noteq> i" for j u
    using next_i(2) [OF that(1)] one that(2) holder_old [OF own ok, of j] by blast
  have "db_ok d" using reg_next_ok [OF ok, of "R i" "r_pc s i"] statement(2) by simp
  then show ?thesis
    using statement(1) next_i(1) others new one by (auto simp: reg_inv_def)
next
  case (outage fs)
  then show ?thesis using assms(2) by (auto simp: reg_inv_def ok_defs)
qed

lemma reachable_inv:
  assumes "(reg_step R)\<^sup>*\<^sup>* \<lparr>r_db = d, r_pc = \<lambda>_. Start\<rparr> s" and "db_ok d"
  shows "reg_inv R s"
proof -
  have "reg_inv R \<lparr>r_db = d, r_pc = \<lambda>_. Start\<rparr>" using assms(2) by (simp add: reg_inv_def)
  from assms(1) this show ?thesis by (induction rule: rtranclp_induct) (blast intro: reg_step_inv)+
qed

text \<open>
  C8: However registrations overlap and whichever statements fail: each request answered with 201 has a user
  with its name, address and hash, and that user a wallet with a zero balance in every supported currency; no
  two such requests share a name, an address or a wallet; and a request is answered 409 only when its name or
  its address is taken.
\<close>

theorem overlapping_registrations_separate:
  assumes "(reg_step R)\<^sup>*\<^sup>* \<lparr>r_db = d, r_pc = \<lambda>_. Start\<rparr> s" and "db_ok d"
  shows "(\<forall>i u w. r_pc s i = Registered u w \<longrightarrow> user_row_of (R i) u \<in> set (users (r_db s)) \<and>
       wallet_of (r_db s) u = Some w \<and> wallet_rows w (r_db s) = map (zero_row w) supportedCurrencies) \<and>
    (\<forall>i j u u' w w'. i \<noteq> j \<longrightarrow> r_pc s i = Registered u w \<longrightarrow> r_pc s j = Registered u' w' \<longrightarrow>
       reg_name (R i) \<noteq> reg_name (R j) \<and> reg_mail (R i) \<noteq> reg_mail (R j) \<and> w \<noteq> w') \<and>
    (\<forall>i. r_pc s i = Refused 409 \<longrightarrow>
       (\<exists>v \<in> set (users (r_db s)). username v = reg_name (R i) \<or> email v = reg_mail (R i)))"
proof -
  let ?d = "r_db s"
  have ok: "db_ok ?d" and own: "\<And>i. owns (R i) (r_pc s i) ?d"
    and one: "\<And>i j u. holder (r_pc s i) = Some u \<Longrightarrow> holder (r_pc s j) = Some u \<Longrightarrow> i = j"
    using reachable_inv [OF assms] by (auto simp: reg_inv_def)
  have wallet: "wallet_of ?d u = Some w" if "wallet_row_of w u \<in> set (wallets ?d)" for u w
    using find_distinct_key [of wallet_user "wallets ?d" "wallet_row_of w u"] ok that by (simp add: wallet_of_def ok_defs)
  have reg: "user_row_of (R i) u \<in> set (users ?d)" "wallet_row_of w u \<in> set (wallets ?d)"
      "wallet_rows w ?d = map (zero_row w) supportedCurrencies" if "r_pc s i = Registered u w" for i u w
    using own [of i] that by simp_all
  have apart: "reg_name (R i) \<noteq> reg_name (R j) \<and> reg_mail (R i) \<noteq> reg_mail (R j) \<and> w \<noteq> w'"
    if "i \<noteq> j" and ri: "r_pc s i = Registered u w" and rj: "r_pc s j = Registered u' w'" for i j u u' w w'
  proof -
    have "u \<noteq> u'" using one [of i u j] that by auto
    then show ?thesis
      using one_user_per_name [OF ok reg(1) [OF ri] reg(1) [OF rj]] wallet_of_one_user [OF ok, of w u u'] reg(2) [OF ri] reg(2) [OF rj] by blast
  qed
  have taken: "\<exists>v \<in> set (users ?d). username v = reg_name (R i) \<or> email v = reg_mail (R i)" if "r_pc s i = Refused 409" for i
    using own [of i] that by simp
  have account: "user_row_of (R i) u \<in> set (users ?d) \<and> wallet_of ?d u = Some w \<and>
      wallet_rows w ?d = map (zero_row w) supportedCurrencies" if "r_pc s i = Registered u w" for i u w
    using reg [OF that] wallet [OF reg(2) [OF that]] by blast
  show ?thesis by (rule conjI [OF _ conjI]; intro allI impI) (erule account, rule apart, assumption+, erule taken)
qed

text \<open>A schedule, and what two requests for one name come to under it.\<close>

definition reg_exec :: "(nat \<Rightarrow> registration) \<Rightarrow> nat \<Rightarrow> reg_state \<Rightarrow> reg_state" where
  "reg_exec R i s = (case reg_next (R i) (r_pc s i) (r_db s) of (pc, d) \<Rightarrow> \<lparr>r_db = d, r_pc = (r_pc s)(i := pc)\<rparr>)"

lemma reg_exec_steps: "(reg_step R)\<^sup>*\<^sup>* s (fold (reg_exec R) is s)"
proof (induction "is" arbitrary: s)
  case (Cons i "is")
  have "reg_step R s (reg_exec R i s)" by (auto simp: reg_exec_def intro: reg_step.statement split: prod.split)
  then show ?case using Cons [of "reg_exec R i s"] by (simp add: converse_rtranclp_into_rtranclp)
qed simp

definition demo_rivals :: "nat \<Rightarrow> registration" where
  "demo_rivals i = \<lparr>reg_name = ''a'', reg_mail = (if i = 0 then ''m'' else ''n''), reg_hash = ''h''\<rparr>"

definition demo_race :: reg_state where
  "demo_race = fold (reg_exec demo_rivals) [0, 1, 0, 0, 0, 0, 0] \<lparr>r_db = empty_db, r_pc = \<lambda>_. Start\<rparr>"

lemma demo_race_ends: "r_pc demo_race 0 = Registered 1 1" "r_pc demo_race 1 = Refused 409"
  by (simp_all add: demo_race_def reg_exec_def reg_next_def demo_rivals_def CreateUser_def insert_user_def
      CreateWalletForUser_def insert_wallet_def insert_balance_def chk_currency_def bal_key_def supportedCurrencies_def
      empty_db_def max_bigint_def isUniqueViolation_def Let_def)

theorem overlapping_registrations_separate_witness:
  "r_pc demo_race 0 = Registered 1 1 \<and> wallet_rows 1 (r_db demo_race) = map (zero_row 1) supportedCurrencies \<and>
   r_pc demo_race 1 = Refused 409 \<and> (\<exists>v \<in> set (users (r_db demo_race)). username v = ''a'' \<or> email v = ''n'')"
proof -
  have run: "(reg_step demo_rivals)\<^sup>*\<^sup>* \<lparr>r_db = empty_db, r_pc = \<lambda>_. Start\<rparr> demo_race"
    unfolding demo_race_def by (rule reg_exec_steps)
  note all = overlapping_registrations_separate [OF run db_ok_empty]
  have "wallet_rows 1 (r_db demo_race) = map (zero_row 1) supportedCurrencies"
    using all demo_race_ends(1) by blast
  moreover have "\<exists>v \<in> set (users (r_db demo_race)). username v = ''a'' \<or> email v = ''n''"
    using all [THEN conjunct2, THEN conjunct2, rule_format, OF demo_race_ends(2)] by (simp add: demo_rivals_def)
  ultimately show ?thesis using demo_race_ends by blast
qed

end
