(* ===== verification/Aggregator_Concurrency.thy ===== *)
theory Aggregator_Concurrency
  imports Aggregator_Properties "HOL-Library.Multiset"
begin

text \<open>
  The aggregator's three goroutines, \<^verbatim>\<open>Run\<close>, \<^verbatim>\<open>flushLoop\<close> and the main one in \<^verbatim>\<open>Close\<close>, step by step: all may be
  inside \<^verbatim>\<open>flush\<close> at the same time, between taking the batch, each attempt of the insert, putting the batch
  back and the commit. The buffer's operations are atomic (its mutex). Reporting an invalid message is one step:
  no other goroutine reads what it writes.
\<close>

section \<open>Steps\<close>

text \<open>The goroutines \<^verbatim>\<open>Run\<close>, \<^verbatim>\<open>flushLoop\<close> and \<^verbatim>\<open>Close\<close>, and where each is.\<close>

datatype worker = Runner | Flusher | Closer

datatype flight = Idle | Wanting | Inserting "buffered list" nat | Committing "buffered list" | Reporting kafka_msg | Gone

text \<open>
  Besides the consumer and the goroutines: whether the context is cancelled, the rows of the accepted messages,
  and the rows written by attempts that reported a failure.
\<close>

record agg_state =
  a_consumer :: consumer
  a_flight :: "worker \<Rightarrow> flight"
  a_cancelled :: bool
  a_accepted :: "page_view_row list"
  a_extra :: "page_view_row list"

definition go :: "worker \<Rightarrow> flight \<Rightarrow> consumer \<Rightarrow> agg_state \<Rightarrow> agg_state" where
  "go w k c s = s\<lparr>a_consumer := c, a_flight := (a_flight s)(w := k)\<rparr>"

definition consumed :: "consumer \<Rightarrow> consumer" where
  "consumed c = c\<lparr>c_metrics := RecordConsumed (c_metrics c)\<rparr>"

definition give_back :: "buffered list \<Rightarrow> consumer \<Rightarrow> consumer" where
  "give_back ms c = c\<lparr>c_metrics := RecordCHError (c_metrics c), c_buffer := buf_PutBack ms (c_buffer c)\<rparr>"

definition commit_batch :: "bool \<Rightarrow> int \<Rightarrow> buffered list \<Rightarrow> consumer \<Rightarrow> consumer" where
  "commit_batch ok now ms c = (if \<not> ok then CommitMessages False (map fst ms) c
     else (let c' = CommitMessages True (map fst ms) c
       in c'\<lparr>c_metrics := RecordFlush now (RecordInserted (int (length ms)) (c_metrics c'))\<rparr>))"

inductive agg_step :: "agg_state \<Rightarrow> agg_state \<Rightarrow> bool" where
  fetch_valid: "a_flight s Runner = Idle \<Longrightarrow> parseAndValidate (msg_value m) = Inr ev \<Longrightarrow>
    row = ConvertEventToRow now ev (msg_offset m) (msg_partition m) \<Longrightarrow>
    buf_Add (m, row) (c_buffer (a_consumer s)) = (full, b) \<Longrightarrow>
    agg_step s ((go Runner (if full then Wanting else Idle) ((consumed (a_consumer s))\<lparr>c_buffer := b\<rparr>) s)
      \<lparr>a_accepted := a_accepted s @ [row]\<rparr>)"
| fetch_invalid: "a_flight s Runner = Idle \<Longrightarrow> parseAndValidate (msg_value m) = Inl reason \<Longrightarrow>
    error_rounds rs m reason (consumed (a_consumer s)) = (ok, c) \<Longrightarrow>
    agg_step s (go Runner (if ok then Reporting m else Gone) c s)"
| report: "a_flight s Runner = Reporting m \<Longrightarrow> agg_step s (go Runner Idle (CommitMessages ok [m] (a_consumer s)) s)"
| tick: "a_flight s Flusher = Idle \<Longrightarrow> buf_ticker (c_buffer (a_consumer s)) \<Longrightarrow>
    agg_step s (go Flusher Wanting (a_consumer s) s)"
| signal: "a_flight s Flusher = Idle \<Longrightarrow> buf_ticker (c_buffer (a_consumer s)) \<Longrightarrow> buf_signal (c_buffer (a_consumer s)) \<Longrightarrow>
    agg_step s (go Flusher Wanting ((a_consumer s)\<lparr>c_buffer := (c_buffer (a_consumer s))\<lparr>buf_signal := False\<rparr>\<rparr>) s)"
| take: "a_flight s w = Wanting \<Longrightarrow> flush_take (a_consumer s) = (ms, c) \<Longrightarrow>
    agg_step s (go w (if ms = [] then Idle else Inserting ms 0) c s)"
| insert: "a_flight s w = Inserting ms k \<Longrightarrow> k < insert_max_attempts \<Longrightarrow>
    InsertRawBatch out (map snd ms) (a_consumer s) = (ok, c) \<Longrightarrow>
    agg_step s ((go w (if ok then Committing ms else Inserting ms (k + 1)) c s)
      \<lparr>a_extra := a_extra s @ (if out = FailedAfter then map snd ms else [])\<rparr>)"
| give_up: "a_flight s w = Inserting ms k \<Longrightarrow> k = insert_max_attempts \<or> 0 < k \<and> a_cancelled s \<and> w \<noteq> Closer \<Longrightarrow>
    agg_step s (go w Idle (give_back ms (a_consumer s)) s)"
| commit: "a_flight s w = Committing ms \<Longrightarrow> agg_step s (go w Idle (commit_batch ok now ms (a_consumer s)) s)"
| cancel: "agg_step s (s\<lparr>a_cancelled := True\<rparr>)"
| close: "a_cancelled s \<Longrightarrow> a_flight s Closer = Idle \<Longrightarrow> agg_step s (go Closer Wanting (a_consumer s) s)"

definition agg_init :: "consumer \<Rightarrow> agg_state" where
  "agg_init c = \<lparr>a_consumer = c, a_flight = (\<lambda>_. Idle), a_cancelled = False, a_accepted = map snd (buf_messages (c_buffer c)) @ c_table c,
     a_extra = []\<rparr>"

section \<open>The balance of rows\<close>

definition in_flight :: "flight \<Rightarrow> page_view_row multiset" where
  "in_flight k = (case k of Inserting ms _ \<Rightarrow> mset (map snd ms) | _ \<Rightarrow> {#})"

definition pending :: "agg_state \<Rightarrow> page_view_row multiset" where
  "pending s = mset (map snd (buf_messages (c_buffer (a_consumer s)))) + in_flight (a_flight s Runner) +
     in_flight (a_flight s Flusher) + in_flight (a_flight s Closer)"

definition balanced :: "agg_state \<Rightarrow> bool" where
  "balanced s \<longleftrightarrow> mset (c_table (a_consumer s)) + pending s = mset (a_accepted s) + mset (a_extra s)"

lemma in_flight_simps [simp]:
  "in_flight Idle = {#}" "in_flight Wanting = {#}" "in_flight (Inserting ms k) = mset (map snd ms)"
  "in_flight (Committing ms) = {#}" "in_flight (Reporting m) = {#}" "in_flight Gone = {#}"
  by (simp_all add: in_flight_def)

lemma go_sel [simp]:
  "a_consumer (go w k c s) = c" "a_flight (go w k c s) = (a_flight s)(w := k)"
  "a_cancelled (go w k c s) = a_cancelled s" "a_accepted (go w k c s) = a_accepted s" "a_extra (go w k c s) = a_extra s"
  by (simp_all add: go_def)

text \<open>What goes into one goroutine's hands, the buffer and the table together is all that matters.\<close>

definition near :: "flight \<Rightarrow> consumer \<Rightarrow> page_view_row multiset" where
  "near k c = mset (c_table c) + mset (map snd (buf_messages (c_buffer c))) + in_flight k"

definition others :: "worker \<Rightarrow> (worker \<Rightarrow> flight) \<Rightarrow> page_view_row multiset" where
  "others w f = (case w of Runner \<Rightarrow> in_flight (f Flusher) + in_flight (f Closer)
     | Flusher \<Rightarrow> in_flight (f Runner) + in_flight (f Closer) | Closer \<Rightarrow> in_flight (f Runner) + in_flight (f Flusher))"

lemma others_upd [simp]: "others w (f(w := k)) = others w f"
  by (cases w) (simp_all add: others_def)

lemma balanced_near:
  "balanced s \<longleftrightarrow> near (a_flight s w) (a_consumer s) + others w (a_flight s) = mset (a_accepted s) + mset (a_extra s)"
  by (cases w) (simp_all add: balanced_def near_def pending_def others_def ac_simps)

lemma balanced_go_more:
  assumes "balanced s" and "near k c = near (a_flight s w) (a_consumer s) + mset acc + mset ext"
    and "a_consumer s' = c" "a_flight s' = (a_flight s)(w := k)"
    and "a_accepted s' = a_accepted s @ acc" "a_extra s' = a_extra s @ ext"
  shows "balanced s'"
proof -
  have "near k c + others w (a_flight s) =
      (near (a_flight s w) (a_consumer s) + others w (a_flight s)) + (mset acc + mset ext)"
    by (simp add: assms(2) ac_simps)
  also have "\<dots> = mset (a_accepted s @ acc) + mset (a_extra s @ ext)"
    using assms(1) by (simp add: balanced_near [of s w] ac_simps)
  finally show ?thesis unfolding balanced_near [of s' w] by (simp add: assms(3-6))
qed

lemma balanced_go:
  assumes "balanced s" and "near k c = near (a_flight s w) (a_consumer s)"
  shows "balanced (go w k c s)"
  by (rule balanced_go_more [OF assms(1), where w = w and k = k and c = c and acc = "[]" and ext = "[]"])
    (simp_all add: assms(2))

text \<open>What the operations do to the rows.\<close>

lemma error_rounds_near:
  "error_rounds rs m reason c = (ok, c') \<Longrightarrow> c_table c' = c_table c \<and> c_buffer c' = c_buffer c"
  using error_rounds_spec [of rs m reason c] by simp

lemma consumed_sel [simp]: "c_table (consumed c) = c_table c" "c_buffer (consumed c) = c_buffer c"
  by (simp_all add: consumed_def)

lemma near_commit [simp]: "near k (CommitMessages ok ms c) = near k c"
  by (simp add: near_def CommitMessages_def)

lemma near_commit_batch [simp]: "near k (commit_batch ok now ms c) = near k c"
  by (simp add: near_def commit_batch_def CommitMessages_def Let_def)

lemma near_give_back: "near Idle (give_back ms c) = near (Inserting ms k) c"
  by (simp add: near_def give_back_def buf_PutBack_def ac_simps)

lemma near_take:
  "flush_take c = (ms, c') \<Longrightarrow> near (if ms = [] then Idle else Inserting ms 0) c' = near Wanting c"
  by (auto simp: near_def flush_take_def buf_GetAndClear_def split: if_splits)

lemma near_insert:
  "InsertRawBatch out (map snd ms) c = (ok, c') \<Longrightarrow>
    near (if ok then Committing ms else Inserting ms (k + 1)) c' =
    near (Inserting ms k) c + mset (if out = FailedAfter then map snd ms else [])"
  by (cases out) (auto simp: InsertRawBatch_def near_def Let_def ac_simps)

lemma near_add:
  assumes "buf_Add (m, row) (c_buffer c) = (full, b)"
  shows "near k ((consumed c)\<lparr>c_buffer := b\<rparr>) = near k c + {#row#}"
  using assms by (auto simp: near_def buf_Add_def Let_def ac_simps)

lemma near_no_rows: "in_flight k = {#} \<Longrightarrow> near k c = near Idle c"
  by (simp add: near_def)

lemma agg_step_balanced:
  assumes "agg_step s s'" and "balanced s"
  shows "balanced s'"
  using assms(1)
proof (cases rule: agg_step.cases)
  case (fetch_valid m ev row now full b)
  have "near (if full then Wanting else Idle) ((consumed (a_consumer s))\<lparr>c_buffer := b\<rparr>) =
      near (a_flight s Runner) (a_consumer s) + mset [row] + mset []"
    using near_add [OF fetch_valid(5)] fetch_valid(2) near_no_rows [of Wanting] by simp
  then show ?thesis using fetch_valid(1) by (intro balanced_go_more [OF assms(2), where acc = "[row]" and ext = "[]" and w = Runner]) simp_all
next
  case (fetch_invalid m reason rs ok c)
  then show ?thesis
    using error_rounds_near [OF fetch_invalid(4)] assms(2) by (auto intro!: balanced_go simp: near_def)
next
  case (insert w ms k out ok c)
  then show ?thesis
    using near_insert [OF insert(4)]
    by (intro balanced_go_more [OF assms(2), where w = w and acc = "[]"]) simp_all
next
  case (report m ok)
  then show ?thesis by (auto intro!: balanced_go [OF assms(2)] simp: near_def)
next
  case tick
  then show ?thesis by (auto intro!: balanced_go [OF assms(2)] simp: near_def)
next
  case signal
  then show ?thesis by (auto intro!: balanced_go [OF assms(2)] simp: near_def)
next
  case (take w ms c)
  then show ?thesis using near_take [OF take(3)] balanced_go [OF assms(2)] by metis
next
  case (give_up w ms k)
  then show ?thesis using near_give_back balanced_go [OF assms(2)] by metis
next
  case (commit w ms ok now)
  have "near Idle (commit_batch ok now ms (a_consumer s)) = near (Committing ms) (a_consumer s)"
    by (simp add: near_def [of "Committing ms"]) (simp add: near_def)
  with commit show ?thesis using balanced_go [OF assms(2)] by metis
next
  case cancel
  then show ?thesis using assms(2) by (simp add: balanced_def pending_def)
next
  case close
  then show ?thesis by (auto intro!: balanced_go [OF assms(2)] simp: near_def)
qed

lemma balanced_reachable:
  assumes "agg_step\<^sup>*\<^sup>* (agg_init c) s"
  shows "balanced s"
proof -
  have "balanced (agg_init c)" by (simp add: balanced_def agg_init_def pending_def)
  from assms this show ?thesis by (induction rule: rtranclp_induct) (blast intro: agg_step_balanced)+
qed

text \<open>
  C12: However the fetches, the flushes of the two goroutines and the failures of inserts and commits interleave,
  no row is lost and none appears from nowhere: the table, the buffer and the batches under way together hold
  each accepted row exactly once, and besides them only what an insert wrote that reported a failure.
\<close>

theorem every_view_counted_once:
  assumes "agg_step\<^sup>*\<^sup>* (agg_init c) s"
  shows "mset (c_table (a_consumer s)) + pending s = mset (a_accepted s) + mset (a_extra s)"
  using balanced_reachable [OF assms] by (simp add: balanced_def)

definition demo_fetched :: agg_state where
  "demo_fetched = (agg_init demo_consumer)\<lparr>
     a_consumer := (consumed demo_consumer)\<lparr>c_buffer :=
       demo_buffer\<lparr>buf_messages := [(demo_msg 3 (demo_view 9), ConvertEventToRow 5 (demo_view_event 9) 3 0)]\<rparr>\<rparr>,
     a_accepted := [ConvertEventToRow 5 (demo_view_event 9) 3 0]\<rparr>"

lemma demo_fetched_reached: "agg_step\<^sup>*\<^sup>* (agg_init demo_consumer) demo_fetched"
proof -
  let ?row = "ConvertEventToRow 5 (demo_view_event 9) 3 0"
  have v: "parseAndValidate (msg_value (demo_msg 3 (demo_view 9))) = Inr (demo_view_event 9)"
    by (simp add: demo_msg_def demo_view_valid in_int64_def)
  have add: "buf_Add (demo_msg 3 (demo_view 9), ?row) (c_buffer (a_consumer (agg_init demo_consumer))) =
      (False, demo_buffer\<lparr>buf_messages := [(demo_msg 3 (demo_view 9), ?row)]\<rparr>)"
    by (simp add: buf_Add_def agg_init_def demo_consumer_def demo_buffer_def Let_def)
  have "agg_step (agg_init demo_consumer) ((go Runner (if False then Wanting else Idle)
      ((consumed (a_consumer (agg_init demo_consumer)))\<lparr>c_buffer := demo_buffer\<lparr>buf_messages := [(demo_msg 3 (demo_view 9), ?row)]\<rparr>\<rparr>)
      (agg_init demo_consumer))\<lparr>a_accepted := a_accepted (agg_init demo_consumer) @ [?row]\<rparr>)"
    by (rule agg_step.fetch_valid [OF _ v _ add, where now = 5]) (simp_all add: agg_init_def demo_msg_def)
  moreover have "\<dots> = demo_fetched"
    by (simp add: demo_fetched_def go_def agg_init_def demo_consumer_def demo_buffer_def fun_upd_idem)
  ultimately show ?thesis by simp
qed

theorem every_view_counted_once_witness:
  "mset (c_table (a_consumer demo_fetched)) + pending demo_fetched = mset (a_accepted demo_fetched) + mset (a_extra demo_fetched)"
  by (rule every_view_counted_once [OF demo_fetched_reached])

section \<open>The sequential run is one of them\<close>

text \<open>A goroutine that flushes without interruption does what \<open>flush\<close> says.\<close>

lemma go_same [simp]: "go w k c' (go w k' c s) = go w k c' s"
  by (simp add: go_def)

definition may_give_up :: "worker \<Rightarrow> nat \<Rightarrow> bool" where
  "may_give_up w k \<longleftrightarrow> k = insert_max_attempts \<or> 0 < k \<and> w \<noteq> Closer"

lemma insert_steps:
  assumes "a_flight s w = Inserting ms k" and "k + n = insert_max_attempts" and "0 < n"
    and "a_cancelled s" and "w = Closer \<Longrightarrow> \<forall>k. \<not> fl_stop e k"
    and "insert_loop (fl_out e) (fl_stop e) (map snd ms) k n (a_consumer s) = (ok, c)"
  shows "\<exists>s' j. agg_step\<^sup>*\<^sup>* s s' \<and> a_consumer s' = c \<and> a_cancelled s' \<and> (\<not> ok \<longrightarrow> may_give_up w j) \<and>
    a_flight s' = (a_flight s)(w := if ok then Committing ms else Inserting ms j)"
  using assms
proof (induction n arbitrary: s k)
  case (Suc n)
  show ?case
  proof (cases "0 < k \<and> fl_stop e k")
    case True
    then show ?thesis using Suc.prems by (intro exI [of _ s] exI [of _ k]) (auto simp: may_give_up_def)
  next
    case False
    obtain ok1 c1 where one: "InsertRawBatch (fl_out e k) (map snd ms) (a_consumer s) = (ok1, c1)" by fastforce
    let ?s1 = "(go w (if ok1 then Committing ms else Inserting ms (k + 1)) c1 s)
      \<lparr>a_extra := a_extra s @ (if fl_out e k = FailedAfter then map snd ms else [])\<rparr>"
    have step: "agg_step s ?s1" using Suc.prems(1,2) one by (intro agg_step.insert) auto
    show ?thesis
    proof (cases ok1)
      case True
      then have "ok" "c = c1" using Suc.prems(6) False one by auto
      with step Suc.prems(4) show ?thesis by (intro exI [of _ ?s1]) (auto simp: True)
    next
      case fail: False
      then have loop: "insert_loop (fl_out e) (fl_stop e) (map snd ms) (k + 1) n c1 = (ok, c)"
        using Suc.prems(6) False one by auto
      show ?thesis
      proof (cases n)
        case 0
        then have "\<not> ok" "c = c1" "k + 1 = insert_max_attempts" using loop Suc.prems(2) by auto
        with step Suc.prems(4) show ?thesis
          by (intro exI [of _ ?s1] exI [of _ "k + 1"]) (auto simp: fail may_give_up_def)
      next
        case (Suc n')
        have "a_flight ?s1 w = Inserting ms (k + 1)" by (simp add: fail)
        from Suc.IH [OF this] Suc.prems loop obtain s' j where s':
          "agg_step\<^sup>*\<^sup>* ?s1 s'" "a_consumer s' = c" "a_cancelled s'" "\<not> ok \<longrightarrow> may_give_up w j"
          "a_flight s' = (a_flight s)(w := if ok then Committing ms else Inserting ms j)"
          using Suc by (fastforce simp: fail)
        from step s'(1) have "agg_step\<^sup>*\<^sup>* s s'" by (rule converse_rtranclp_into_rtranclp)
        with s'(2-) show ?thesis by blast
      qed
    qed
  qed
qed simp

text \<open>No goroutine flushes, and the context is done; \<open>r\<close> says whether \<^verbatim>\<open>Run\<close> still fetches.\<close>

definition at_rest :: "flight \<Rightarrow> agg_state \<Rightarrow> consumer \<Rightarrow> bool" where
  "at_rest r s c \<longleftrightarrow> a_consumer s = c \<and> a_flight s = (\<lambda>_. Idle)(Runner := r) \<and> a_cancelled s"

lemma flush_steps:
  assumes "a_flight s = (\<lambda>_. Idle)(Runner := r, w := Wanting)" and "w = Runner \<Longrightarrow> r = Idle" and "a_cancelled s" and "w = Closer \<Longrightarrow> \<forall>k. \<not> fl_stop e k"
  obtains s' where "agg_step\<^sup>*\<^sup>* s s'" "at_rest r s' (flush e (a_consumer s))"
proof -
  obtain ms c where take: "flush_take (a_consumer s) = (ms, c)" by fastforce
  let ?s1 = "go w (if ms = [] then Idle else Inserting ms 0) c s"
  have step1: "agg_step s ?s1" by (rule agg_step.take [OF _ take]) (simp add: assms(1))
  show thesis
  proof (cases "ms = []")
    case True
    then show thesis
      using step1 take assms(1-3) by (intro that [of ?s1]) (auto simp: flush_def flush_finish_def at_rest_def)
  next
    case False
    obtain ok c1 where ins: "insertWithRetry (fl_out e) (fl_stop e) (map snd ms) c = (ok, c1)" by fastforce
    have "a_flight ?s1 w = Inserting ms 0" using False by simp
    moreover have "0 + insert_max_attempts = insert_max_attempts" "0 < insert_max_attempts" "a_cancelled ?s1"
      using assms(3) by (simp_all add: insert_max_attempts_def)
    moreover have "insert_loop (fl_out e) (fl_stop e) (map snd ms) 0 insert_max_attempts (a_consumer ?s1) = (ok, c1)"
      using ins by (simp add: insertWithRetry_def)
    ultimately obtain s2 j where s2: "agg_step\<^sup>*\<^sup>* ?s1 s2" "a_consumer s2 = c1" "a_cancelled s2" "\<not> ok \<longrightarrow> may_give_up w j"
        "a_flight s2 = (a_flight ?s1)(w := if ok then Committing ms else Inserting ms j)"
      using insert_steps [where s = ?s1 and w = w and e = e] assms(4) by blast
    define c2 where "c2 = (if ok then commit_batch (fl_commit_ok e) (fl_now e) ms c1 else give_back ms c1)"
    have last: "agg_step s2 (go w Idle c2 s2)"
    proof (cases ok)
      case True
      then show ?thesis using agg_step.commit [of s2 w ms "fl_commit_ok e" "fl_now e"] s2 by (simp add: c2_def)
    next
      case False
      then show ?thesis using agg_step.give_up [of s2 w ms j] s2 by (simp add: c2_def may_give_up_def)
    qed
    from step1 s2(1) have "agg_step\<^sup>*\<^sup>* s s2" by (rule converse_rtranclp_into_rtranclp)
    from this last have "agg_step\<^sup>*\<^sup>* s (go w Idle c2 s2)" by (rule rtranclp.rtrancl_into_rtrancl)
    moreover have "c2 = flush e (a_consumer s)"
      using False ins by (simp add: c2_def flush_def take flush_finish_def commit_batch_def give_back_def split: bool.split)
    ultimately show thesis using s2(3,5) assms(1,2) by (intro that [of "go w Idle c2 s2"]) (auto simp: at_rest_def)
  qed
qed

lemma go_flush_steps:
  assumes "at_rest r s c0" and "agg_step s s1" and "s1 = go w Wanting c s" and "w \<noteq> Runner" and "w = Closer \<Longrightarrow> \<forall>k. \<not> fl_stop e k"
  obtains s' where "agg_step\<^sup>*\<^sup>* s s'" "at_rest r s' (flush e c)"
proof -
  have "a_flight s1 = (\<lambda>_. Idle)(Runner := r, w := Wanting)" "a_cancelled s1" using assms(1,3) by (auto simp: at_rest_def)
  then obtain s' where s': "agg_step\<^sup>*\<^sup>* s1 s'" "at_rest r s' (flush e (a_consumer s1))"
    using flush_steps [of s1 r w e] assms(4,5) by blast
  from assms(2) s'(1) have "agg_step\<^sup>*\<^sup>* s s'" by (rule converse_rtranclp_into_rtranclp)
  then show thesis using that s'(2) assms(3) by simp
qed

lemma tick_steps:
  assumes "at_rest r s c"
  obtains s' where "agg_step\<^sup>*\<^sup>* s s'" "at_rest r s' (on_tick e c)"
proof (cases "buf_ticker (c_buffer c)")
  case True
  have "agg_step s (go Flusher Wanting c s)"
    using agg_step.tick [of s] assms True by (auto simp: at_rest_def)
  then show thesis by (rule go_flush_steps [OF assms _ refl]) (use True in \<open>auto simp: on_tick_def intro: that\<close>)
next
  case False
  then show thesis using assms by (intro that [of s]) (auto simp: on_tick_def)
qed

lemma signal_steps:
  assumes "at_rest r s c"
  obtains s' where "agg_step\<^sup>*\<^sup>* s s'" "at_rest r s' (on_signal e c)"
proof (cases "buf_ticker (c_buffer c) \<and> buf_signal (c_buffer c)")
  case True
  have "agg_step s (go Flusher Wanting (c\<lparr>c_buffer := (c_buffer c)\<lparr>buf_signal := False\<rparr>\<rparr>) s)"
    using agg_step.signal [of s] assms True by (auto simp: at_rest_def)
  then show thesis by (rule go_flush_steps [OF assms _ refl]) (use True in \<open>auto simp: on_signal_def intro: that\<close>)
next
  case False
  then show thesis using assms by (intro that [of s]) (auto simp: on_signal_def)
qed

lemma close_steps:
  assumes "at_rest r s c" and "\<forall>k. \<not> fl_stop e k"
  obtains s' where "agg_step\<^sup>*\<^sup>* s s'" "at_rest r s' (consumer_Close e c)"
proof -
  have "agg_step s (go Closer Wanting c s)" using agg_step.close [of s] assms(1) by (auto simp: at_rest_def)
  then show thesis
    by (rule go_flush_steps [OF assms(1) _ refl]) (use assms(2) in \<open>auto simp: consumer_Close_def intro: that\<close>)
qed

text \<open>A message that stops \<^verbatim>\<open>Run\<close> leaves its goroutine gone.\<close>

lemma message_steps:
  assumes "at_rest Idle s c" and "run_message e m c = (cont, c')"
  obtains s' where "agg_step\<^sup>*\<^sup>* s s'" "at_rest (if cont then Idle else Gone) s' c'"
proof (cases "parseAndValidate (msg_value m)")
  case (Inl reason)
  obtain ok c1 where er: "error_rounds (me_rounds e) m reason (consumed c) = (ok, c1)" by fastforce
  let ?s1 = "go Runner (if ok then Reporting m else Gone) c1 s"
  have step: "agg_step s ?s1" using assms(1) Inl er by (intro agg_step.fetch_invalid) (simp_all add: at_rest_def)
  have c': "cont = ok" "c' = (if ok then CommitMessages (me_commit_ok e) [m] c1 else c1)"
    using assms(2) Inl er by (auto simp: run_message_def consumed_def split: bool.splits)
  show thesis
  proof (cases ok)
    case True
    let ?s2 = "go Runner Idle (CommitMessages (me_commit_ok e) [m] (a_consumer ?s1)) ?s1"
    have "agg_step ?s1 ?s2" by (rule agg_step.report) (simp add: True)
    with step have "agg_step\<^sup>*\<^sup>* s ?s2" by (meson converse_rtranclp_into_rtranclp r_into_rtranclp)
    then show thesis using c' True assms(1) by (intro that [of ?s2]) (auto simp: at_rest_def)
  next
    case False
    then show thesis using c' step assms(1) by (intro that [of ?s1]) (auto simp: at_rest_def)
  qed
next
  case (Inr ev)
  let ?row = "ConvertEventToRow (me_now e) ev (msg_offset m) (msg_partition m)"
  obtain full b where add: "buf_Add (m, ?row) (c_buffer c) = (full, b)" by fastforce
  let ?c1 = "(consumed c)\<lparr>c_buffer := b\<rparr>"
  let ?s1 = "(go Runner (if full then Wanting else Idle) ?c1 s)\<lparr>a_accepted := a_accepted s @ [?row]\<rparr>"
  have step: "agg_step s ?s1"
    using agg_step.fetch_valid [of s m ev ?row "me_now e" full b] assms(1) Inr add by (simp add: at_rest_def)
  have c': "cont" "c' = (if full then flush (me_flush e) ?c1 else ?c1)"
    using assms(2) add by (auto simp: run_message_def Inr consumed_def Let_def split: if_splits)
  show thesis
  proof (cases full)
    case False
    then show thesis using step c' assms(1) by (intro that [of ?s1]) (auto simp: at_rest_def)
  next
    case True
    have "a_flight ?s1 = (\<lambda>_. Idle)(Runner := Idle, Runner := Wanting)" "a_cancelled ?s1"
      using assms(1) True by (auto simp: at_rest_def)
    then obtain s2 where s2: "agg_step\<^sup>*\<^sup>* ?s1 s2" "at_rest Idle s2 (flush (me_flush e) (a_consumer ?s1))"
      using flush_steps [of ?s1 Idle Runner "me_flush e"] by blast
    from step s2(1) have "agg_step\<^sup>*\<^sup>* s s2" by (rule converse_rtranclp_into_rtranclp)
    then show thesis using s2(2) c' True by (intro that [of s2]) (auto simp: at_rest_def)
  qed
qed

lemma run_events_steps:
  assumes "at_rest Idle s c"
  shows "\<exists>s' r. agg_step\<^sup>*\<^sup>* s s' \<and> at_rest r s' (run_events es c)"
  using assms
proof (induction es c arbitrary: s rule: run_events.induct)
  case (1 c)
  then show ?case by auto
next
  case (2 e es c)
  obtain s1 where s1: "agg_step\<^sup>*\<^sup>* s s1" "at_rest Idle s1 (on_tick e c)" by (rule tick_steps [OF 2(2)])
  from 2(1) [OF s1(2)] s1(1) show ?case by (auto intro: rtranclp_trans)
next
  case (3 e es c)
  obtain s1 where s1: "agg_step\<^sup>*\<^sup>* s s1" "at_rest Idle s1 (on_signal e c)" by (rule signal_steps [OF 3(2)])
  from 3(1) [OF s1(2)] s1(1) show ?case by (auto intro: rtranclp_trans)
next
  case (4 m e es c)
  obtain cont c1 where run: "run_message e m c = (cont, c1)" by fastforce
  obtain s1 where s1: "agg_step\<^sup>*\<^sup>* s s1" "at_rest (if cont then Idle else Gone) s1 c1" by (rule message_steps [OF 4(2) run])
  show ?case
  proof (cases cont)
    case True
    then have rest: "at_rest Idle s1 c1" and go_on: "(True, c1) = run_message e m c" using s1(2) run by simp_all
    from 4(1) [OF go_on refl rest] s1(1) show ?thesis
      by (auto simp: run True intro: rtranclp_trans)
  next
    case False
    then show ?thesis using s1 by (auto simp: run)
  qed
qed



end
