(* ===== verification/Producer_Concurrency.thy ===== *)
theory Producer_Concurrency
  imports Producer_Properties
begin

text \<open>
  The producer's goroutines, step by step: the generator's sends, the flush loops (every change to batch mode
  starts another one), the control handler and the closing may all be under way together. The mode is read
  before the batch is locked, the batch is taken under its lock, and the write happens after it is released. An
  asynchronous send has a goroutine of its own for its write.
\<close>

section \<open>Steps\<close>

datatype errand = Rest | Batching prod_msg | Flushing | Writing "prod_msg list"

text \<open>
  Besides the producer and its goroutines, which are numbered: every message given to \<^verbatim>\<open>Send\<close>, and the messages of
  writes that failed without effect.
\<close>

record prod_state =
  q_prod :: producer
  q_errand :: "nat \<Rightarrow> errand"
  q_given :: "prod_msg list"
  q_lost :: "prod_msg list"

definition send_to :: "nat \<Rightarrow> errand \<Rightarrow> producer \<Rightarrow> prod_state \<Rightarrow> prod_state" where
  "send_to i k p s = s\<lparr>q_prod := p, q_errand := (q_errand s)(i := k)\<rparr>"

definition add_to_batch :: "prod_msg \<Rightarrow> producer \<Rightarrow> bool \<times> producer" where
  "add_to_batch m p = (let p' = p\<lparr>p_batch := p_batch p @ [m]\<rparr> in (p_batch_size p' \<le> int (length (p_batch p')), p'))"

definition written :: "bool \<Rightarrow> int \<Rightarrow> producer \<Rightarrow> producer" where
  "written ok latency p = on_metrics (if ok then RecordSent latency else RecordFailed) p"

inductive prod_step :: "nat \<Rightarrow> prod_state \<Rightarrow> prod_state \<Rightarrow> bool" for n where
  send: "i < n \<Longrightarrow> q_errand s i = Rest \<Longrightarrow>
    prod_step n s ((send_to i (if p_mode (q_prod s) = ''batch'' then Batching m else Writing [m]) (q_prod s) s)
      \<lparr>q_given := q_given s @ [m]\<rparr>)"
| add: "i < n \<Longrightarrow> q_errand s i = Batching m \<Longrightarrow> add_to_batch m (q_prod s) = (full, p) \<Longrightarrow>
    prod_step n s (send_to i (if full then Flushing else Rest) p s)"
| tick: "i < n \<Longrightarrow> q_errand s i = Rest \<Longrightarrow> p_ticker (q_prod s) = Some (d, True) \<Longrightarrow>
    prod_step n s (send_to i Flushing (q_prod s) s)"
| take: "i < n \<Longrightarrow> q_errand s i = Flushing \<Longrightarrow>
    prod_step n s (send_to i (if p_batch (q_prod s) = [] then Rest else Writing (p_batch (q_prod s)))
      ((q_prod s)\<lparr>p_batch := []\<rparr>) s)"
| written_out: "i < n \<Longrightarrow> q_errand s i = Writing ms \<Longrightarrow> WriteMessages out ms (q_prod s) = (ok, p) \<Longrightarrow>
    prod_step n s ((send_to i Rest (written ok latency p) s)\<lparr>q_lost := q_lost s @ (if out = FailedBefore then ms else [])\<rparr>)"
| control: "UpdateConfig mode bsize ms strategy (q_prod s) = (r, p) \<Longrightarrow> prod_step n s (s\<lparr>q_prod := p\<rparr>)"
| close: "i < n \<Longrightarrow> q_errand s i = Rest \<Longrightarrow>
    prod_step n s (send_to i Flushing ((q_prod s)\<lparr>p_ticker := map_option (\<lambda>(d, _). (d, False)) (p_ticker (q_prod s))\<rparr>) s)"

definition prod_init :: "producer \<Rightarrow> prod_state" where
  "prod_init p = \<lparr>q_prod = p, q_errand = (\<lambda>_. Rest), q_given = [], q_lost = []\<rparr>"

section \<open>Where the messages are\<close>

definition carried :: "errand \<Rightarrow> prod_msg multiset" where
  "carried k = (case k of Batching m \<Rightarrow> {#m#} | Writing ms \<Rightarrow> mset ms | _ \<Rightarrow> {#})"

definition under_way :: "nat \<Rightarrow> prod_state \<Rightarrow> prod_msg multiset" where
  "under_way n s = (\<Sum>i<n. carried (q_errand s i))"

lemma carried_simps [simp]:
  "carried Rest = {#}" "carried (Batching m) = {#m#}" "carried Flushing = {#}" "carried (Writing ms) = mset ms"
  by (simp_all add: carried_def)

lemma send_to_sel [simp]:
  "q_prod (send_to i k p s) = p" "q_errand (send_to i k p s) = (q_errand s)(i := k)"
  "q_given (send_to i k p s) = q_given s" "q_lost (send_to i k p s) = q_lost s"
  by (simp_all add: send_to_def)

lemma under_way_upd:
  fixes n :: nat
  assumes "i < n"
  shows "(\<Sum>j<n. carried ((f(i := k)) j)) + carried (f i) = (\<Sum>j<n. carried (f j)) + carried k"
proof -
  have "(\<Sum>j<n. carried (g j)) = carried (g i) + (\<Sum>j\<in>{..<n} - {i}. carried (g j))" for g
    using assms by (simp add: sum.remove)
  moreover have "(\<Sum>j\<in>{..<n} - {i}. carried ((f(i := k)) j)) = (\<Sum>j\<in>{..<n} - {i}. carried (f j))"
    by (rule sum.cong) simp_all
  ultimately show ?thesis by (simp add: ac_simps)
qed

definition balanced :: "nat \<Rightarrow> prod_msg multiset \<Rightarrow> prod_state \<Rightarrow> bool" where
  "balanced n start s \<longleftrightarrow> mset (p_topic (q_prod s)) + mset (q_lost s) + mset (p_batch (q_prod s)) + under_way n s =
     start + mset (q_given s)"

text \<open>One goroutine moves on, and what it carries, the batch, the topic and the lost messages change together.\<close>

lemma balanced_move:
  assumes "balanced n start s" and "i < n" and "q_errand s' = (q_errand s)(i := k)"
    and "mset (p_topic (q_prod s')) + mset (q_lost s') + mset (p_batch (q_prod s')) + carried k + mset (q_given s) =
      mset (p_topic (q_prod s)) + mset (q_lost s) + mset (p_batch (q_prod s)) + carried (q_errand s i) + mset (q_given s')"
  shows "balanced n start s'"
proof -
  let ?rest = "\<lambda>s. mset (p_topic (q_prod s)) + mset (q_lost s) + mset (p_batch (q_prod s))"
  have way: "under_way n s' + carried (q_errand s i) = under_way n s + carried k"
    using under_way_upd [OF assms(2), of "q_errand s" k] by (simp add: under_way_def assms(3))
  have "(?rest s' + under_way n s') + (carried (q_errand s i) + carried k + mset (q_given s)) =
      (?rest s' + carried k + mset (q_given s)) + (under_way n s' + carried (q_errand s i))"
    by (simp add: ac_simps)
  also have "\<dots> = (?rest s + under_way n s) + (carried (q_errand s i) + carried k + mset (q_given s'))"
    unfolding assms(4) way by (simp add: ac_simps)
  also have "?rest s + under_way n s = start + mset (q_given s)" using assms(1) by (simp add: balanced_def)
  finally show ?thesis by (simp add: balanced_def ac_simps)
qed

lemma UpdateConfig_keeps: "UpdateConfig mode bsize ms st p = (r, p') \<Longrightarrow> p_topic p' = p_topic p \<and> p_batch p' = p_batch p"
  by (auto simp: UpdateConfig_def Let_def split: if_splits)

lemma WriteMessages_moves:
  "WriteMessages out ms p = (ok, p') \<Longrightarrow> p_batch p' = p_batch p \<and>
    mset (p_topic p') + mset (if out = FailedBefore then ms else []) = mset (p_topic p) + mset ms"
  by (cases out) (auto simp: WriteMessages_def Let_def)

lemma written_sel [simp]: "p_topic (written ok l p) = p_topic p" "p_batch (written ok l p) = p_batch p"
  by (simp_all add: written_def)

lemma prod_step_balanced:
  assumes "prod_step n s s'" and "balanced n start s"
  shows "balanced n start s'"
  using assms(1)
proof cases
  case (send i m)
  then show ?thesis
    by (intro balanced_move [OF assms(2), of i s' "if p_mode (q_prod s) = ''batch'' then Batching m else Writing [m]"])
      (simp_all add: ac_simps)
next
  case (add i m full p)
  then show ?thesis
    by (intro balanced_move [OF assms(2), of i s' "if full then Flushing else Rest"])
      (auto simp: add_to_batch_def Let_def)
next
  case (tick i d)
  then show ?thesis by (intro balanced_move [OF assms(2), of i s' Flushing]) simp_all
next
  case (take i)
  then show ?thesis
    by (intro balanced_move [OF assms(2), of i s' "if p_batch (q_prod s) = [] then Rest else Writing (p_batch (q_prod s))"])
      (simp_all add: ac_simps)
next
  case (written_out i ms out ok p latency)
  then show ?thesis
    using WriteMessages_moves [OF written_out(4)]
    by (intro balanced_move [OF assms(2), of i s' Rest]) (simp_all add: ac_simps)
next
  case (control mode bsize ms strategy r p)
  then show ?thesis using UpdateConfig_keeps [OF control(2)] assms(2) by (simp add: balanced_def under_way_def)
next
  case (close i)
  then show ?thesis by (intro balanced_move [OF assms(2), of i s' Flushing]) simp_all
qed

section \<open>The sequential operations are among the runs\<close>

lemma no_batch: "p_batch p = [] \<Longrightarrow> p\<lparr>p_batch := []\<rparr> = p"
  by (cases p) simp

lemma send_to_same [simp]: "send_to i k p (send_to i k' p' s) = send_to i k p s"
  by (simp add: send_to_def)

lemma write_step:
  assumes "i < n" and "q_errand s i = Writing ms" and "WriteMessages out ms (q_prod s) = (ok, p)"
  shows "\<exists>s'. prod_step n s s' \<and> q_prod s' = written ok l p \<and> q_errand s' = (q_errand s)(i := Rest) \<and> q_given s' = q_given s"
  using prod_step.written_out [OF assms, of l] by (intro exI conjI) (assumption, simp_all)

lemma Flush_steps:
  assumes "i < n" and "q_errand s i = Flushing"
  shows "\<exists>s'. (prod_step n)\<^sup>*\<^sup>* s s' \<and> q_prod s' = snd (Flush e (q_prod s)) \<and> q_errand s' = (q_errand s)(i := Rest) \<and>
    q_given s' = q_given s"
proof -
  let ?p = "q_prod s"
  let ?s1 = "send_to i (if p_batch ?p = [] then Rest else Writing (p_batch ?p)) (?p\<lparr>p_batch := []\<rparr>) s"
  have step: "prod_step n s ?s1" by (rule prod_step.take [OF assms])
  show ?thesis
  proof (cases "p_batch ?p = []")
    case True
    then show ?thesis using step by (intro exI [of _ ?s1]) (auto simp: Flush_def no_batch)
  next
    case False
    obtain ok p where w: "WriteMessages (se_out e) (p_batch ?p) (?p\<lparr>p_batch := []\<rparr>) = (ok, p)" by fastforce
    have "q_errand ?s1 i = Writing (p_batch ?p)" using False by simp
    with w obtain s' where s': "prod_step n ?s1 s'" "q_prod s' = written ok (se_latency e) p"
        "q_errand s' = (q_errand ?s1)(i := Rest)" "q_given s' = q_given ?s1"
      using write_step [OF assms(1), of ?s1] by fastforce
    have "(prod_step n)\<^sup>*\<^sup>* s s'" using step s'(1) by (meson converse_rtranclp_into_rtranclp r_into_rtranclp)
    moreover have "written ok (se_latency e) p = snd (Flush e ?p)"
      using False w by (simp add: Flush_def written_def split: bool.split)
    ultimately show ?thesis using s'(2-4) by (intro exI [of _ s']) auto
  qed
qed

lemma send_by_mode_steps:
  assumes "i < n" and "q_errand s i = Rest"
  shows "\<exists>s'. (prod_step n)\<^sup>*\<^sup>* s s' \<and> q_prod s' = snd (send_by_mode e m (q_prod s)) \<and> q_errand s' = (q_errand s)(i := Rest) \<and>
    q_given s' = q_given s @ [m]"
proof -
  let ?p = "q_prod s"
  let ?s1 = "(send_to i (if p_mode ?p = ''batch'' then Batching m else Writing [m]) ?p s)\<lparr>q_given := q_given s @ [m]\<rparr>"
  have step: "prod_step n s ?s1" by (rule prod_step.send [OF assms])
  show ?thesis
  proof (cases "p_mode ?p = ''batch''")
    case True
    obtain full p where fits: "add_to_batch m ?p = (full, p)" by fastforce
    let ?s2 = "send_to i (if full then Flushing else Rest) p ?s1"
    have "prod_step n ?s1 ?s2" using prod_step.add [OF assms(1), of ?s1 m full p] fits True by simp
    with step have s2: "(prod_step n)\<^sup>*\<^sup>* s ?s2" by (meson converse_rtranclp_into_rtranclp r_into_rtranclp)
    have mode: "send_by_mode e m ?p = (if full then Flush e p else (True, p))"
      using fits True by (auto simp: send_by_mode_def sendBatch_def add_to_batch_def Let_def)
    show ?thesis
    proof (cases full)
      case f: True
      obtain s' where "(prod_step n)\<^sup>*\<^sup>* ?s2 s'" "q_prod s' = snd (Flush e (q_prod ?s2))"
          "q_errand s' = (q_errand ?s2)(i := Rest)" "q_given s' = q_given ?s2"
        using Flush_steps [OF assms(1), of ?s2 e] f by auto
      with s2 show ?thesis by (intro exI [of _ s']) (auto simp: mode f)
    next
      case False
      with s2 show ?thesis by (intro exI [of _ ?s2]) (auto simp: mode)
    qed
  next
    case False
    obtain ok p where w: "WriteMessages (se_out e) [m] ?p = (ok, p)" by fastforce
    have "q_errand ?s1 i = Writing [m]" using False by simp
    with w obtain s' where s': "prod_step n ?s1 s'" "q_prod s' = written ok (se_latency e) p"
        "q_errand s' = (q_errand ?s1)(i := Rest)" "q_given s' = q_given ?s1"
      using write_step [OF assms(1), of ?s1] by fastforce
    have "(prod_step n)\<^sup>*\<^sup>* s s'" using step s'(1) by (meson converse_rtranclp_into_rtranclp r_into_rtranclp)
    moreover have "snd (send_by_mode e m ?p) = written ok (se_latency e) p"
      using False w by (simp add: send_by_mode_def sendSync_def sendAsync_def written_def split: bool.split)
    ultimately show ?thesis using s'(2-4) by (intro exI [of _ s']) auto
  qed
qed

text \<open>The order of the messages is not kept when flushes overlap: the later batch may be written first.\<close>

lemma picks_up:
  assumes "i < n" and "q_errand s i = Rest" and "p_mode (q_prod s) = ''batch''" and "p_batch (q_prod s) = []"
    and "p_batch_size (q_prod s) = 1"
  shows "(prod_step n)\<^sup>*\<^sup>* s ((send_to i (Writing [m]) (q_prod s) s)\<lparr>q_given := q_given s @ [m]\<rparr>)"
proof -
  let ?p = "q_prod s"
  let ?s1 = "(send_to i (Batching m) ?p s)\<lparr>q_given := q_given s @ [m]\<rparr>"
  let ?s2 = "send_to i Flushing (?p\<lparr>p_batch := [m]\<rparr>) ?s1"
  have "prod_step n s ?s1" using prod_step.send [OF assms(1,2), of m] assms(3) by simp
  moreover have "prod_step n ?s1 ?s2"
    using prod_step.add [OF assms(1), of ?s1 m] assms(4,5) by (simp add: add_to_batch_def)
  moreover have "prod_step n ?s2 (send_to i (Writing [m]) ?p ?s2)"
    using prod_step.take [OF assms(1), of ?s2] no_batch [OF assms(4)] by simp
  moreover have "send_to i (Writing [m]) ?p ?s2 = (send_to i (Writing [m]) ?p s)\<lparr>q_given := q_given s @ [m]\<rparr>"
    by (simp add: send_to_def)
  ultimately show ?thesis by (metis converse_rtranclp_into_rtranclp rtranclp.rtrancl_refl)
qed

lemma flushes_overtake:
  assumes "p_mode p = ''batch''" and "p_batch p = []" and "p_batch_size p = 1"
  shows "\<exists>s. (prod_step 2)\<^sup>*\<^sup>* (prod_init p) s \<and> q_given s = [a, b] \<and> p_topic (q_prod s) = p_topic p @ [b, a]"
proof -
  let ?s1 = "(send_to 0 (Writing [a]) p (prod_init p))\<lparr>q_given := [a]\<rparr>"
  let ?s2 = "(send_to 1 (Writing [b]) p ?s1)\<lparr>q_given := [a, b]\<rparr>"
  have "(prod_step 2)\<^sup>*\<^sup>* (prod_init p) ?s1" using picks_up [of 0 2 "prod_init p" a] assms by (simp add: prod_init_def)
  also have "(prod_step 2)\<^sup>*\<^sup>* ?s1 ?s2" using picks_up [of 1 2 ?s1 b] assms by (simp add: prod_init_def)
  also obtain s3 where s3: "prod_step 2 ?s2 s3" "q_prod s3 = written True 0 (p\<lparr>p_topic := p_topic p @ [b]\<rparr>)"
      "q_errand s3 = (q_errand ?s2)(1 := Rest)" "q_given s3 = [a, b]"
    using write_step [of 1 2 ?s2 "[b]" Acked True "p\<lparr>p_topic := p_topic p @ [b]\<rparr>" 0] by (auto simp: WriteMessages_def)
  note s3(1)
  also obtain s4 where s4: "prod_step 2 s3 s4" "p_topic (q_prod s4) = p_topic p @ [b, a]" "q_given s4 = [a, b]"
    using write_step [of 0 2 s3 "[a]" Acked True _ 0] s3(2-4) by (fastforce simp: WriteMessages_def)
  note s4(1)
  finally show ?thesis using s4(2,3) by blast
qed

section \<open>Every message is somewhere\<close>

text \<open>
  C13: However the sends, the flushes, the changes of the configuration and the closing interleave, every message
  is in exactly one place: in the topic, in the batch, with a goroutine on its way to one of them, or lost with
  a write that failed without effect; none is written twice by the producer.
\<close>

theorem every_message_in_one_place:
  assumes "(prod_step n)\<^sup>*\<^sup>* (prod_init p) s"
  shows "mset (p_topic (q_prod s)) + mset (q_lost s) + mset (p_batch (q_prod s)) + under_way n s =
    mset (p_topic p) + mset (p_batch p) + mset (q_given s)"
proof -
  have "balanced n (mset (p_topic p) + mset (p_batch p)) (prod_init p)"
    by (simp add: balanced_def prod_init_def under_way_def)
  from assms this have "balanced n (mset (p_topic p) + mset (p_batch p)) s"
    by (induction rule: rtranclp_induct) (blast intro: prod_step_balanced)+
  then show ?thesis by (simp add: balanced_def)
qed

theorem every_message_in_one_place_witness:
  "let s = (send_to 0 (Writing [demo_pm ''a'']) ((demo_producer ''batch'')\<lparr>p_batch_size := 1\<rparr>)
       (prod_init ((demo_producer ''batch'')\<lparr>p_batch_size := 1\<rparr>)))\<lparr>q_given := [demo_pm ''a'']\<rparr>
   in (prod_step 1)\<^sup>*\<^sup>* (prod_init ((demo_producer ''batch'')\<lparr>p_batch_size := 1\<rparr>)) s \<and> under_way 1 s = {#demo_pm ''a''#}"
proof -
  let ?p = "(demo_producer ''batch'')\<lparr>p_batch_size := 1\<rparr>"
  let ?s = "(send_to 0 (Writing [demo_pm ''a'']) ?p (prod_init ?p))\<lparr>q_given := [demo_pm ''a'']\<rparr>"
  have run: "(prod_step 1)\<^sup>*\<^sup>* (prod_init ?p) ?s"
    using picks_up [of 0 1 "prod_init ?p" "demo_pm ''a''"] by (simp add: prod_init_def demo_producer_def)
  then show ?thesis
    using every_message_in_one_place [OF run] by (simp add: Let_def prod_init_def demo_producer_def)
qed

end
