(* ===== verification/Kdiag.thy ===== *)
theory Kdiag
  imports Config
begin

text \<open>
  \<^verbatim>\<open>pv-tools/kdiag/main.go\<close>: the Kafka diagnostic. What the broker answers is an argument; the result is what
  the tool prints, line by line, and its exit status.
\<close>

record partition_info =
  pi_id :: int
  pi_leader :: int
  pi_replicas :: "int list"
  pi_isr :: "int list"

record diag_msg =
  dm_offset :: int
  dm_partition :: int
  dm_key :: string
  dm_value :: string

datatype diag_fetch = DiagMsg diag_msg | DiagTimeout | DiagError

record diag_env =
  de_metadata :: "(string \<times> partition_info list) list option"
  de_set_offset :: bool
  de_fetch :: "nat \<Rightarrow> diag_fetch"

datatype diag_line = Banner string string | NoBrokers | MetadataError | TopicExists string nat | PartitionLine partition_info
  | TopicNotFound string | OffsetError | OffsetSet | MsgLine nat diag_msg | ValueShown string bool | TimeoutReached nat
  | ReadError | NothingRead | ReadCount nat

definition diag_getEnv :: "environ \<Rightarrow> string \<Rightarrow> string \<Rightarrow> string" where
  "diag_getEnv env key d = or_default (env key) d"

text \<open>The first topic of the answer with the name.\<close>

definition metadata_lines :: "string \<Rightarrow> (string \<times> partition_info list) list option \<Rightarrow> diag_line list" where
  "metadata_lines topic r = (case r of
      None \<Rightarrow> [MetadataError]
    | Some ts \<Rightarrow> (case find (\<lambda>t. fst t = topic) ts of
        None \<Rightarrow> [TopicNotFound topic]
      | Some (_, ps) \<Rightarrow> TopicExists topic (length ps) # map PartitionLine ps))"

text \<open>A value of 200 bytes or more is cut to its first 200; the flag says so.\<close>

definition value_line :: "string \<Rightarrow> diag_line" where
  "value_line v = (if length v < 200 then ValueShown v False else ValueShown (take 200 v) True)"

text \<open>The loop with \<open>n\<close> messages read and \<open>left\<close> more allowed; also the number read in the end.\<close>

fun read_messages :: "(nat \<Rightarrow> diag_fetch) \<Rightarrow> nat \<Rightarrow> nat \<Rightarrow> diag_line list \<times> nat" where
  "read_messages fetch n 0 = ([], n)"
| "read_messages fetch n (Suc left) = (case fetch n of
      DiagTimeout \<Rightarrow> ([TimeoutReached n], n)
    | DiagError \<Rightarrow> ([ReadError], n)
    | DiagMsg m \<Rightarrow> (let (ls, k) = read_messages fetch (n + 1) left in (MsgLine (n + 1) m # value_line (dm_value m) # ls, k)))"

definition maxMessages :: nat where "maxMessages = 5"

definition kdiag_main :: "environ \<Rightarrow> diag_env \<Rightarrow> diag_line list \<times> nat" where
  "kdiag_main env e = (let brokers = diag_getEnv env ''KAFKA_BROKERS'' ''kafka:9092'';
      topic = diag_getEnv env ''KAFKA_TOPIC'' ''page_views'';
      trimmed = trimmed_nonempty (split_on (CHR '','') brokers)
    in if trimmed = [] then ([Banner brokers topic, NoBrokers], 1)
       else (let (ls, n) = read_messages (de_fetch e) 0 maxMessages
         in (Banner brokers topic # metadata_lines topic (de_metadata e) @
             (if de_set_offset e then OffsetSet else OffsetError) # ls @ [if n = 0 then NothingRead else ReadCount n], 0)))"

definition is_msg :: "diag_line \<Rightarrow> bool" where
  "is_msg l \<longleftrightarrow> (case l of MsgLine _ _ \<Rightarrow> True | _ \<Rightarrow> False)"

lemma read_messages_count:
  "read_messages fetch n left = (ls, k) \<Longrightarrow> k = n + length (filter is_msg ls) \<and> k \<le> n + left"
proof (induction fetch n left arbitrary: ls k rule: read_messages.induct)
  case (2 fetch n left)
  show ?case
  proof (cases "fetch n")
    case (DiagMsg m)
    obtain ls' k' where r: "read_messages fetch (n + 1) left = (ls', k')" by fastforce
    have "\<not> is_msg (value_line v)" for v by (simp add: is_msg_def value_line_def)
    then show ?thesis using 2(1) [OF DiagMsg r] 2(2) by (auto simp: DiagMsg r [simplified] is_msg_def)
  qed (use 2(2) in \<open>auto simp: is_msg_def\<close>)
qed simp

lemma metadata_no_msg: "filter is_msg (metadata_lines topic r) = []"
  by (auto simp: metadata_lines_def is_msg_def filter_empty_conv split: option.splits)

text \<open>The tool prints at most five messages, and its last line has their number.\<close>

lemma kdiag_counts:
  assumes "kdiag_main env e = (ls, 0)"
  shows "length (filter is_msg ls) \<le> 5 \<and>
    last ls = (if filter is_msg ls = [] then NothingRead else ReadCount (length (filter is_msg ls)))"
proof -
  obtain ms n where r: "read_messages (de_fetch e) 0 maxMessages = (ms, n)" by fastforce
  have n: "n = length (filter is_msg ms)" "n \<le> 5" using read_messages_count [OF r] by (simp_all add: maxMessages_def)
  then show ?thesis
    using assms by (auto simp: kdiag_main_def Let_def r metadata_no_msg is_msg_def split: if_splits)
qed

end
