(* ===== verification/Spec2Isabelle.thy ===== *)
theory Spec2Isabelle
  imports Startup_Properties Money_Pipeline Wallet_Concurrency Wallet_Rates Wallet_Audit Registration_Concurrency
    Aggregator_Progress Producer_Concurrency Kdiag
begin

text \<open>
  A model of the Go services of this repository and the theorems that say what they do.

  \<^bold>\<open>The program.\<close> Two groups of services. A wallet (\<^verbatim>\<open>gw-currency-wallet\<close>) keeps the balances of users in
  PostgreSQL, behind an HTTP interface with JSON bodies and JWT authentication; it asks an exchanger
  (\<^verbatim>\<open>gw-exchanger\<close>, gRPC over a table of rates) for rates through a client with a cache, and publishes large
  transactions to Kafka, which a notification service (\<^verbatim>\<open>gw-notification\<close>) stores in MongoDB. A producer
  (\<^verbatim>\<open>pv-producer\<close>) generates page views into Kafka, and an aggregator (\<^verbatim>\<open>pv-aggregator\<close>) validates them, writes
  them to ClickHouse in batches and sends the invalid ones to a dead-letter topic.

  \<^bold>\<open>Theories and code.\<close>
  \<^item> Prelude: \<^verbatim>\<open>Base\<close> (results with an error, panics, 64-bit wrap-around, collections of facts); the parts of
    Go's library that the code uses: \<^verbatim>\<open>Go_Float\<close> (binary64 as exact rationals with rounding to nearest even),
    \<^verbatim>\<open>Go_Text\<close> (strings, strconv, RFC 3339 output), \<^verbatim>\<open>Go_Json\<close> (decoding a parsed body into a struct, field
    names matched as \<^verbatim>\<open>encoding/json\<close> does), \<^verbatim>\<open>Go_Net\<close> (\<^verbatim>\<open>net.ParseIP\<close>, RFC 3339 input), \<^verbatim>\<open>Go_Time\<close> (the
    calendar and its inverse, times as JSON), \<^verbatim>\<open>Go_Scan\<close> (\<^verbatim>\<open>time.ParseDuration\<close>, \<^verbatim>\<open>strconv.ParseFloat\<close>,
    \<^verbatim>\<open>fmt.Sscanf\<close> of a float), \<^verbatim>\<open>Go_Mux\<close> (\<^verbatim>\<open>http.ServeMux\<close>, canonical paths), \<^verbatim>\<open>Http\<close> (requests, responses, \<^verbatim>\<open>writeJSON\<close> and
    \<^verbatim>\<open>writeError\<close>); \<^verbatim>\<open>Config\<close> and \<^verbatim>\<open>Wallet_Config\<close> (\<^verbatim>\<open>internal/config\<close> of the services and
    \<^verbatim>\<open>internal/config.go\<close> of the wallet).
  \<^item> The wallet: \<^verbatim>\<open>Wallet_Db\<close> (the tables of \<^verbatim>\<open>migrations/\<close> and each statement the code sends),
    \<^verbatim>\<open>Wallet_Repo\<close> (\<^verbatim>\<open>repo_auth.go\<close>), \<^verbatim>\<open>Auth\<close> (\<^verbatim>\<open>auth/\<close>, \<^verbatim>\<open>http/middleware\<close>), \<^verbatim>\<open>Exchanger_Client\<close>
    (\<^verbatim>\<open>grpcclient/\<close>), \<^verbatim>\<open>Exchanger_Concurrency\<close> (its lock with any number of callers), \<^verbatim>\<open>Publisher\<close>
    (\<^verbatim>\<open>kafka/publisher.go\<close>), \<^verbatim>\<open>Wallet_Handlers\<close> (\<^verbatim>\<open>handler*.go\<close>, \<^verbatim>\<open>routes.go\<close>), \<^verbatim>\<open>Wallet_Legacy\<close>
    (\<^verbatim>\<open>service.go\<close>, \<^verbatim>\<open>repo_postgres.go\<close> and the handlers of UUID wallets), \<^verbatim>\<open>Wallet_Concurrency\<close> (\<^verbatim>\<open>Deposit\<close>,
    \<^verbatim>\<open>Withdraw\<close> and \<^verbatim>\<open>Exchange\<close> of any number of requests, interleaved statement by statement under row locks),
    \<^verbatim>\<open>Registration_Concurrency\<close> (the five statements of \<^verbatim>\<open>HandleRegister\<close>, interleaved in the same way).
  \<^item> \<^verbatim>\<open>Exchanger\<close> (\<^verbatim>\<open>rates_repo.go\<close>, \<^verbatim>\<open>service.go\<close>, \<^verbatim>\<open>grpc/handler.go\<close>); \<^verbatim>\<open>Notification\<close>
    (\<^verbatim>\<open>consumer.go\<close>, \<^verbatim>\<open>mongo.go\<close>, \<^verbatim>\<open>health/handler.go\<close>); \<^verbatim>\<open>Aggregator\<close> (\<^verbatim>\<open>pv-aggregator/internal\<close>)
    and \<^verbatim>\<open>Aggregator_Concurrency\<close> (its goroutines \<^verbatim>\<open>Run\<close>, \<^verbatim>\<open>flushLoop\<close> and \<^verbatim>\<open>Close\<close>, interleaved step by step);
    \<^verbatim>\<open>Producer\<close> (\<^verbatim>\<open>pv-producer/internal\<close> and \<^verbatim>\<open>runGenerator\<close>) and \<^verbatim>\<open>Producer_Concurrency\<close> (sends, flush loops,
    control and closing, interleaved step by step).
  \<^item> \<^verbatim>\<open>Startup\<close>: \<^verbatim>\<open>cmd/app/main.go\<close> of the five services, from the environment through connecting (with the
    retry loop, \<^verbatim>\<open>mongo.Connect\<close>, \<^verbatim>\<open>clickhouse.NewClient\<close>, the creation of topics) to the stop by a signal and
    its deferred calls; it composes the parts above. \<^verbatim>\<open>Servers\<close>: what answers at the services' ports (the
    patterns of each multiplexer with its handlers), the readers of Kafka, the exchanger's test client and
    \<^verbatim>\<open>NewPool\<close>. \<^verbatim>\<open>Kdiag\<close>: \<^verbatim>\<open>pv-tools/kdiag\<close>.

  State is passed explicitly: the wallet's is the database, the client's cache and what went to Kafka
  (\<open>wallet_state\<close>); the aggregator's the buffer, the metrics, the tables and the offsets (\<open>consumer\<close>). What an
  operation meets (the clock, random draws, fresh UUIDs, outcomes of remote calls) is an argument. A remote
  write has three outcomes: acknowledged, failed before it took effect, and failed after it.

  \<^bold>\<open>Lemmas.\<close>
  \<^item> \<^verbatim>\<open>Wallet_Ledger\<close>: an abstract ledger of accounts; the repository's operations are its operations.
  \<^item> \<^verbatim>\<open>Wallet_Repo\<close>, locale \<open>stmt_invariant\<close>: an invariant of every statement is one of every operation and
    request; interpreted on the schema's invariant and on non-negative balances.
  \<^item> \<^verbatim>\<open>Wallet_Requests\<close>, \<^verbatim>\<open>Wallet_Access\<close>, \<^verbatim>\<open>Wallet_Accounts\<close>: requests that pass the handlers' checks, which
    wallet a request may touch, registration and login. \<^verbatim>\<open>Wallet_Demo\<close>: concrete states for the witnesses.
  \<^item> Locales \<open>wallet_repository\<close>, \<open>rate_source\<close> and \<open>batch_queue\<close>: the contracts of the repository interface,
    the exchanger and the aggregator's buffer, each interpreted on the model of the code.
  \<^item> \<^verbatim>\<open>Wallet_Concurrency\<close>: what a transaction has written and not committed is what its operation gives on
    the committed rows, which its locks hold still; hence the committed rows are those of the operations
    run one after another.
  \<^item> \<^verbatim>\<open>Registration_Concurrency\<close>: what each registration under way owns in the database, kept by its own steps
    and by those of the others; one alone is \<^verbatim>\<open>HandleRegister\<close>.
  \<^item> \<^verbatim>\<open>Wallet_Responses\<close>: which statuses and bodies a route may answer with, handler by handler;
    \<^verbatim>\<open>Wallet_Rates\<close>: which answers of the exchanger the cache can hold after a run of requests;
    \<^verbatim>\<open>Wallet_Audit\<close>: what a request makes the publisher do, on every route.
  \<^item> \<^verbatim>\<open>Aggregator_Concurrency\<close>: the balance of rows that every step keeps, and that the sequential run of
    \<^verbatim>\<open>Aggregator\<close> is one of the interleavings; \<^verbatim>\<open>Aggregator_Progress\<close>: that its goroutines can always
    finish; \<^verbatim>\<open>Producer_Concurrency\<close>: the same for the producer's messages.
  \<^item> \<^verbatim>\<open>Money_Pipeline\<close> and \<^verbatim>\<open>View_Pipeline\<close>: the ways of a large deposit from the request to the document in
    MongoDB, and of a page view from the generator to the row in ClickHouse.
  \<^item> \<^verbatim>\<open>Startup_Properties\<close>: connecting ends and leaks no pool, what a serving wallet was configured with, and
    what a normal stop has closed and stored.
  \<^item> \<^verbatim>\<open>*_Properties\<close>, the pipelines, \<^verbatim>\<open>*_Concurrency\<close>, \<^verbatim>\<open>Wallet_Responses\<close>, \<^verbatim>\<open>Wallet_Rates\<close>,
    \<^verbatim>\<open>Wallet_Audit\<close> and \<^verbatim>\<open>Aggregator_Progress\<close>: the properties, each with a witness where it has hypotheses.

  \<^bold>\<open>Bounds.\<close> Retry loops recurse on the attempts left, with the code's constants (five attempts to save or
  insert, ten for a dead letter, the configured retries of the publisher): the fuel is the loop's own bound.
  Loops that run as long as the process does take a list of what they meet. The loop that connects to
  PostgreSQL is bounded by a clock only: it is a partial function, and a property of \<^verbatim>\<open>Startup_Properties\<close> shows that it
  returns.

  \<^bold>\<open>Parameters.\<close> bcrypt, the JWT library and the conversion between \<^verbatim>\<open>float64\<close> and \<^verbatim>\<open>NUMERIC\<close> (pgx) are
  parameters with the named hypotheses \<open>bcrypt_ok\<close>, \<open>jwt_roundtrip\<close>, \<open>jwt_sound\<close> and \<open>codec_nonneg\<close>; the
  witnesses instantiate them. JSON text is modelled from the parsed value on.

  \<^bold>\<open>Not modelled.\<close> Generated gRPC code; the settings of Kafka writers and of HTTP servers (sizes and timeouts: a
  timeout is an outcome); logs. Requests are modelled one at a time, except for the rate client, the balances and
  the registrations, whose interleavings are modelled each for itself.
\<close>

end
